(* ===== verification/Twamp_Prelude.thy ===== *)
theory Twamp_Prelude
  imports Complex_Main "HOL-Library.Word"
begin

unbundle bit_operations_syntax

text \<open>
  The shared vocabulary of the development: the C++ integer types as words, the byte order of a
  little-endian host and of the network (\<^verbatim>\<open>htonl\<close>, \<^verbatim>\<open>htons\<close>, \<^verbatim>\<open>ntohl\<close>, \<^verbatim>\<open>ntohs\<close>), the decimal
  output of \<^verbatim>\<open>operator<<\<close> and \<^verbatim>\<open>std::to_string\<close>, the clock that \<^verbatim>\<open>clock_gettime\<close> and \<^verbatim>\<open>time\<close> read,
  and the generic lemmas on lists and words that the component theories use.
  The supported targets (x86-64, aarch64) are little-endian and have 64-bit \<^verbatim>\<open>time_t\<close>, \<^verbatim>\<open>long\<close> and
  \<^verbatim>\<open>size_t\<close>. Unsigned C++ integers are words; signed ones are \<^typ>\<open>int\<close> (their overflow is undefined
  behaviour), read out of a word by \<^const>\<open>sint\<close> where the source casts.
\<close>

named_theorems byte_order \<open>laws of the byte order conversions\<close>

type_synonym u8 = "8 word"
type_synonym u16 = "16 word"
type_synonym u32 = "32 word"
type_synonym u64 = "64 word"

section \<open>Bytes of a word in memory\<close>

text \<open>\<^term>\<open>to_le n w\<close>: the \<^term>\<open>n\<close> bytes of an object that holds \<^term>\<open>w\<close>, lowest address first.\<close>

definition to_le :: "nat \<Rightarrow> 'a::len word \<Rightarrow> u8 list" where
  "to_le n w = map (\<lambda>k. ucast (drop_bit (8 * k) w)) [0..<n]"

fun from_le :: "u8 list \<Rightarrow> 'a::len word" where
  "from_le [] = 0"
| "from_le (b # bs) = ucast b OR push_bit 8 (from_le bs)"

lemma length_to_le [simp]: "length (to_le n w) = n"
  by (simp add: to_le_def)

lemma bit_from_le:
  "bit (from_le bs :: 'a::len word) m \<longleftrightarrow>
     m < LENGTH('a) \<and> m div 8 < length bs \<and> bit (bs ! (m div 8)) (m mod 8)"
proof (induction bs arbitrary: m)
  case Nil
  then show ?case by simp
next
  case (Cons b bs)
  show ?case
  proof (cases "m < 8")
    case True
    then show ?thesis
      by (auto simp: bit_simps)
  next
    case False
    then obtain j where m: "m = 8 + j" by (metis le_add_diff_inverse not_less)
    have "\<not> bit b m" using False by (simp add: m bit_word.rep_eq bit_take_bit_iff)
    then show ?thesis
      using Cons.IH [of j] by (auto simp: bit_simps m)
  qed
qed

lemma from_le_to_le [simp, byte_order]:
  assumes "8 * n = LENGTH('a::len)"
  shows "from_le (to_le n (w :: 'a word)) = w"
proof (rule bit_word_eqI)
  fix m assume m: "m < LENGTH('a)"
  then have k: "m div 8 < n" using assms by simp
  have "8 * (m div 8) + m mod 8 = m" by simp
  with m k show "bit (from_le (to_le n w) :: 'a word) m = bit w m"
    by (simp add: bit_from_le to_le_def bit_simps)
qed

lemma to_le_from_le [simp, byte_order]:
  assumes "8 * n = LENGTH('a::len)" and "length bs = n"
  shows "to_le n (from_le bs :: 'a word) = bs"
proof (rule nth_equalityI)
  show "length (to_le n (from_le bs :: 'a word)) = length bs" using assms by simp
next
  fix k assume "k < length (to_le n (from_le bs :: 'a word))"
  then have k: "k < n" by simp
  show "to_le n (from_le bs :: 'a word) ! k = bs ! k"
  proof (rule bit_word_eqI)
    fix m assume "m < LENGTH(8)"
    then have m: "m < 8" by simp
    have "8 * k + m < LENGTH('a)" using k m assms(1) by linarith
    then show "bit (to_le n (from_le bs :: 'a word) ! k) m = bit (bs ! k) m"
      using k m assms by (simp add: to_le_def bit_simps bit_from_le)
  qed
qed

section \<open>Network byte order\<close>

text \<open>
  \<^verbatim>\<open>htonl\<close> on a little-endian host: the word whose bytes in memory are the big-endian bytes of the
  argument. \<^verbatim>\<open>ntohl\<close> is the same function.
\<close>

definition htonl :: "u32 \<Rightarrow> u32" where
  "htonl w = from_le (rev (to_le 4 w))"

definition htons :: "u16 \<Rightarrow> u16" where
  "htons w = from_le (rev (to_le 2 w))"

definition ntohl :: "u32 \<Rightarrow> u32" where
  "ntohl = htonl"

definition ntohs :: "u16 \<Rightarrow> u16" where
  "ntohs = htons"

lemma ntohl_htonl [simp, byte_order]: "ntohl (htonl w) = w"
  by (simp add: ntohl_def htonl_def)

lemma htonl_ntohl [simp, byte_order]: "htonl (ntohl w) = w"
  by (simp add: ntohl_def htonl_def)

lemma ntohs_htons [simp, byte_order]: "ntohs (htons w) = w"
  by (simp add: ntohs_def htons_def)

lemma htons_ntohs [simp, byte_order]: "htons (ntohs w) = w"
  by (simp add: ntohs_def htons_def)

lemma to_le_htonl [byte_order]: "to_le 4 (htonl w) = rev (to_le 4 w)"
  by (simp add: htonl_def)

lemma to_le_htons [byte_order]: "to_le 2 (htons w) = rev (to_le 2 w)"
  by (simp add: htons_def)

lemma htonl_inject [simp]: "htonl a = htonl b \<longleftrightarrow> a = b"
  by (metis ntohl_htonl)

section \<open>Decimal numbers\<close>

text \<open>
  \<^verbatim>\<open>dec n\<close> is what \<^verbatim>\<open>operator<<\<close> and \<^verbatim>\<open>std::to_string\<close> print for an unsigned integer;
  \<^verbatim>\<open>dec_val\<close> reads a digit string.
\<close>

definition digit_char :: "nat \<Rightarrow> char" where
  "digit_char d = ''0123456789'' ! d"

definition is_digit :: "char \<Rightarrow> bool" where
  "is_digit c \<longleftrightarrow> 48 \<le> (of_char c :: nat) \<and> (of_char c :: nat) \<le> 57"

definition digit_val :: "char \<Rightarrow> nat" where
  "digit_val c = of_char c - 48"

fun dec :: "nat \<Rightarrow> string" where
  "dec n = (if n < 10 then [digit_char n] else dec (n div 10) @ [digit_char (n mod 10)])"

declare dec.simps [simp del]

definition dec_int :: "int \<Rightarrow> string" where
  "dec_int i = (if i < 0 then CHR ''-'' # dec (nat (- i)) else dec (nat i))"

definition dec_val :: "string \<Rightarrow> nat" where
  "dec_val cs = foldl (\<lambda>n c. n * 10 + digit_val c) 0 cs"

lemma of_char_digit_char [simp]: "d < 10 \<Longrightarrow> (of_char (digit_char d) :: nat) = 48 + d"
  by (auto simp: digit_char_def numeral_eq_Suc less_Suc_eq)

lemma is_digit_digit_char [simp]: "d < 10 \<Longrightarrow> is_digit (digit_char d)"
  by (simp add: is_digit_def)

lemma digit_val_digit_char [simp]: "d < 10 \<Longrightarrow> digit_val (digit_char d) = d"
  by (simp add: digit_val_def)

lemma dec_not_Nil [simp]: "dec n \<noteq> []"
  by (subst dec.simps) simp

lemma dec_digits: "\<forall>c \<in> set (dec n). is_digit c"
proof (induction n rule: dec.induct)
  case (1 n)
  then show ?case by (subst dec.simps) auto
qed

lemma dec_val_append_digit: "dec_val (cs @ [c]) = dec_val cs * 10 + digit_val c"
  by (simp add: dec_val_def)

lemma dec_val_dec [simp]: "dec_val (dec n) = n"
proof (induction n rule: dec.induct)
  case (1 n)
  show ?case
  proof (cases "n < 10")
    case True
    then show ?thesis by (subst dec.simps) (simp add: dec_val_def)
  next
    case False
    with "1.IH" have "dec_val (dec (n div 10)) = n div 10" by simp
    with False show ?thesis by (subst dec.simps) (simp add: dec_val_append_digit)
  qed
qed

lemma dec_inject [simp]: "dec m = dec n \<longleftrightarrow> m = n"
  by (metis dec_val_dec)

section \<open>Exceptions of the C++ library\<close>

datatype cxx_exn = Invalid_argument | Out_of_range | Runtime_error string

section \<open>The last element of a kind\<close>

lemma last_of_kind_snoc:
  "last (d # map f (filter P (xs @ [x]))) = (if P x then f x else last (d # map f (filter P xs)))"
  by simp

lemma distinct_map_const_length:
  assumes "distinct (map f xs)" and "\<And>x. x \<in> set xs \<Longrightarrow> f x = k"
  shows "length xs \<le> 1"
proof (cases xs)
  case (Cons x ys)
  with assms show ?thesis by (cases ys) auto
qed simp

section \<open>Slices of a byte list\<close>

lemma take_drop_append_drop: "k = n + m \<Longrightarrow> take m (drop n xs) @ drop k xs = drop n xs"
  by (metis append_take_drop_id drop_drop add.commute)

lemma take_append_drop_eq: "k = m \<Longrightarrow> take m xs @ drop k xs = xs"
  by simp

lemmas slice_simps = take_drop_append_drop take_append_drop_eq

end
