(* ===== verification/Binary64.thy ===== *)
theory Binary64
  imports Twamp_Prelude "HOL-Library.Log_Nat"
begin

text \<open>
  The C++ \<^verbatim>\<open>double\<close>: IEEE 754 binary64 with rounding to nearest, ties to even. A finite double is
  the rational number it denotes, and each arithmetic operation is the exact operation followed by
  \<^verbatim>\<open>rnd\<close>. The exponent is not bounded: the magnitudes that occur in the program lie between
  \<^verbatim>\<open>1e-6\<close> and \<^verbatim>\<open>1e26\<close>, far from overflow and from the subnormal numbers.
  The lemmas bound the rounding error, and show that \<^verbatim>\<open>rnd\<close> is exact on integers of 53 bits and
  their multiples by a power of two, and monotone.
\<close>

type_synonym double = rat

definition round_half_even :: "rat \<Rightarrow> int" where
  "round_half_even x =
     (let f = \<lfloor>x\<rfloor>; d = x - of_int f in
      if d < 1 / 2 then f else if 1 / 2 < d then f + 1 else if even f then f else f + 1)"

text \<open>The exponent of the leading binary digit.\<close>

definition ilog2 :: "rat \<Rightarrow> int" where
  "ilog2 x = (let (a, b) = quotient_of \<bar>x\<bar>; k = bitlen a - bitlen b in
              if \<bar>x\<bar> < 2 powi k then k - 1 else k)"

definition rnd :: "rat \<Rightarrow> double" where
  "rnd x = (if x = 0 then 0
            else let u = 2 powi (ilog2 x - 52) in of_int (round_half_even (x / u)) * u)"

definition d_of_int :: "int \<Rightarrow> double" where
  "d_of_int n = rnd (of_int n)"

definition d_mul :: "double \<Rightarrow> double \<Rightarrow> double" where
  "d_mul a b = rnd (a * b)"

definition d_div :: "double \<Rightarrow> double \<Rightarrow> double" where
  "d_div a b = rnd (a / b)"

definition d_sub :: "double \<Rightarrow> double \<Rightarrow> double" where
  "d_sub a b = rnd (a - b)"

text \<open>Conversion to an integer type truncates towards zero.\<close>

definition d_trunc :: "double \<Rightarrow> int" where
  "d_trunc x = (if 0 \<le> x then \<lfloor>x\<rfloor> else \<lceil>x\<rceil>)"

text \<open>
  Output with \<^verbatim>\<open>std::fixed\<close> and six digits (the default precision): the decimal number nearest to the
  exact value of the double, ties to even.
\<close>

definition pad_zeros :: "nat \<Rightarrow> string \<Rightarrow> string" where
  "pad_zeros n s = replicate (n - length s) (CHR ''0'') @ s"

definition print_fixed :: "double \<Rightarrow> string" where
  "print_fixed x =
     (let n = nat (round_half_even (\<bar>x\<bar> * 1000000))
      in (if x < 0 then ''-'' else []) @ dec (n div 1000000) @ ''.'' @ pad_zeros 6 (dec (n mod 1000000)))"

text \<open>The literal \<^verbatim>\<open>1e-6\<close>.\<close>

definition d_1em6 :: double where
  "d_1em6 = rnd (1 / 1000000)"

section \<open>Rounding to the nearest integer\<close>

lemma round_half_even_of_int [simp]: "round_half_even (of_int n) = n"
  by (simp add: round_half_even_def)

lemma round_half_even_error: "\<bar>of_int (round_half_even x) - x\<bar> \<le> 1 / 2"
  using floor_correct [of x] unfolding round_half_even_def Let_def
  by (auto simp: abs_le_iff)

lemma round_half_even_mono:
  assumes "x \<le> y" shows "round_half_even x \<le> round_half_even y"
proof (cases "\<lfloor>x\<rfloor> = \<lfloor>y\<rfloor>")
  case True
  with assms show ?thesis by (auto simp: round_half_even_def Let_def)
next
  case False
  have "\<lfloor>x\<rfloor> \<le> \<lfloor>y\<rfloor>" using assms by (rule floor_mono)
  with False have "\<lfloor>x\<rfloor> + 1 \<le> \<lfloor>y\<rfloor>" by simp
  moreover have "round_half_even x \<le> \<lfloor>x\<rfloor> + 1" and "\<lfloor>y\<rfloor> \<le> round_half_even y"
    by (auto simp: round_half_even_def Let_def)
  ultimately show ?thesis by linarith
qed

section \<open>The leading binary digit\<close>

lemma powi2_pos [simp]: "(0::rat) < 2 powi k"
  by simp

lemma powi2_less_iff: "(2::rat) powi j < 2 powi k \<longleftrightarrow> j < k"
  using power_int_strict_increasing [of j k "2::rat"] power_int_increasing [of k j "2::rat"]
  by (auto simp: not_less [symmetric])

lemma powi2_le_iff: "(2::rat) powi j \<le> 2 powi k \<longleftrightarrow> j \<le> k"
  by (simp add: powi2_less_iff flip: not_less)

lemma bitlen_bounds_rat:
  assumes "0 < a"
  shows "2 powi (bitlen a - 1) \<le> (of_int a :: rat)" and "(of_int a :: rat) < 2 powi bitlen a"
proof -
  have b: "2 ^ nat (bitlen a - 1) \<le> a" "a < 2 ^ nat (bitlen a)" and p: "1 \<le> bitlen a"
    using bitlen_bounds [OF assms] bitlen_ge_iff_power [of 1 a] assms by auto
  have "(of_int (2 ^ nat (bitlen a - 1)) :: rat) \<le> of_int a"
    and "(of_int a :: rat) < of_int (2 ^ nat (bitlen a))"
    using b by (simp_all only: of_int_le_iff of_int_less_iff)
  then show "2 powi (bitlen a - 1) \<le> (of_int a :: rat)" and "(of_int a :: rat) < 2 powi bitlen a"
    using p by (simp_all add: power_int_def)
qed

lemma ilog2_bounds:
  assumes "x \<noteq> 0"
  shows "2 powi ilog2 x \<le> \<bar>x\<bar>" and "\<bar>x\<bar> < 2 powi (ilog2 x + 1)"
proof -
  obtain a b where q: "quotient_of \<bar>x\<bar> = (a, b)" by (cases "quotient_of \<bar>x\<bar>")
  have b: "0 < b" and x: "\<bar>x\<bar> = of_int a / of_int b"
    using quotient_of_denom_pos [OF q] quotient_of_div [OF q] by auto
  have a: "0 < a" using assms x b by (metis abs_rat_def of_int_0_less_iff zero_less_abs_iff zero_less_divide_iff of_int_0_less_iff less_asym)
  let ?k = "bitlen a - bitlen b"
  have lo: "2 powi (?k - 1) \<le> \<bar>x\<bar>"
  proof -
    have "2 powi (?k - 1) * (of_int b :: rat) \<le> 2 powi (?k - 1) * 2 powi bitlen b"
      using bitlen_bounds_rat(2) [OF b] by (intro mult_left_mono) auto
    also have "\<dots> = 2 powi (bitlen a - 1)" by (simp flip: power_int_add)
    also have "\<dots> \<le> of_int a" by (rule bitlen_bounds_rat(1) [OF a])
    finally show ?thesis using b by (simp add: x pos_le_divide_eq)
  qed
  have hi: "\<bar>x\<bar> < 2 powi (?k + 1)"
  proof -
    have "(of_int a :: rat) < 2 powi bitlen a" by (rule bitlen_bounds_rat(2) [OF a])
    also have "\<dots> = 2 powi (?k + 1) * 2 powi (bitlen b - 1)" by (simp flip: power_int_add)
    also have "\<dots> \<le> 2 powi (?k + 1) * of_int b"
      using bitlen_bounds_rat(1) [OF b] by (intro mult_left_mono) auto
    finally show ?thesis using b by (simp add: x pos_divide_less_eq)
  qed
  show "2 powi ilog2 x \<le> \<bar>x\<bar>" and "\<bar>x\<bar> < 2 powi (ilog2 x + 1)"
    using lo hi by (auto simp: ilog2_def q Let_def)
qed

lemma ilog2_unique:
  assumes "2 powi k \<le> \<bar>x\<bar>" and "\<bar>x\<bar> < 2 powi (k + 1)"
  shows "ilog2 x = k"
proof -
  have "0 < \<bar>x\<bar>" using powi2_pos assms(1) by (rule less_le_trans)
  then have "x \<noteq> 0" by simp
  note b = ilog2_bounds [OF this]
  from assms(1) b(2) have "(2::rat) powi k < 2 powi (ilog2 x + 1)" by (rule le_less_trans)
  moreover from b(1) assms(2) have "(2::rat) powi ilog2 x < 2 powi (k + 1)" by (rule le_less_trans)
  ultimately show ?thesis by (simp add: powi2_less_iff)
qed

lemma ilog2_mono:
  assumes "x \<noteq> 0" and "\<bar>x\<bar> \<le> \<bar>y\<bar>" shows "ilog2 x \<le> ilog2 y"
proof -
  have "y \<noteq> 0" using assms by auto
  have "(2::rat) powi ilog2 x \<le> \<bar>x\<bar>" by (rule ilog2_bounds(1) [OF assms(1)])
  also have "\<dots> \<le> \<bar>y\<bar>" by fact
  also have "\<dots> < 2 powi (ilog2 y + 1)" by (rule ilog2_bounds(2) [OF \<open>y \<noteq> 0\<close>])
  finally show ?thesis by (simp add: powi2_less_iff)
qed

section \<open>Rounding to 53 bits\<close>

lemma rnd_0 [simp]: "rnd 0 = 0"
  by (simp add: rnd_def)

lemma rnd_error: "\<bar>rnd x - x\<bar> \<le> \<bar>x\<bar> / 2 ^ 53"
proof (cases "x = 0")
  case False
  let ?u = "2 powi (ilog2 x - 52) :: rat"
  have u: "?u = 2 powi ilog2 x / 2 ^ 52" by (simp add: power_int_diff)
  have "rnd x - x = (of_int (round_half_even (x / ?u)) - x / ?u) * ?u"
    using False by (simp add: rnd_def Let_def algebra_simps)
  then have "\<bar>rnd x - x\<bar> = \<bar>of_int (round_half_even (x / ?u)) - x / ?u\<bar> * ?u"
    by (simp add: abs_mult)
  also have "\<dots> \<le> 1 / 2 * ?u"
    by (intro mult_right_mono round_half_even_error) simp
  also have "\<dots> = 2 powi ilog2 x / 2 ^ 53" by (simp add: u)
  also have "\<dots> \<le> \<bar>x\<bar> / 2 ^ 53"
    using ilog2_bounds(1) [OF False] by (simp add: divide_right_mono)
  finally show ?thesis .
qed simp

lemma rnd_exact:
  assumes "\<bar>m\<bar> < 2 ^ 53"
  shows "rnd (of_int m * 2 powi e) = of_int m * 2 powi e"
proof (cases "m = 0")
  case False
  let ?x = "of_int m * 2 powi e :: rat"
  have x: "?x \<noteq> 0" using False by simp
  have "(of_int \<bar>m\<bar> :: rat) < of_int (2 ^ 53)" using assms by (simp only: of_int_less_iff)
  then have "\<bar>?x\<bar> < 2 powi 53 * 2 powi e" by (simp add: abs_mult)
  also have "\<dots> = 2 powi (e + 53)" by (simp add: power_int_add)
  finally have "(2::rat) powi ilog2 ?x < 2 powi (e + 53)"
    using ilog2_bounds(1) [OF x] by (rule le_less_trans [rotated])
  then have "ilog2 ?x - 52 \<le> e" by (simp add: powi2_less_iff)
  then obtain k where k: "e = ilog2 ?x - 52 + int k" by (metis zle_iff_zadd)
  let ?u = "2 powi (ilog2 ?x - 52) :: rat"
  have "(2::rat) powi e = 2 ^ k * ?u"
    by (subst k) (simp add: power_int_add)
  then have "?x = of_int (m * 2 ^ k) * ?u" by simp
  then have "?x / ?u = of_int (m * 2 ^ k)"
    by (metis nonzero_mult_div_cancel_right powi2_pos less_irrefl)
  with x show ?thesis
    by (simp only: rnd_def Let_def round_half_even_of_int if_False) (simp add: field_simps)
qed simp

lemma rnd_idem [simp]: "rnd (rnd x) = rnd x"
proof (cases "x = 0")
  case False
  let ?u = "2 powi (ilog2 x - 52) :: rat"
  let ?m = "round_half_even (x / ?u)"
  have b: "2 powi (ilog2 x + 1) = of_int (2 ^ 53) * ?u" by (simp add: power_int_diff power_int_add)
  have "\<bar>x\<bar> \<le> of_int (2 ^ 53) * ?u"
    using ilog2_bounds(2) [OF False] unfolding b by (rule less_imp_le)
  then have "of_int (- (2 ^ 53)) \<le> x / ?u" and "x / ?u \<le> of_int (2 ^ 53)"
    by (simp_all add: pos_le_divide_eq pos_divide_le_eq abs_le_iff)
  then have m: "- (2 ^ 53) \<le> ?m" "?m \<le> 2 ^ 53"
    by (metis round_half_even_mono round_half_even_of_int)+
  have r: "rnd x = of_int ?m * ?u" using False by (simp add: rnd_def Let_def)
  show ?thesis
  proof (cases "\<bar>?m\<bar> < 2 ^ 53")
    case True
    then show ?thesis by (simp add: r rnd_exact)
  next
    case False
    with m have "?m = 2 ^ 53 \<or> ?m = - (2 ^ 53)" by auto
    then have "\<exists>s. \<bar>s\<bar> < 2 ^ 53 \<and> rnd x = of_int s * 2 powi (ilog2 x + 1)"
      unfolding r b by (auto intro: exI [of _ 1] exI [of _ "-1"])
    then show ?thesis by (metis rnd_exact)
  qed
qed simp

lemma rnd_of_int [simp]: "\<bar>m\<bar> < 2 ^ 53 \<Longrightarrow> rnd (of_int m) = of_int m"
  using rnd_exact [of m 0] by simp

lemma rnd_powi [simp]: "rnd (2 powi e) = 2 powi e"
  using rnd_exact [of 1 e] by simp

lemma rnd_scale: "rnd (x * 2 powi k) = rnd x * 2 powi k"
proof (cases "x = 0")
  case False
  have "ilog2 (x * 2 powi k) = ilog2 x + k"
    using ilog2_bounds [OF False]
    by (intro ilog2_unique) (auto simp: abs_mult power_int_add algebra_simps)
  then have u: "2 powi (ilog2 (x * 2 powi k) - 52) = (2::rat) powi (ilog2 x - 52) * 2 powi k"
    by (simp add: algebra_simps flip: power_int_add)
  show ?thesis using False by (simp add: rnd_def u Let_def)
qed simp

lemma rnd_nonneg: assumes "0 \<le> x" shows "0 \<le> rnd x"
proof -
  have "x - rnd x \<le> x / 2 ^ 53" using rnd_error [of x] assms by (simp only: abs_le_iff abs_of_nonneg minus_diff_eq)
  also have "\<dots> \<le> x" using assms by (simp add: divide_le_eq)
  finally show ?thesis by simp
qed

lemma rnd_bounds_binade:
  assumes "0 < x"
  shows "2 powi ilog2 x \<le> rnd x" and "rnd x \<le> 2 powi (ilog2 x + 1)"
proof -
  let ?u = "2 powi (ilog2 x - 52) :: rat"
  have a: "2 powi ilog2 x = of_int (2 ^ 52) * ?u" and b: "2 powi (ilog2 x + 1) = of_int (2 ^ 53) * ?u"
    by (simp_all add: power_int_diff power_int_add)
  have "of_int (2 ^ 52) \<le> x / ?u" and "x / ?u \<le> of_int (2 ^ 53)"
    using ilog2_bounds [of x] assms unfolding a b by (simp_all add: pos_le_divide_eq pos_divide_le_eq)
  then have "2 ^ 52 \<le> round_half_even (x / ?u)" and "round_half_even (x / ?u) \<le> 2 ^ 53"
    by (metis round_half_even_mono round_half_even_of_int)+
  then have "(of_int (2 ^ 52) :: rat) \<le> of_int (round_half_even (x / ?u))"
    and "(of_int (round_half_even (x / ?u)) :: rat) \<le> of_int (2 ^ 53)"
    by (simp_all only: of_int_le_iff)
  then have "of_int (2 ^ 52) * ?u \<le> of_int (round_half_even (x / ?u)) * ?u"
    and "of_int (round_half_even (x / ?u)) * ?u \<le> of_int (2 ^ 53) * ?u"
    by (simp_all only: mult_right_mono powi2_pos less_imp_le)
  then show "2 powi ilog2 x \<le> rnd x" and "rnd x \<le> 2 powi (ilog2 x + 1)"
    using assms unfolding a b by (simp_all add: rnd_def Let_def)
qed

lemma rnd_mono:
  assumes "0 \<le> x" and "x \<le> y" shows "rnd x \<le> rnd y"
proof (cases "x = 0")
  case True
  with assms show ?thesis by (simp add: rnd_nonneg)
next
  case False
  with assms have x: "0 < x" and y: "0 < y" by auto
  have le: "ilog2 x \<le> ilog2 y" using assms by (intro ilog2_mono) (use x in auto)
  show ?thesis
  proof (cases "ilog2 x = ilog2 y")
    case True
    have "x / 2 powi (ilog2 x - 52) \<le> y / 2 powi (ilog2 x - 52)"
      using assms by (simp add: divide_right_mono)
    then have "round_half_even (x / 2 powi (ilog2 x - 52)) \<le> round_half_even (y / 2 powi (ilog2 x - 52))"
      by (rule round_half_even_mono)
    then show ?thesis using x y True by (simp add: rnd_def Let_def)
  next
    case False
    have "rnd x \<le> 2 powi (ilog2 x + 1)" by (rule rnd_bounds_binade(2) [OF x])
    also have "\<dots> \<le> 2 powi ilog2 y" using le False by (simp add: powi2_le_iff)
    also have "\<dots> \<le> rnd y" by (rule rnd_bounds_binade(1) [OF y])
    finally show ?thesis .
  qed
qed

section \<open>Operations\<close>

lemma d_of_int_exact [simp]: "\<bar>n\<bar> < 2 ^ 53 \<Longrightarrow> d_of_int n = of_int n"
  by (simp add: d_of_int_def)

lemma d_div_pow2: "d_div (rnd x) (2 ^ k) = rnd x / 2 ^ k"
proof -
  have p: "y / 2 ^ k = y * 2 powi (- int k)" for y :: rat
    by (simp add: power_int_minus field_simps)
  show ?thesis unfolding d_div_def p by (simp add: rnd_scale)
qed

lemma d_trunc_mono: "x \<le> y \<Longrightarrow> d_trunc x \<le> d_trunc y"
  unfolding d_trunc_def using floor_mono [of x y] ceiling_mono [of x y]
  by (auto simp: ceiling_le_zero intro: order_trans [of _ 0])

end
