(* ===== verification/Timestamps.thy ===== *)
theory Timestamps
  imports Binary64
begin

text \<open>
  The time conversions of \<^verbatim>\<open>src/utils.cpp\<close> and \<^verbatim>\<open>include/utils.hpp\<close>: Unix time (\<^verbatim>\<open>timespec\<close>,
  \<^verbatim>\<open>timeval\<close>) to NTP timestamps and back, nanosecond counts, and the normalising addition
  \<^verbatim>\<open>safe_tspecplus\<close>. The fraction of a second is computed in \<^verbatim>\<open>double\<close> arithmetic, modelled by the
  theory Binary64. The lemmas show that the conversions are inverse to each other up to one
  nanosecond (microsecond), for all Unix seconds that fit 32 bits, hence across the roll-over of
  the NTP era in 2036.
\<close>

section \<open>Types and constants\<close>

record timestamp =
  integer :: u32
  fractional :: u32

record timespec =
  tv_sec :: int
  tv_nsec :: int

record timeval =
  tval_sec :: int
  tval_usec :: int

definition NTP_EPOCH_OFFSET :: u32 where
  "NTP_EPOCH_OFFSET = 2208988800"

definition NANOSECONDS_IN_MICROSECOND :: int where
  "NANOSECONDS_IN_MICROSECOND = 1000"

definition NSEC_PER_SEC :: int where
  "NSEC_PER_SEC = 1000000000"

text \<open>The constants \<^verbatim>\<open>(double)(1ULL << 32) / 1e6\<close> and \<^verbatim>\<open>(double)(1ULL << 32) / 1e9\<close>.\<close>

definition frac_per_usec :: double where
  "frac_per_usec = d_div (2 ^ 32) 1000000"

definition frac_per_nsec :: double where
  "frac_per_nsec = d_div (2 ^ 32) 1000000000"

section \<open>Operations\<close>

text \<open>
  Each C++ conversion takes two pointers and returns at once, leaving the target as it is, when
  one of them is null; \<^verbatim>\<open>through_ptrs\<close> is that guard. The conversions proper are functions of
  the pointees.
\<close>

definition through_ptrs :: "('a \<Rightarrow> 'b) \<Rightarrow> 'a option \<Rightarrow> 'b option \<Rightarrow> 'b option" where
  "through_ptrs f src dst = (case (src, dst) of (Some x, Some _) \<Rightarrow> Some (f x) | _ \<Rightarrow> dst)"

definition timeval_to_timestamp :: "timeval \<Rightarrow> timestamp" where
  "timeval_to_timestamp tv =
     \<lparr>integer = word_of_int (tval_sec tv) + NTP_EPOCH_OFFSET,
      fractional = word_of_int (d_trunc (d_mul (d_of_int (tval_usec tv)) frac_per_usec))\<rparr>"

definition timespec_to_timestamp :: "timespec \<Rightarrow> timestamp" where
  "timespec_to_timestamp tv =
     \<lparr>integer = word_of_int (tv_sec tv) + NTP_EPOCH_OFFSET,
      fractional = word_of_int (d_trunc (d_mul (d_of_int (tv_nsec tv)) frac_per_nsec))\<rparr>"

definition timestamp_to_timeval :: "timestamp \<Rightarrow> timeval" where
  "timestamp_to_timeval ts =
     \<lparr>tval_sec = uint (integer ts - NTP_EPOCH_OFFSET),
      tval_usec = d_trunc (d_div (d_mul (d_of_int (uint (fractional ts))) 1000000) (2 ^ 32))\<rparr>"

definition timestamp_to_timespec :: "timestamp \<Rightarrow> timespec" where
  "timestamp_to_timespec ts =
     \<lparr>tv_sec = uint (integer ts - NTP_EPOCH_OFFSET),
      tv_nsec = d_trunc (d_div (d_mul (d_of_int (uint (fractional ts))) 1000000000) (2 ^ 32))\<rparr>"

definition timeval_to_timestamp_ptr :: "timeval option \<Rightarrow> timestamp option \<Rightarrow> timestamp option" where
  "timeval_to_timestamp_ptr = through_ptrs timeval_to_timestamp"

definition timespec_to_timestamp_ptr :: "timespec option \<Rightarrow> timestamp option \<Rightarrow> timestamp option" where
  "timespec_to_timestamp_ptr = through_ptrs timespec_to_timestamp"

definition timestamp_to_timeval_ptr :: "timestamp option \<Rightarrow> timeval option \<Rightarrow> timeval option" where
  "timestamp_to_timeval_ptr = through_ptrs timestamp_to_timeval"

definition timestamp_to_timespec_ptr :: "timestamp option \<Rightarrow> timespec option \<Rightarrow> timespec option" where
  "timestamp_to_timespec_ptr = through_ptrs timestamp_to_timespec"

definition timestamp_to_usec :: "timestamp \<Rightarrow> u64" where
  "timestamp_to_usec ts =
     (let tv = timestamp_to_timeval ts
      in word_of_int (tval_sec tv) * 1000000 + word_of_int (tval_usec tv))"

definition timestamp_to_nsec :: "timestamp \<Rightarrow> u64" where
  "timestamp_to_nsec ts =
     (let tv = timestamp_to_timespec ts
      in word_of_int (tv_sec tv) * 1000000000 + word_of_int (tv_nsec tv))"

definition nanosecondsToTimespec :: "u64 \<Rightarrow> timespec" where
  "nanosecondsToTimespec d =
     \<lparr>tv_sec = sint (d div 1000000000), tv_nsec = sint (d mod 1000000000)\<rparr>"

text \<open>The loop of \<^verbatim>\<open>safe_tspecplus\<close>, which moves whole seconds out of the nanoseconds.\<close>

function carry_seconds :: "int \<Rightarrow> int \<Rightarrow> timespec" where
  "carry_seconds sec nsec =
     (if NSEC_PER_SEC \<le> nsec then carry_seconds (sec + 1) (nsec - NSEC_PER_SEC)
      else \<lparr>tv_sec = sec, tv_nsec = nsec\<rparr>)"
  by pat_completeness auto
termination
  by (relation "measure (\<lambda>(sec, nsec). nat nsec)") (auto simp: NSEC_PER_SEC_def)

declare carry_seconds.simps [simp del]

definition safe_tspecplus :: "timespec \<Rightarrow> timespec \<Rightarrow> timespec" where
  "safe_tspecplus a b = carry_seconds (tv_sec a + tv_sec b) (tv_nsec a + tv_nsec b)"

definition ntohts :: "timestamp \<Rightarrow> timestamp" where
  "ntohts ts = \<lparr>integer = ntohl (integer ts), fractional = ntohl (fractional ts)\<rparr>"

definition htonts :: "timestamp \<Rightarrow> timestamp" where
  "htonts ts = \<lparr>integer = htonl (integer ts), fractional = htonl (fractional ts)\<rparr>"

lemma ntohts_htonts [simp, byte_order]: "ntohts (htonts ts) = ts"
  by (simp add: ntohts_def htonts_def)

lemma htonts_ntohts [simp, byte_order]: "htonts (ntohts ts) = ts"
  by (simp add: ntohts_def htonts_def)

section \<open>The system clock\<close>

text \<open>
  Every read of the system clock (\<^verbatim>\<open>clock_gettime\<close>, \<^verbatim>\<open>gettimeofday\<close>, \<^verbatim>\<open>time\<close>) takes the next
  reading. Nothing is assumed about the readings: \<^verbatim>\<open>CLOCK_REALTIME\<close> may be set back.
\<close>

record sys_clock =
  readings :: "nat \<Rightarrow> timespec"
  ticks :: nat

definition clock_gettime :: "sys_clock \<Rightarrow> timespec \<times> sys_clock" where
  "clock_gettime c = (readings c (ticks c), c\<lparr>ticks := Suc (ticks c)\<rparr>)"

definition time_null :: "sys_clock \<Rightarrow> u64 \<times> sys_clock" where
  "time_null c = (case clock_gettime c of (t, c') \<Rightarrow> (word_of_int (tv_sec t), c'))"

definition get_timestamp :: "sys_clock \<Rightarrow> timestamp \<times> sys_clock" where
  "get_timestamp c = (case clock_gettime c of (t, c') \<Rightarrow> (timespec_to_timestamp t, c'))"

definition get_usec :: "sys_clock \<Rightarrow> u64 \<times> sys_clock" where
  "get_usec c =
     (case clock_gettime c of (t, c') \<Rightarrow>
        let tv = \<lparr>tval_sec = tv_sec t, tval_usec = tv_nsec t div 1000\<rparr>
        in (word_of_int (tval_sec tv) * 1000000 + word_of_int (tval_usec tv), c'))"

lemma get_timestamp_simps [simp]:
  "fst (get_timestamp c) = timespec_to_timestamp (readings c (ticks c))"
  "snd (get_timestamp c) = c\<lparr>ticks := Suc (ticks c)\<rparr>"
  by (simp_all add: get_timestamp_def clock_gettime_def)

section \<open>Nanoseconds of a timespec\<close>

definition nsec_of :: "timespec \<Rightarrow> int" where
  "nsec_of t = tv_sec t * 1000000000 + tv_nsec t"

definition normalised :: "timespec \<Rightarrow> bool" where
  "normalised t \<longleftrightarrow> 0 \<le> tv_nsec t \<and> tv_nsec t < 1000000000"

text \<open>What the system clock delivers: a normalised time whose seconds fit 32 bits (until 2106).\<close>

definition clock_ok :: "timespec \<Rightarrow> bool" where
  "clock_ok t \<longleftrightarrow> normalised t \<and> 0 \<le> tv_sec t \<and> tv_sec t < 2 ^ 32"

lemma carry_seconds_nsec_of: "nsec_of (carry_seconds s n) = s * 1000000000 + n"
  by (induction s n rule: carry_seconds.induct)
     (subst carry_seconds.simps, auto simp: NSEC_PER_SEC_def nsec_of_def)

lemma carry_seconds_normalised: "0 \<le> n \<Longrightarrow> normalised (carry_seconds s n)"
  by (induction s n rule: carry_seconds.induct)
     (subst carry_seconds.simps, auto simp: NSEC_PER_SEC_def normalised_def)

lemma nsec_of_inj:
  assumes "normalised a" "normalised b" "nsec_of a = nsec_of b"
  shows "a = b"
proof -
  have "tv_sec a = tv_sec b"
    using assms by (auto simp: nsec_of_def normalised_def)
  then show ?thesis using assms(3) by (simp add: nsec_of_def)
qed

lemma nanosecondsToTimespec_simps [simp]:
  "tv_sec (nanosecondsToTimespec d) = uint d div 1000000000"
  "tv_nsec (nanosecondsToTimespec d) = uint d mod 1000000000"
proof -
  have d: "0 \<le> uint d" "uint d < 2 ^ 64" using uint_lt2p [of d] by auto
  have "uint d div 1000000000 < 2 ^ 63" using d by auto
  moreover have "uint d mod 1000000000 < 2 ^ 63"
    by (rule less_trans [of _ 1000000000]) auto
  moreover have "0 \<le> uint d div 1000000000" and "0 \<le> uint d mod 1000000000"
    using d by (simp_all add: pos_imp_zdiv_nonneg_iff)
  ultimately show "tv_sec (nanosecondsToTimespec d) = uint d div 1000000000"
    and "tv_nsec (nanosecondsToTimespec d) = uint d mod 1000000000"
    by (simp_all add: nanosecondsToTimespec_def sint_uint uint_div uint_mod
        signed_take_bit_int_eq_self)
qed

lemma nanosecondsToTimespec_nsec_of: "nsec_of (nanosecondsToTimespec d) = uint d"
  by (simp add: nsec_of_def)

lemma nanosecondsToTimespec_normalised [simp]: "normalised (nanosecondsToTimespec d)"
  by (simp add: normalised_def)

section \<open>The fraction of a second\<close>

text \<open>
  \<^term>\<open>S\<close> is the number of units in a second (one million or one milliard). The product of the
  forward conversion is within \<^term>\<open>1 / 2 ^ 19 :: rat\<close> of the exact quotient, so the truncated
  fraction fits 32 bits, and the backward conversion loses at most one unit.
\<close>

lemma two_roundings:
  fixes a p y :: rat
  assumes "\<bar>a - y\<bar> \<le> y / 2 ^ 53" and "\<bar>p - a\<bar> \<le> a / 2 ^ 53" and "0 \<le> y" and "y \<le> 2 ^ 32"
  shows "\<bar>p - y\<bar> \<le> 1 / 2 ^ 19"
  using assms unfolding abs_le_iff by (simp add: field_simps)

lemma truncated_within:
  fixes f p y e :: rat
  assumes "\<bar>p - y\<bar> \<le> e" and "f \<le> p" and "p < f + 1"
  shows "y - 1 - e < f" and "f \<le> y + e"
  using assms unfolding abs_le_iff by linarith+

lemma back_within:
  fixes fs n s r :: rat
  assumes "\<bar>r - fs\<bar> \<le> fs / 2 ^ 53" and "fs \<le> n * 2 ^ 32 + s / 2 ^ 19"
    and "n * 2 ^ 32 - s - s / 2 ^ 19 \<le> fs" and "fs \<le> 2 ^ 32 * s" and "0 < s" and "s \<le> 1000000000"
  shows "n - 1 \<le> r / 2 ^ 32" and "r / 2 ^ 32 < n + 1"
  using assms unfolding abs_le_iff by (simp_all add: field_simps)

lemma frac_error:
  assumes n: "0 \<le> n" "n < S" and S: "S \<le> 1000000000"
  defines "y \<equiv> of_int n * 2 ^ 32 / of_int S :: rat"
  shows "\<bar>d_mul (d_of_int n) (d_div (2 ^ 32) (of_int S)) - y\<bar> \<le> 1 / 2 ^ 19"
proof -
  define q :: rat where "q = 2 ^ 32 / of_int S"
  define c where "c = d_div (2 ^ 32) (of_int S)"
  define p where "p = d_mul (of_int n) c"
  have S0: "(0::rat) < of_int S" using n by simp
  have y: "y = of_int n * q" by (simp add: y_def q_def)
  have nS: "(of_int n :: rat) \<le> of_int S" using n by simp
  have q0: "0 \<le> q" using S0 by (simp add: q_def)
  have y0: "0 \<le> y" using n q0 by (simp add: y)
  have y1: "y \<le> 2 ^ 32"
    using nS S0 by (simp add: y_def pos_divide_le_eq mult.commute)
  have "\<bar>c - q\<bar> \<le> q / 2 ^ 53"
    using rnd_error [of q] q0 unfolding c_def d_div_def q_def by simp
  then have "of_int n * \<bar>c - q\<bar> \<le> of_int n * (q / 2 ^ 53)"
    using n by (intro mult_left_mono) simp_all
  then have e1: "\<bar>of_int n * c - y\<bar> \<le> y / 2 ^ 53"
    using n by (simp add: y abs_mult flip: right_diff_distrib)
  have "c \<ge> 0" using rnd_nonneg [OF q0] by (simp add: c_def d_div_def q_def)
  then have nc: "0 \<le> of_int n * c" using n by simp
  have "\<bar>p - of_int n * c\<bar> \<le> of_int n * c / 2 ^ 53"
    using rnd_error [of "of_int n * c"] nc unfolding p_def d_mul_def by simp
  with e1 have "\<bar>p - y\<bar> \<le> 1 / 2 ^ 19" using y0 y1 by (rule two_roundings)
  moreover have "d_of_int n = of_int n" using n S by simp
  ultimately show ?thesis by (simp add: p_def c_def)
qed

lemma frac_bounds:
  assumes n: "0 \<le> n" "n < S" and S: "S \<le> 1000000000"
  defines "y \<equiv> of_int n * 2 ^ 32 / of_int S :: rat"
    and "f \<equiv> d_trunc (d_mul (d_of_int n) (d_div (2 ^ 32) (of_int S)))"
  shows "0 \<le> f" and "f < 2 ^ 32" and "y - 1 - 1 / 2 ^ 19 < of_int f" and "of_int f \<le> y + 1 / 2 ^ 19"
proof -
  let ?p = "d_mul (d_of_int n) (d_div (2 ^ 32) (of_int S))"
  have e: "\<bar>?p - y\<bar> \<le> 1 / 2 ^ 19" unfolding y_def by (rule frac_error [OF assms(1-3)])
  have S0: "(0::rat) < of_int S" using n by simp
  have "d_of_int n = of_int n" using n S by simp
  then have p0: "0 \<le> ?p"
    using n S0 by (auto simp: d_mul_def d_div_def intro!: rnd_nonneg mult_nonneg_nonneg)
  then have f: "f = \<lfloor>?p\<rfloor>" by (simp add: f_def d_trunc_def)
  show "0 \<le> f" using p0 by (simp add: f)
  have fp: "of_int f \<le> ?p" "?p < of_int f + 1" using floor_correct [of ?p] by (simp_all add: f)
  show "y - 1 - 1 / 2 ^ 19 < of_int f" and up: "of_int f \<le> y + 1 / 2 ^ 19"
    by (rule truncated_within [OF e fp])+
  have "(of_int n :: rat) \<le> of_int (S - 1)" using n by (simp only: of_int_le_iff)
  then have "(of_int n :: rat) \<le> of_int S - 1" by simp
  moreover have "(of_int S :: rat) \<le> 1000000000" using S by simp
  ultimately have "(of_int n :: rat) * 2 ^ 32 \<le> (2 ^ 32 - 4) * of_int S" by simp
  then have "y \<le> 2 ^ 32 - 4" using S0 by (simp add: y_def pos_divide_le_eq)
  with up have "(of_int f :: rat) < of_int (2 ^ 32)" by simp
  then show "f < 2 ^ 32" by (simp only: of_int_less_iff)
qed

lemma frac_back:
  assumes n: "0 \<le> n" "n < S" and S: "S \<le> 1000000000"
  defines "f \<equiv> d_trunc (d_mul (d_of_int n) (d_div (2 ^ 32) (of_int S)))"
  shows "d_trunc (d_div (d_mul (d_of_int f) (of_int S)) (2 ^ 32)) \<in> {n - 1, n}"
proof -
  define y :: rat where "y = of_int n * 2 ^ 32 / of_int S"
  note b = frac_bounds [OF n S, folded f_def y_def]
  define s :: rat where "s = of_int S"
  have s: "0 < s" "s \<le> 1000000000" using n S by (simp_all add: s_def)
  have ys: "y * s = of_int n * 2 ^ 32" using s by (simp add: y_def s_def)
  have f: "(of_int f :: rat) < 2 ^ 32" "(0::rat) \<le> of_int f" 
    using b(1,2) of_int_less_iff [of f "2 ^ 32", where 'a = rat] by simp_all
  define g where "g = rnd (of_int f * s) / 2 ^ 32"
  have d: "d_div (d_mul (d_of_int f) (of_int S)) (2 ^ 32) = g"
    using b(1,2) unfolding g_def s_def d_mul_def d_div_pow2 by simp
  have fs: "0 \<le> of_int f * s" using f s by simp
  have "\<bar>rnd (of_int f * s) - of_int f * s\<bar> \<le> of_int f * s / 2 ^ 53"
    using rnd_error [of "of_int f * s"] fs by simp
  moreover have "of_int f * s \<le> 2 ^ 32 * s" using f s by (intro mult_right_mono) simp_all
  moreover have "of_int f * s \<le> (y + 1 / 2 ^ 19) * s" and "(y - 1 - 1 / 2 ^ 19) * s \<le> of_int f * s"
    using b(3,4) s by (auto intro!: mult_right_mono)
  then have "of_int f * s \<le> of_int n * 2 ^ 32 + s / 2 ^ 19"
    and "of_int n * 2 ^ 32 - s - s / 2 ^ 19 \<le> of_int f * s"
    using ys by (simp_all add: algebra_simps)
  ultimately have "of_int n - 1 \<le> g" and "g < of_int n + 1"
    unfolding g_def using s by (blast intro: back_within)+
  moreover have "0 \<le> g" using rnd_nonneg [OF fs] by (simp add: g_def)
  ultimately have "n - 1 \<le> \<lfloor>g\<rfloor>" and "\<lfloor>g\<rfloor> \<le> n" and "d_trunc g = \<lfloor>g\<rfloor>"
    by (simp_all add: le_floor_iff d_trunc_def) linarith
  then show ?thesis unfolding d by auto
qed
lemma frac_to_unit_bounds:
  fixes f :: u32
  assumes S: "0 < S" "S \<le> 1000000000" "1000 \<le> S"
  defines "g \<equiv> d_trunc (d_div (d_mul (d_of_int (uint f)) (of_int S)) (2 ^ 32))"
  shows "0 \<le> g" and "g < S"
proof -
  define s :: rat where "s = of_int S"
  define fs where "fs = of_int (uint f) * s"
  have s: "0 < s" "s \<le> 1000000000" "1000 \<le> s"
    using S of_int_le_iff [of 1000 S, where 'a = rat] by (simp_all add: s_def)
  have u: "uint f \<le> 2 ^ 32 - 1" using uint_lt2p [of f] by simp
  have "(of_int (uint f) :: rat) \<le> of_int (2 ^ 32 - 1)" using u by (simp only: of_int_le_iff)
  then have "fs \<le> of_int (2 ^ 32 - 1) * s" unfolding fs_def using s by (intro mult_right_mono) simp_all
  moreover have fs0: "0 \<le> fs"
    unfolding fs_def using s by (intro mult_nonneg_nonneg) (simp_all only: of_int_0_le_iff uint_ge_0)
  moreover have "\<bar>rnd fs - fs\<bar> \<le> fs / 2 ^ 53" using rnd_error [of fs] fs0 by simp
  ultimately have "rnd fs < s * 2 ^ 32" unfolding abs_le_iff using s by simp
  then have hi: "rnd fs / 2 ^ 32 < of_int S" by (simp add: pos_divide_less_eq s_def)
  have lo: "0 \<le> rnd fs / 2 ^ 32" using rnd_nonneg [OF fs0] by simp
  have g: "g = \<lfloor>rnd fs / 2 ^ 32\<rfloor>"
    using lo u unfolding g_def d_mul_def d_div_pow2 d_trunc_def by (simp add: fs_def s_def)
  show "0 \<le> g" and "g < S" using lo hi unfolding g by (simp_all add: floor_less_iff)
qed

lemma timestamp_to_timespec_normalised [simp]: "normalised (timestamp_to_timespec ts)"
  using frac_to_unit_bounds [of 1000000000 "fractional ts"]
  by (simp add: normalised_def timestamp_to_timespec_def)

lemma timestamp_to_timespec_sec:
  "0 \<le> tv_sec (timestamp_to_timespec ts)" "tv_sec (timestamp_to_timespec ts) < 2 ^ 32"
  using uint_lt2p [of "integer ts - NTP_EPOCH_OFFSET"] by (simp_all add: timestamp_to_timespec_def)

lemma timestamp_to_timespec_clock_ok [simp]: "clock_ok (timestamp_to_timespec ts)"
  using timestamp_to_timespec_sec [of ts] by (simp add: clock_ok_def)

lemma uint_timestamp_to_nsec: "uint (timestamp_to_nsec ts) = nsec_of (timestamp_to_timespec ts)"
proof -
  define t where "t = timestamp_to_timespec ts"
  have "0 \<le> nsec_of t" and "nsec_of t < 2 ^ 64"
    using timestamp_to_timespec_clock_ok [of ts, folded t_def]
    by (auto simp: clock_ok_def normalised_def nsec_of_def)
  moreover have "timestamp_to_nsec ts = word_of_int (nsec_of t)"
    by (simp add: timestamp_to_nsec_def nsec_of_def Let_def t_def)
  ultimately show ?thesis by (simp add: t_def uint_word_of_int)
qed

lemma uint_word_of_int_u32:
  assumes "0 \<le> n" "n < 2 ^ 32" shows "uint (word_of_int n :: u32) = n"
  using assms by (simp add: uint_word_of_int)

lemma ntp_seconds:
  assumes "0 \<le> s" "s < 2 ^ 32"
  shows "uint ((word_of_int s + NTP_EPOCH_OFFSET :: u32) - NTP_EPOCH_OFFSET) = s"
  using assms by (simp add: uint_word_of_int)

lemma timespec_roundtrip:
  assumes "clock_ok t"
  shows "tv_sec (timestamp_to_timespec (timespec_to_timestamp t)) = tv_sec t"
    and "tv_nsec (timestamp_to_timespec (timespec_to_timestamp t)) \<in> {tv_nsec t - 1, tv_nsec t}"
proof -
  have n: "0 \<le> tv_nsec t" "tv_nsec t < 1000000000" and s: "0 \<le> tv_sec t" "tv_sec t < 2 ^ 32"
    using assms by (auto simp: clock_ok_def normalised_def)
  show "tv_sec (timestamp_to_timespec (timespec_to_timestamp t)) = tv_sec t"
    using ntp_seconds [OF s] by (simp add: timestamp_to_timespec_def timespec_to_timestamp_def)
  have S: "(1000000000::int) \<le> 1000000000" by simp
  let ?f = "d_trunc (d_mul (d_of_int (tv_nsec t)) (d_div (2 ^ 32) (of_int 1000000000)))"
  have "uint (word_of_int ?f :: u32) = ?f"
    using frac_bounds(1,2) [OF n S] by (rule uint_word_of_int_u32)
  with frac_back [OF n S]
  show "tv_nsec (timestamp_to_timespec (timespec_to_timestamp t)) \<in> {tv_nsec t - 1, tv_nsec t}"
    by (simp add: timestamp_to_timespec_def timespec_to_timestamp_def frac_per_nsec_def)
qed

lemma clock_nsec:
  assumes "clock_ok t"
  shows "uint (timestamp_to_nsec (timespec_to_timestamp t)) \<in> {nsec_of t - 1, nsec_of t}"
  using timespec_roundtrip [OF assms] by (auto simp: uint_timestamp_to_nsec nsec_of_def)

lemma timeval_roundtrip:
  assumes "0 \<le> tval_usec tv" "tval_usec tv < 1000000" "0 \<le> tval_sec tv" "tval_sec tv < 2 ^ 32"
  shows "tval_sec (timestamp_to_timeval (timeval_to_timestamp tv)) = tval_sec tv"
    and "tval_usec (timestamp_to_timeval (timeval_to_timestamp tv)) \<in> {tval_usec tv - 1, tval_usec tv}"
proof -
  show "tval_sec (timestamp_to_timeval (timeval_to_timestamp tv)) = tval_sec tv"
    using ntp_seconds [OF assms(3,4)] by (simp add: timestamp_to_timeval_def timeval_to_timestamp_def)
  have S: "(1000000::int) \<le> 1000000000" by simp
  let ?f = "d_trunc (d_mul (d_of_int (tval_usec tv)) (d_div (2 ^ 32) (of_int 1000000)))"
  have "uint (word_of_int ?f :: u32) = ?f"
    using frac_bounds(1,2) [OF assms(1,2) S] by (rule uint_word_of_int_u32)
  with frac_back [OF assms(1,2) S]
  show "tval_usec (timestamp_to_timeval (timeval_to_timestamp tv)) \<in> {tval_usec tv - 1, tval_usec tv}"
    by (simp add: timestamp_to_timeval_def timeval_to_timestamp_def frac_per_usec_def)
qed

lemma frac_forward_mono:
  assumes "0 \<le> m" "m \<le> n" "n < S" "S \<le> 1000000000"
  shows "d_trunc (d_mul (d_of_int m) (d_div (2 ^ 32) (of_int S)))
       \<le> d_trunc (d_mul (d_of_int n) (d_div (2 ^ 32) (of_int S)))"
proof -
  have c: "0 \<le> d_div (2 ^ 32) (of_int S)" unfolding d_div_def using assms by (intro rnd_nonneg) simp
  have mn: "d_of_int m = of_int m" "d_of_int n = of_int n" using assms by simp_all
  have "of_int m * d_div (2 ^ 32) (of_int S) \<le> of_int n * d_div (2 ^ 32) (of_int S)"
    using assms c by (intro mult_right_mono) simp_all
  then show ?thesis
    unfolding mn d_mul_def using assms c by (intro d_trunc_mono rnd_mono) simp_all
qed

lemma frac_back_mono:
  fixes f g :: u32
  assumes "f \<le> g" and "0 < S"
  shows "d_trunc (d_div (d_mul (d_of_int (uint f)) (of_int S)) (2 ^ 32))
       \<le> d_trunc (d_div (d_mul (d_of_int (uint g)) (of_int S)) (2 ^ 32))"
proof -
  have fg: "uint f \<le> uint g" using assms(1) by (simp add: word_le_def)
  have "uint f < 2 ^ 53" "uint g < 2 ^ 53" using uint_lt2p [of f] uint_lt2p [of g] by simp_all
  then have i: "d_of_int (uint f) = of_int (uint f)" "d_of_int (uint g) = of_int (uint g)"
    by (simp_all del: of_int_uint)
  have s: "(0::rat) \<le> of_int S" using assms by simp
  have "(of_int (uint f) :: rat) * of_int S \<le> of_int (uint g) * of_int S"
    using fg s by (intro mult_right_mono) (simp_all only: of_int_le_iff)
  moreover have "0 \<le> (of_int (uint f) :: rat) * of_int S"
    using s by (intro mult_nonneg_nonneg) (simp_all only: of_int_0_le_iff uint_ge_0)
  ultimately have "rnd (of_int (uint f) * of_int S) \<le> rnd (of_int (uint g) * of_int S)"
    by (rule rnd_mono [rotated])
  then show ?thesis unfolding i d_mul_def d_div_pow2 by (intro d_trunc_mono divide_right_mono) simp_all
qed

lemma clock_nsec_mono:
  assumes a: "clock_ok a" and b: "clock_ok b" and le: "nsec_of a \<le> nsec_of b"
  shows "timestamp_to_nsec (timespec_to_timestamp a) \<le> timestamp_to_nsec (timespec_to_timestamp b)"
proof (cases "tv_sec a = tv_sec b")
  case True
  have n: "0 \<le> tv_nsec a" "tv_nsec a \<le> tv_nsec b" "tv_nsec b < 1000000000"
    using a b le True by (auto simp: clock_ok_def normalised_def nsec_of_def)
  have S: "(1000000000::int) \<le> 1000000000" by simp
  have "fractional (timespec_to_timestamp a) \<le> fractional (timespec_to_timestamp b)"
    using frac_forward_mono [OF n S] frac_bounds(1,2) [OF _ _ S, of "tv_nsec a"]
      frac_bounds(1,2) [OF _ _ S, of "tv_nsec b"] n
    by (simp add: timespec_to_timestamp_def word_le_def uint_word_of_int_u32 frac_per_nsec_def)
  from frac_back_mono [OF this, of 1000000000]
  have "tv_nsec (timestamp_to_timespec (timespec_to_timestamp a))
      \<le> tv_nsec (timestamp_to_timespec (timespec_to_timestamp b))"
    by (simp add: timestamp_to_timespec_def)
  then show ?thesis
    using timespec_roundtrip(1) [OF a] timespec_roundtrip(1) [OF b] True
    by (simp add: word_le_def uint_timestamp_to_nsec nsec_of_def)
next
  case False
  with a b le have "tv_sec a + 1 \<le> tv_sec b"
    by (auto simp: clock_ok_def normalised_def nsec_of_def)
  then show ?thesis
    using timespec_roundtrip(1) [OF a] timespec_roundtrip(1) [OF b]
      timestamp_to_timespec_normalised [of "timespec_to_timestamp a"]
      timestamp_to_timespec_normalised [of "timespec_to_timestamp b"]
    by (simp add: word_le_def uint_timestamp_to_nsec nsec_of_def normalised_def)
qed

lemma safe_tspecplus_nsec_of [simp]: "nsec_of (safe_tspecplus a b) = nsec_of a + nsec_of b"
  by (simp add: safe_tspecplus_def carry_seconds_nsec_of) (simp add: nsec_of_def algebra_simps)

lemma safe_tspecplus_normalised [simp]:
  "normalised a \<Longrightarrow> normalised b \<Longrightarrow> normalised (safe_tspecplus a b)"
  unfolding safe_tspecplus_def by (rule carry_seconds_normalised) (simp add: normalised_def)
lemma clock_nsec_whole:
  assumes "0 \<le> s" and "s < 2 ^ 32"
  shows "timestamp_to_nsec (timespec_to_timestamp \<lparr>tv_sec = s, tv_nsec = 0\<rparr>) = word_of_int (s * 1000000000)"
proof -
  let ?t = "\<lparr>tv_sec = s, tv_nsec = 0\<rparr>"
  have ok: "clock_ok ?t" using assms by (simp add: clock_ok_def normalised_def)
  have "tv_nsec (timestamp_to_timespec (timespec_to_timestamp ?t)) = 0"
    using timespec_roundtrip(2) [OF ok] timestamp_to_timespec_normalised [of "timespec_to_timestamp ?t"]
    by (auto simp: normalised_def)
  then have "uint (timestamp_to_nsec (timespec_to_timestamp ?t)) = s * 1000000000"
    using timespec_roundtrip(1) [OF ok] by (simp add: uint_timestamp_to_nsec nsec_of_def)
  then show ?thesis by (metis word_of_int_uint)
qed

section \<open>Properties\<close>

text \<open>
  C16: A clock reading that is converted to an NTP timestamp, put into network byte order, read back
  into host order and converted to nanoseconds or to a \<^verbatim>\<open>timespec\<close> keeps its seconds exactly, through
  the 2036 wrap of the NTP era, and loses at most one nanosecond; the result is always a normalised
  time, and the nanosecond count and the \<^verbatim>\<open>timespec\<close> agree.
\<close>

theorem timestamp_wire_roundtrip:
  assumes "clock_ok t" and "ts = ntohts (htonts (timespec_to_timestamp t))"
  shows "tv_sec (timestamp_to_timespec ts) = tv_sec t
     \<and> tv_nsec (timestamp_to_timespec ts) \<in> {tv_nsec t - 1, tv_nsec t}
     \<and> normalised (timestamp_to_timespec ts)
     \<and> uint (timestamp_to_nsec ts) = nsec_of (timestamp_to_timespec ts)"
  using timespec_roundtrip [OF assms(1)] by (simp add: assms(2) uint_timestamp_to_nsec)

theorem timestamp_wire_roundtrip_witness:
  "tv_sec (timestamp_to_timespec (ntohts (htonts (timespec_to_timestamp \<lparr>tv_sec = 2085978496, tv_nsec = 999999999\<rparr>)))) = 2085978496"
  using timestamp_wire_roundtrip [of "\<lparr>tv_sec = 2085978496, tv_nsec = 999999999\<rparr>", OF _ refl]
  by (simp add: clock_ok_def normalised_def)

text \<open>
  Conversion to timestamps keeps the order of clock readings, so that the unsigned difference of
  two nanosecond counts of ordered readings is their distance to within one nanosecond and never
  wraps around.
\<close>

theorem timestamp_differences:
  assumes "clock_ok a" and "clock_ok b" and "nsec_of a \<le> nsec_of b"
  shows "\<bar>uint (timestamp_to_nsec (timespec_to_timestamp b) - timestamp_to_nsec (timespec_to_timestamp a))
           - (nsec_of b - nsec_of a)\<bar> \<le> 1"
proof -
  have "uint (timestamp_to_nsec (timespec_to_timestamp b) - timestamp_to_nsec (timespec_to_timestamp a)) =
      uint (timestamp_to_nsec (timespec_to_timestamp b)) - uint (timestamp_to_nsec (timespec_to_timestamp a))"
    using clock_nsec_mono [OF assms] by (simp add: uint_sub_lem word_le_def)
  then show ?thesis
    using clock_nsec [OF assms(1)] clock_nsec [OF assms(2)] by auto
qed

theorem timestamp_differences_witness:
  "\<bar>uint (timestamp_to_nsec (timespec_to_timestamp \<lparr>tv_sec = 2085978496, tv_nsec = 5\<rparr>)
       - timestamp_to_nsec (timespec_to_timestamp \<lparr>tv_sec = 2085978495, tv_nsec = 999999999\<rparr>)) - 6\<bar> \<le> 1"
  using timestamp_differences [of "\<lparr>tv_sec = 2085978495, tv_nsec = 999999999\<rparr>" "\<lparr>tv_sec = 2085978496, tv_nsec = 5\<rparr>"]
  by (simp add: clock_ok_def normalised_def nsec_of_def)

text \<open>
  Adding an interval in nanoseconds to a time, as the sender does for its deadlines, gives the
  exact sum as the only normalised time of that value: the carry loop ends, and it carries as often
  as needed.
\<close>

theorem deadline_exact:
  assumes "normalised t"
  shows "normalised (safe_tspecplus t (nanosecondsToTimespec d))
     \<and> nsec_of (safe_tspecplus t (nanosecondsToTimespec d)) = nsec_of t + uint d
     \<and> (\<forall>u. normalised u \<and> nsec_of u = nsec_of t + uint d \<longleftrightarrow> u = safe_tspecplus t (nanosecondsToTimespec d))"
  using assms nsec_of_inj [of _ "safe_tspecplus t (nanosecondsToTimespec d)"]
  by (auto simp: nanosecondsToTimespec_nsec_of)

theorem deadline_exact_witness:
  "nsec_of (safe_tspecplus \<lparr>tv_sec = 7, tv_nsec = 999999999\<rparr> (nanosecondsToTimespec 2999999999)) = 10999999998"
  using deadline_exact [of "\<lparr>tv_sec = 7, tv_nsec = 999999999\<rparr>" 2999999999]
  by (simp add: normalised_def nsec_of_def)

text \<open>
  The microsecond conversions are inverse up to one microsecond, with the seconds exact, and the
  pointer versions write nothing when the source or the destination is null.
\<close>

theorem timeval_wire_roundtrip:
  assumes "0 \<le> tval_usec tv" and "tval_usec tv < 1000000" and "0 \<le> tval_sec tv" and "tval_sec tv < 2 ^ 32"
  shows "\<exists>ts tv'. timeval_to_timestamp_ptr (Some tv) (Some ts0) = Some ts
     \<and> timestamp_to_timeval_ptr (Some ts) (Some tv0) = Some tv'
     \<and> tval_sec tv' = tval_sec tv \<and> tval_usec tv' \<in> {tval_usec tv - 1, tval_usec tv}
     \<and> timeval_to_timestamp_ptr None dst = dst \<and> timeval_to_timestamp_ptr src None = None
     \<and> timestamp_to_timeval_ptr None dst' = dst' \<and> timestamp_to_timeval_ptr src' None = None"
  using timeval_roundtrip [OF assms]
  by (simp add: timeval_to_timestamp_ptr_def timestamp_to_timeval_ptr_def through_ptrs_def split: option.splits)

theorem timeval_wire_roundtrip_witness:
  "\<exists>ts tv'. timeval_to_timestamp_ptr (Some \<lparr>tval_sec = 4294967295, tval_usec = 999999\<rparr>) (Some \<lparr>integer = 0, fractional = 0\<rparr>) = Some ts
     \<and> timestamp_to_timeval_ptr (Some ts) (Some \<lparr>tval_sec = 0, tval_usec = 0\<rparr>) = Some tv'
     \<and> tval_sec tv' = 4294967295"
  using timeval_wire_roundtrip [of "\<lparr>tval_sec = 4294967295, tval_usec = 999999\<rparr>"
      "\<lparr>integer = 0, fractional = 0\<rparr>" "\<lparr>tval_sec = 0, tval_usec = 0\<rparr>" None None None None] by auto

text \<open>The timespec that \<^verbatim>\<open>timestamp_to_nsec\<close> reads is the one written through its pointer.\<close>

lemma timestamp_to_timespec_ptr_simps:
  "timestamp_to_timespec_ptr (Some ts) (Some tv) = Some (timestamp_to_timespec ts)"
  "timestamp_to_timespec_ptr None dst = dst" "timestamp_to_timespec_ptr src None = None"
  by (simp_all add: timestamp_to_timespec_ptr_def through_ptrs_def split: option.split)

end
