(* ===== verification/Sockets.thy ===== *)
theory Sockets
  imports Timestamps
begin

text \<open>
  The socket helpers of \<^verbatim>\<open>src/utils.cpp\<close>: control messages (\<^verbatim>\<open>get_ip_header\<close>,
  \<^verbatim>\<open>get_kernel_timestamp\<close>), message headers (\<^verbatim>\<open>make_msghdr\<close>), source addresses (\<^verbatim>\<open>parse_ip_address\<close>)
  and socket options (\<^verbatim>\<open>set_socket_options\<close>, \<^verbatim>\<open>set_socket_tos\<close>), and what \<^verbatim>\<open>recvmsg\<close> leaves in the
  caller's buffers. The kernel is the environment: whether \<^verbatim>\<open>setsockopt\<close> succeeds, which datagrams
  arrive and what \<^verbatim>\<open>inet_ntop\<close> prints are parameters.
\<close>

section \<open>Control messages\<close>

record cmsg =
  cmsg_level :: int
  cmsg_type :: int
  cmsg_data :: "u8 list"

definition IPPROTO_IP :: int where "IPPROTO_IP = 0"
definition IPPROTO_IPV6 :: int where "IPPROTO_IPV6 = 41"
definition SOL_SOCKET :: int where "SOL_SOCKET = 1"
definition IP_TOS :: int where "IP_TOS = 1"
definition IP_TTL :: int where "IP_TTL = 2"
definition IPV6_HOPLIMIT :: int where "IPV6_HOPLIMIT = 52"
definition SO_TIMESTAMP :: int where "SO_TIMESTAMP = 29"
definition SO_TIMESTAMPNS :: int where "SO_TIMESTAMPNS = 35"
definition SO_TIMESTAMPING :: int where "SO_TIMESTAMPING = 37"

lemmas sock_consts = IPPROTO_IP_def IPPROTO_IPV6_def SOL_SOCKET_def IP_TOS_def IP_TTL_def
  IPV6_HOPLIMIT_def SO_TIMESTAMP_def SO_TIMESTAMPNS_def SO_TIMESTAMPING_def

text \<open>\<^term>\<open>n\<close> bytes at \<^verbatim>\<open>CMSG_DATA\<close>; the control buffer is zero after the data of the message.\<close>

definition cmsg_bytes :: "nat \<Rightarrow> cmsg \<Rightarrow> u8 list" where
  "cmsg_bytes n c = take n (cmsg_data c @ replicate n 0)"

definition cmsg_byte :: "cmsg \<Rightarrow> u8" where
  "cmsg_byte c = hd (cmsg_bytes 1 c)"

record ip_header =
  ttl :: u8
  tos :: u8

definition DEFAULT_TTL :: u8 where "DEFAULT_TTL = 255"

definition unexpected_cmsg :: "cmsg \<Rightarrow> string" where
  "unexpected_cmsg c =
     CHR 0x09 # ''Warning, unexpected data of level '' @ dec_int (cmsg_level c) @ '' and type '' @
     dec_int (cmsg_type c)"

text \<open>One control message: the header read so far and the lines written to \<^verbatim>\<open>stderr\<close>.\<close>

definition ip_header_step :: "ip_header \<times> string list \<Rightarrow> cmsg \<Rightarrow> ip_header \<times> string list" where
  "ip_header_step acc c =
     (case acc of (h, err) \<Rightarrow>
        if cmsg_level c = IPPROTO_IP then
          (if cmsg_type c = IP_TTL then (h\<lparr>ttl := cmsg_byte c\<rparr>, err)
           else if cmsg_type c = IP_TOS then (h\<lparr>tos := cmsg_byte c\<rparr>, err)
           else (h, err @ [unexpected_cmsg c]))
        else if cmsg_level c = IPPROTO_IPV6 then
          (if cmsg_type c = IPV6_HOPLIMIT then (h\<lparr>ttl := cmsg_byte c\<rparr>, err)
           else (h, err @ [unexpected_cmsg c]))
        else (h, err))"

definition get_ip_header :: "cmsg list \<Rightarrow> ip_header \<times> string list" where
  "get_ip_header control = foldl ip_header_step (\<lparr>ttl = DEFAULT_TTL, tos = 0\<rparr>, []) control"

definition timespec_of_bytes :: "u8 list \<Rightarrow> timespec" where
  "timespec_of_bytes bs =
     \<lparr>tv_sec = sint (from_le (take 8 bs) :: u64), tv_nsec = sint (from_le (take 8 (drop 8 bs)) :: u64)\<rparr>"

definition kernel_timestamp_step :: "timespec \<Rightarrow> cmsg \<Rightarrow> timespec" where
  "kernel_timestamp_step t c =
     (if cmsg_level c \<noteq> SOL_SOCKET then t
      else if cmsg_type c = SO_TIMESTAMPNS \<or> cmsg_type c = SO_TIMESTAMPING then
        timespec_of_bytes (cmsg_bytes 16 c)
      else if cmsg_type c = SO_TIMESTAMP then
        let tv = timespec_of_bytes (cmsg_bytes 16 c)
        in \<lparr>tv_sec = tv_sec tv, tv_nsec = tv_nsec tv * NANOSECONDS_IN_MICROSECOND\<rparr>
      else t)"

definition get_kernel_timestamp :: "cmsg list \<Rightarrow> timespec \<Rightarrow> timespec" where
  "get_kernel_timestamp control incoming_timestamp = foldl kernel_timestamp_step incoming_timestamp control"

section \<open>Messages\<close>

text \<open>
  \<^verbatim>\<open>msg_name\<close> is the storage of a \<^verbatim>\<open>sockaddr_in6\<close> (28 bytes), \<^verbatim>\<open>msg_iov\<close> the buffers with their
  lengths, \<^verbatim>\<open>msg_control\<close> the control messages that \<^verbatim>\<open>CMSG_FIRSTHDR\<close> and \<^verbatim>\<open>CMSG_NXTHDR\<close> enumerate.
\<close>

record msghdr =
  msg_name :: "u8 list"
  msg_namelen :: nat
  msg_iov :: "(u8 list \<times> nat) list"
  msg_iovlen :: nat
  msg_control :: "cmsg list"
  msg_controllen :: nat
  msg_trunc :: bool

definition make_msghdr ::
  "(u8 list \<times> nat) list \<Rightarrow> nat \<Rightarrow> u8 list \<Rightarrow> nat \<Rightarrow> cmsg list \<Rightarrow> nat \<Rightarrow> msghdr" where
  "make_msghdr iov iov_len addr addr_len control control_len =
     \<lparr>msg_name = addr, msg_namelen = addr_len, msg_iov = iov, msg_iovlen = iov_len,
      msg_control = control, msg_controllen = control_len, msg_trunc = False\<rparr>"

text \<open>A zeroed control buffer: one header of length, level and type 0, after which
  \<^verbatim>\<open>CMSG_NXTHDR\<close> stops.\<close>

definition zero_control :: "cmsg list" where
  "zero_control = [\<lparr>cmsg_level = 0, cmsg_type = 0, cmsg_data = []\<rparr>]"

text \<open>A datagram as the kernel hands it over, and the outcome of \<^verbatim>\<open>recvmsg\<close>.\<close>

record incoming =
  in_payload :: "u8 list"
  in_name :: "u8 list"
  in_control :: "cmsg list"

datatype recv_result = Recv_error int | Recv_msg incoming

text \<open>
  \<^verbatim>\<open>recvmsg\<close> with one buffer copies what fits, sets \<^verbatim>\<open>MSG_TRUNC\<close> when the datagram was longer, and
  returns the number of bytes copied; on an error it returns -1 and leaves the header alone.
\<close>

fun recvmsg :: "msghdr \<Rightarrow> recv_result \<Rightarrow> msghdr \<times> int" where
  "recvmsg m (Recv_error e) = (m, -1)"
| "recvmsg m (Recv_msg d) =
     (case msg_iov m of
        [(buf, n)] \<Rightarrow>
          (m\<lparr>msg_iov := [(take n (in_payload d) @ drop (min n (length (in_payload d))) buf, n)],
             msg_name := in_name d, msg_control := in_control d,
             msg_trunc := n < length (in_payload d)\<rparr>,
           int (min n (length (in_payload d))))
      | _ \<Rightarrow> (m, -1))"

text \<open>The bytes \<^verbatim>\<open>sendmsg\<close> takes from an object: a length beyond the object reads outside it.\<close>

definition iov_bytes :: "u8 list \<Rightarrow> nat \<Rightarrow> u8 list option" where
  "iov_bytes obj n = (if n \<le> length obj then Some (take n obj) else None)"

section \<open>Source addresses\<close>

text \<open>
  \<^verbatim>\<open>sin_port\<close> and \<^verbatim>\<open>sin6_port\<close> are at offset 2, \<^verbatim>\<open>sin_addr\<close> at 4, \<^verbatim>\<open>sin6_addr\<close> at 8. A null result of
  \<^verbatim>\<open>inet_ntop\<close> leaves the host buffer, any other IP version leaves both outputs.
\<close>

definition parse_ip_address ::
  "(u8 \<Rightarrow> u8 list \<Rightarrow> string option) \<Rightarrow> u8 list \<Rightarrow> u16 \<Rightarrow> string \<Rightarrow> u8 \<Rightarrow> u16 \<times> string" where
  "parse_ip_address inet_ntop name port host ip_version =
     (if ip_version = 4 then
        (ntohs (from_le (take 2 (drop 2 name))),
         case inet_ntop 4 (take 4 (drop 4 name)) of None \<Rightarrow> host | Some h \<Rightarrow> h)
      else if ip_version = 6 then
        (ntohs (from_le (take 2 (drop 2 name))),
         case inet_ntop 6 (take 16 (drop 8 name)) of None \<Rightarrow> host | Some h \<Rightarrow> h)
      else (port, host))"

section \<open>Socket options\<close>

datatype sockopt =
    Timestampns int | Rcvtimeo timeval | Ttl u8 | Recvttl u8 | Tos u8 | Recvtos u8

record socket =
  so_timestampns :: bool
  so_rcvtimeo :: "timeval option"
  so_ttl :: u8
  so_recvttl :: bool
  so_tos :: u8
  so_recvtos :: bool

fun apply_sockopt :: "sockopt \<Rightarrow> socket \<Rightarrow> socket" where
  "apply_sockopt (Timestampns v) s = s\<lparr>so_timestampns := v \<noteq> 0\<rparr>"
| "apply_sockopt (Rcvtimeo t) s = s\<lparr>so_rcvtimeo := Some t\<rparr>"
| "apply_sockopt (Ttl v) s = s\<lparr>so_ttl := v\<rparr>"
| "apply_sockopt (Recvttl v) s = s\<lparr>so_recvttl := v \<noteq> 0\<rparr>"
| "apply_sockopt (Tos v) s = s\<lparr>so_tos := v\<rparr>"
| "apply_sockopt (Recvtos v) s = s\<lparr>so_recvtos := v \<noteq> 0\<rparr>"

text \<open>One \<^verbatim>\<open>setsockopt\<close> call of the program: on failure it prints the message and goes on.\<close>

definition setsockopt ::
  "(sockopt \<Rightarrow> bool) \<Rightarrow> sockopt \<Rightarrow> string \<Rightarrow> socket \<times> string list \<Rightarrow> socket \<times> string list" where
  "setsockopt ok opt msg acc =
     (case acc of (s, err) \<Rightarrow> if ok opt then (apply_sockopt opt s, err) else (s, err @ [msg]))"

definition set_socket_options ::
  "(sockopt \<Rightarrow> bool) \<Rightarrow> u8 \<Rightarrow> u8 \<Rightarrow> socket \<Rightarrow> socket \<times> string list" where
  "set_socket_options ok ip_ttl timeout_secs s =
     (let timeout = \<lparr>tval_sec = uint timeout_secs, tval_usec = 0\<rparr>;
          a1 = setsockopt ok (Timestampns 1) ''ERROR: setsockopt SO_TIMESTAMPNS'' (s, []);
          a2 = (if timeout_secs \<noteq> 0
                then setsockopt ok (Rcvtimeo timeout)
                       ''[PROBLEM] Cannot set the timeout value for reception.'' a1
                else a1);
          a3 = setsockopt ok (Ttl ip_ttl) ''[PROBLEM] Cannot set the TTL value for emission.'' a2;
          a4 = setsockopt ok (Recvttl 1)
                 ''[PROBLEM] Cannot set the socket option for TTL reception.'' a3;
          a5 = setsockopt ok (Tos 1) ''[PROBLEM] Cannot set the socket option for TOS.'' a4
      in setsockopt ok (Recvtos 1) ''[PROBLEM] Cannot set the socket option for TOS reception.'' a5)"

definition set_socket_tos :: "(sockopt \<Rightarrow> bool) \<Rightarrow> u8 \<Rightarrow> socket \<Rightarrow> socket \<times> string list" where
  "set_socket_tos ok ip_tos s =
     setsockopt ok (Tos ip_tos) ''[PROBLEM] Cannot set the TOS value for emission.'' (s, [])"

section \<open>What the control messages say\<close>

definition is_ttl_cmsg :: "cmsg \<Rightarrow> bool" where
  "is_ttl_cmsg c \<longleftrightarrow>
     cmsg_level c = IPPROTO_IP \<and> cmsg_type c = IP_TTL \<or>
     cmsg_level c = IPPROTO_IPV6 \<and> cmsg_type c = IPV6_HOPLIMIT"

definition is_tos_cmsg :: "cmsg \<Rightarrow> bool" where
  "is_tos_cmsg c \<longleftrightarrow> cmsg_level c = IPPROTO_IP \<and> cmsg_type c = IP_TOS"

definition is_unexpected_cmsg :: "cmsg \<Rightarrow> bool" where
  "is_unexpected_cmsg c \<longleftrightarrow>
     cmsg_level c \<in> {IPPROTO_IP, IPPROTO_IPV6} \<and> \<not> is_ttl_cmsg c \<and> \<not> is_tos_cmsg c"

definition is_timestamp_cmsg :: "cmsg \<Rightarrow> bool" where
  "is_timestamp_cmsg c \<longleftrightarrow>
     cmsg_level c = SOL_SOCKET \<and> cmsg_type c \<in> {SO_TIMESTAMPNS, SO_TIMESTAMPING, SO_TIMESTAMP}"

text \<open>The time a timestamp message carries, in nanoseconds or in microseconds.\<close>

definition cmsg_time :: "cmsg \<Rightarrow> timespec" where
  "cmsg_time c =
     (let t = timespec_of_bytes (cmsg_bytes 16 c)
      in if cmsg_type c = SO_TIMESTAMP then t\<lparr>tv_nsec := tv_nsec t * 1000\<rparr> else t)"

lemmas cmsg_kind_defs =
  is_ttl_cmsg_def is_tos_cmsg_def is_unexpected_cmsg_def is_timestamp_cmsg_def cmsg_time_def

lemma get_ip_header_eq:
  "get_ip_header cs =
     (\<lparr>ttl = last (DEFAULT_TTL # map cmsg_byte (filter is_ttl_cmsg cs)),
       tos = last (0 # map cmsg_byte (filter is_tos_cmsg cs))\<rparr>,
      map unexpected_cmsg (filter is_unexpected_cmsg cs))"
proof (induction cs rule: rev_induct)
  case Nil
  then show ?case by (simp add: get_ip_header_def)
next
  case (snoc c cs)
  have "get_ip_header (cs @ [c]) = ip_header_step (get_ip_header cs) c"
    by (simp add: get_ip_header_def)
  then show ?case
    unfolding snoc.IH last_of_kind_snoc
    by (simp add: ip_header_step_def cmsg_kind_defs [of c] sock_consts del: last.simps)
qed

lemma get_kernel_timestamp_eq:
  "get_kernel_timestamp cs t = last (t # map cmsg_time (filter is_timestamp_cmsg cs))"
proof (induction cs rule: rev_induct)
  case Nil
  then show ?case by (simp add: get_kernel_timestamp_def)
next
  case (snoc c cs)
  have "get_kernel_timestamp (cs @ [c]) t = kernel_timestamp_step (get_kernel_timestamp cs t) c"
    by (simp add: get_kernel_timestamp_def)
  then show ?case
    unfolding snoc.IH last_of_kind_snoc
    by (simp add: kernel_timestamp_step_def cmsg_kind_defs [of c] sock_consts
        NANOSECONDS_IN_MICROSECOND_def Let_def del: last.simps)
qed

lemma get_kernel_timestamp_zero_control [simp]: "get_kernel_timestamp zero_control t = t"
  by (simp add: get_kernel_timestamp_eq zero_control_def is_timestamp_cmsg_def sock_consts)

text \<open>
  C26: The reflector and the client take the TTL (hop limit), the TOS and the receive time of a
  datagram from its control messages, each from the last message of its kind; without one the TTL
  is 255, as RFC 5357 wants for an implementation that cannot read it, the TOS is 0 and the receive
  time is left as it was. Messages of any other type at the IP levels are reported, one line each,
  and change nothing.
\<close>

theorem control_messages_read:
  "get_ip_header cs =
     (\<lparr>ttl = last (255 # map cmsg_byte (filter is_ttl_cmsg cs)),
       tos = last (0 # map cmsg_byte (filter is_tos_cmsg cs))\<rparr>,
      map unexpected_cmsg (filter is_unexpected_cmsg cs))
   \<and> get_kernel_timestamp cs t = last (t # map cmsg_time (filter is_timestamp_cmsg cs))"
  by (simp only: get_ip_header_eq get_kernel_timestamp_eq DEFAULT_TTL_def simp_thms)

lemma setsockopt_eqs:
  "setsockopt ok (Timestampns v) m (s, e) =
     (s\<lparr>so_timestampns := if ok (Timestampns v) then v \<noteq> 0 else so_timestampns s\<rparr>,
      e @ (if ok (Timestampns v) then [] else [m]))"
  "setsockopt ok (Rcvtimeo t) m (s, e) =
     (s\<lparr>so_rcvtimeo := if ok (Rcvtimeo t) then Some t else so_rcvtimeo s\<rparr>,
      e @ (if ok (Rcvtimeo t) then [] else [m]))"
  "setsockopt ok (Ttl b) m (s, e) =
     (s\<lparr>so_ttl := if ok (Ttl b) then b else so_ttl s\<rparr>, e @ (if ok (Ttl b) then [] else [m]))"
  "setsockopt ok (Recvttl b) m (s, e) =
     (s\<lparr>so_recvttl := if ok (Recvttl b) then b \<noteq> 0 else so_recvttl s\<rparr>,
      e @ (if ok (Recvttl b) then [] else [m]))"
  "setsockopt ok (Tos b) m (s, e) =
     (s\<lparr>so_tos := if ok (Tos b) then b else so_tos s\<rparr>, e @ (if ok (Tos b) then [] else [m]))"
  "setsockopt ok (Recvtos b) m (s, e) =
     (s\<lparr>so_recvtos := if ok (Recvtos b) then b \<noteq> 0 else so_recvtos s\<rparr>,
      e @ (if ok (Recvtos b) then [] else [m]))"
  by (simp_all add: setsockopt_def)

lemma length_failed: "length (if b then [] else [m]) = (if b then 0 else 1)"
  by simp

lemma length_filter_not_Cons:
  "length (filter (\<lambda>x. \<not> P x) (x # xs)) = (if P x then 0 else 1) + length (filter (\<lambda>x. \<not> P x) xs)"
  by simp

text \<open>
  The options of a socket after \<^verbatim>\<open>set_socket_options\<close> and \<^verbatim>\<open>set_socket_tos\<close>, whatever calls fail:
  each successful option has its value, a receive timeout is set only when it is not 0, the TOS is
  the requested one although the options function first sets it to 1, a failed call keeps the old
  value, and each failed call is reported.
\<close>

theorem socket_setup:
  "(let (s1, err1) = set_socket_options ok ttl0 timeout s;
        (s2, err2) = set_socket_tos ok tos0 s1
    in s2 = s\<lparr>so_timestampns := (if ok (Timestampns 1) then True else so_timestampns s),
              so_rcvtimeo := (if timeout \<noteq> 0 \<and> ok (Rcvtimeo \<lparr>tval_sec = uint timeout, tval_usec = 0\<rparr>)
                              then Some \<lparr>tval_sec = uint timeout, tval_usec = 0\<rparr> else so_rcvtimeo s),
              so_ttl := (if ok (Ttl ttl0) then ttl0 else so_ttl s),
              so_recvttl := (if ok (Recvttl 1) then True else so_recvttl s),
              so_tos := (if ok (Tos tos0) then tos0 else if ok (Tos 1) then 1 else so_tos s),
              so_recvtos := (if ok (Recvtos 1) then True else so_recvtos s)\<rparr>
     \<and> length (err1 @ err2) =
         length (filter (\<lambda>opt. \<not> ok opt)
           ([Timestampns 1] @ (if timeout \<noteq> 0 then [Rcvtimeo \<lparr>tval_sec = uint timeout, tval_usec = 0\<rparr>] else [])
            @ [Ttl ttl0, Recvttl 1, Tos 1, Recvtos 1, Tos tos0])))"
  unfolding set_socket_options_def set_socket_tos_def Let_def
  by (cases "timeout = 0")
     (simp_all add: setsockopt_eqs length_failed length_filter_not_Cons
        cong: if_cong del: filter.simps(2) split del: if_split)

end
