(* ===== verification/Packets.thy ===== *)
theory Packets
  imports Timestamps
begin

text \<open>
  The test packets of \<^verbatim>\<open>include/packets.h\<close> and their layout in memory, which is the layout of the
  datagrams: the programs send the objects as they are and cast a receive buffer to a packet. No
  member needs padding (all are at a multiple of their alignment), so the object representation is
  the concatenation of the members. Integers in a packet are already in network byte order.
\<close>

definition TST_PKT_SIZE :: nat where
  "TST_PKT_SIZE = 1472"

definition REFLECTOR_HEADER_SIZE :: nat where
  "REFLECTOR_HEADER_SIZE = 42"

record client_packet =
  cp_seq_number :: u32
  cp_timestamp :: timestamp
  cp_timestamp_error_estimate :: u16
  cp_padding :: "u8 list"

record reflector_packet =
  rp_seq_number :: u32
  rp_timestamp :: timestamp
  rp_timestamp_error_estimate :: u16
  rp_mbz1 :: "u8 list"
  rp_receive_timestamp :: timestamp
  rp_sender_seq_number :: u32
  rp_sender_timestamp :: timestamp
  rp_sender_error_estimate :: u16
  rp_mbz2 :: "u8 list"
  rp_sender_ttl :: u8
  rp_sender_tos :: u8
  rp_padding :: "u8 list"

text \<open>The array members have the lengths of their types.\<close>

definition client_packet_wf :: "client_packet \<Rightarrow> bool" where
  "client_packet_wf p \<longleftrightarrow> length (cp_padding p) = TST_PKT_SIZE - 14"

definition reflector_packet_wf :: "reflector_packet \<Rightarrow> bool" where
  "reflector_packet_wf p \<longleftrightarrow>
     length (rp_mbz1 p) = 2 \<and> length (rp_mbz2 p) = 2 \<and>
     length (rp_padding p) = TST_PKT_SIZE - REFLECTOR_HEADER_SIZE"

text \<open>Value initialisation, \<^verbatim>\<open>= {}\<close>.\<close>

definition timestamp_zero :: timestamp where
  "timestamp_zero = \<lparr>integer = 0, fractional = 0\<rparr>"

definition client_packet_zero :: client_packet where
  "client_packet_zero =
     \<lparr>cp_seq_number = 0, cp_timestamp = timestamp_zero, cp_timestamp_error_estimate = 0,
      cp_padding = replicate (TST_PKT_SIZE - 14) 0\<rparr>"

definition reflector_packet_zero :: reflector_packet where
  "reflector_packet_zero =
     \<lparr>rp_seq_number = 0, rp_timestamp = timestamp_zero, rp_timestamp_error_estimate = 0,
      rp_mbz1 = replicate 2 0, rp_receive_timestamp = timestamp_zero, rp_sender_seq_number = 0,
      rp_sender_timestamp = timestamp_zero, rp_sender_error_estimate = 0, rp_mbz2 = replicate 2 0,
      rp_sender_ttl = 0, rp_sender_tos = 0,
      rp_padding = replicate (TST_PKT_SIZE - REFLECTOR_HEADER_SIZE) 0\<rparr>"

section \<open>Object representation\<close>

definition timestamp_bytes :: "timestamp \<Rightarrow> u8 list" where
  "timestamp_bytes ts = to_le 4 (integer ts) @ to_le 4 (fractional ts)"

definition timestamp_of_bytes :: "u8 list \<Rightarrow> timestamp" where
  "timestamp_of_bytes bs = \<lparr>integer = from_le (take 4 bs), fractional = from_le (take 4 (drop 4 bs))\<rparr>"

definition client_packet_bytes :: "client_packet \<Rightarrow> u8 list" where
  "client_packet_bytes p =
     to_le 4 (cp_seq_number p) @ timestamp_bytes (cp_timestamp p) @
     to_le 2 (cp_timestamp_error_estimate p) @ cp_padding p"

definition client_packet_of_bytes :: "u8 list \<Rightarrow> client_packet" where
  "client_packet_of_bytes bs =
     \<lparr>cp_seq_number = from_le (take 4 bs), cp_timestamp = timestamp_of_bytes (take 8 (drop 4 bs)),
      cp_timestamp_error_estimate = from_le (take 2 (drop 12 bs)), cp_padding = drop 14 bs\<rparr>"

definition reflector_packet_bytes :: "reflector_packet \<Rightarrow> u8 list" where
  "reflector_packet_bytes p =
     to_le 4 (rp_seq_number p) @ timestamp_bytes (rp_timestamp p) @
     to_le 2 (rp_timestamp_error_estimate p) @ rp_mbz1 p @
     timestamp_bytes (rp_receive_timestamp p) @ to_le 4 (rp_sender_seq_number p) @
     timestamp_bytes (rp_sender_timestamp p) @ to_le 2 (rp_sender_error_estimate p) @ rp_mbz2 p @
     [rp_sender_ttl p, rp_sender_tos p] @ rp_padding p"

definition reflector_packet_of_bytes :: "u8 list \<Rightarrow> reflector_packet" where
  "reflector_packet_of_bytes bs =
     \<lparr>rp_seq_number = from_le (take 4 bs), rp_timestamp = timestamp_of_bytes (take 8 (drop 4 bs)),
      rp_timestamp_error_estimate = from_le (take 2 (drop 12 bs)), rp_mbz1 = take 2 (drop 14 bs),
      rp_receive_timestamp = timestamp_of_bytes (take 8 (drop 16 bs)),
      rp_sender_seq_number = from_le (take 4 (drop 24 bs)),
      rp_sender_timestamp = timestamp_of_bytes (take 8 (drop 28 bs)),
      rp_sender_error_estimate = from_le (take 2 (drop 36 bs)), rp_mbz2 = take 2 (drop 38 bs),
      rp_sender_ttl = bs ! 40, rp_sender_tos = bs ! 41, rp_padding = drop 42 bs\<rparr>"

lemma length_timestamp_bytes [simp]: "length (timestamp_bytes ts) = 8"
  by (simp add: timestamp_bytes_def)

lemma timestamp_of_bytes_bytes [simp]: "timestamp_of_bytes (timestamp_bytes ts) = ts"
  by (simp add: timestamp_of_bytes_def timestamp_bytes_def)

lemma timestamp_bytes_of_bytes [simp]:
  "length bs = 8 \<Longrightarrow> timestamp_bytes (timestamp_of_bytes bs) = bs"
  by (simp add: timestamp_of_bytes_def timestamp_bytes_def)

lemma client_packet_zero_wf [simp]: "client_packet_wf client_packet_zero"
  by (simp add: client_packet_wf_def client_packet_zero_def)

lemma reflector_packet_zero_wf [simp]: "reflector_packet_wf reflector_packet_zero"
  by (simp add: reflector_packet_wf_def reflector_packet_zero_def)

lemma length_client_packet_bytes:
  "client_packet_wf p \<Longrightarrow> length (client_packet_bytes p) = TST_PKT_SIZE"
  by (simp add: client_packet_bytes_def client_packet_wf_def TST_PKT_SIZE_def)

lemma length_reflector_packet_bytes:
  "reflector_packet_wf p \<Longrightarrow> length (reflector_packet_bytes p) = TST_PKT_SIZE"
  by (simp add: reflector_packet_bytes_def reflector_packet_wf_def TST_PKT_SIZE_def
      REFLECTOR_HEADER_SIZE_def)

lemma client_packet_of_bytes_wf [simp]:
  "length bs = TST_PKT_SIZE \<Longrightarrow> client_packet_wf (client_packet_of_bytes bs)"
  by (simp add: client_packet_of_bytes_def client_packet_wf_def)

lemma reflector_packet_of_bytes_wf [simp]:
  "length bs = TST_PKT_SIZE \<Longrightarrow> reflector_packet_wf (reflector_packet_of_bytes bs)"
  by (simp add: reflector_packet_of_bytes_def reflector_packet_wf_def TST_PKT_SIZE_def
      REFLECTOR_HEADER_SIZE_def)

lemma client_packet_of_bytes_bytes: "client_packet_of_bytes (client_packet_bytes p) = p"
  by (simp add: client_packet_of_bytes_def client_packet_bytes_def)

lemma client_packet_bytes_of_bytes:
  "length bs = TST_PKT_SIZE \<Longrightarrow> client_packet_bytes (client_packet_of_bytes bs) = bs"
  by (simp add: client_packet_of_bytes_def client_packet_bytes_def TST_PKT_SIZE_def slice_simps)

lemma reflector_packet_of_bytes_bytes:
  "reflector_packet_wf p \<Longrightarrow> reflector_packet_of_bytes (reflector_packet_bytes p) = p"
  by (simp add: reflector_packet_of_bytes_def reflector_packet_bytes_def reflector_packet_wf_def
      nth_append)

lemma two_bytes_append_drop:
  assumes "Suc k < length bs" shows "bs ! k # bs ! Suc k # drop (Suc (Suc k)) bs = drop k bs"
  using assms by (simp add: Cons_nth_drop_Suc)

lemma reflector_packet_bytes_of_bytes:
  assumes "length bs = TST_PKT_SIZE"
  shows "reflector_packet_bytes (reflector_packet_of_bytes bs) = bs"
  using assms two_bytes_append_drop [of 40 bs]
  by (simp add: reflector_packet_of_bytes_def reflector_packet_bytes_def TST_PKT_SIZE_def slice_simps)

section \<open>Layout\<close>

text \<open>
  C19: The two packet structures are 1472 bytes on the wire, and the reinterpreting casts between a
  buffer and a packet lose nothing: every buffer of that size is the representation of exactly one
  client packet and of exactly one reflector packet.
\<close>

theorem packet_layout:
  assumes "length buf = TST_PKT_SIZE" and "client_packet_wf p" and "reflector_packet_wf r"
  shows "(client_packet_bytes p = buf \<longleftrightarrow> p = client_packet_of_bytes buf)
     \<and> (reflector_packet_bytes r = buf \<longleftrightarrow> r = reflector_packet_of_bytes buf)
     \<and> length (client_packet_bytes p) = 1472 \<and> length (reflector_packet_bytes r) = 1472"
  using assms client_packet_of_bytes_bytes [of p] client_packet_bytes_of_bytes [of buf]
    reflector_packet_of_bytes_bytes [of r] reflector_packet_bytes_of_bytes [of buf]
    length_client_packet_bytes [of p] length_reflector_packet_bytes [of r]
  by (auto simp: TST_PKT_SIZE_def)

theorem packet_layout_witness:
  "reflector_packet_bytes reflector_packet_zero = replicate TST_PKT_SIZE 0 \<longleftrightarrow>
     reflector_packet_zero = reflector_packet_of_bytes (replicate TST_PKT_SIZE 0)"
  using packet_layout [of "replicate TST_PKT_SIZE 0" client_packet_zero reflector_packet_zero] by simp

end
