(* ===== verification/Addresses.thy ===== *)
theory Addresses
  imports Twamp_Prelude
begin

text \<open>
  Parsing of addresses and ports: \<^verbatim>\<open>parseIPPort\<close> and \<^verbatim>\<open>parseIPv6Port\<close> of \<^verbatim>\<open>src/utils.cpp\<close> over a
  model of \<^verbatim>\<open>strtol\<close> (base 10), and \<^verbatim>\<open>std::stoi\<close>, which both programs apply to the local port. The
  reference parameters of the C++ functions are passed in and returned, since a failing call
  changes the address and keeps the port.
\<close>

section \<open>Library functions\<close>

definition is_space :: "char \<Rightarrow> bool" where
  "is_space c \<longleftrightarrow> c = CHR '' '' \<or> (9 \<le> (of_char c :: nat) \<and> (of_char c :: nat) \<le> 13)"

fun read_sign :: "string \<Rightarrow> bool \<times> string" where
  "read_sign [] = (False, [])"
| "read_sign (c # cs) =
     (if c = CHR ''-'' then (True, cs) else if c = CHR ''+'' then (False, cs) else (False, c # cs))"

definition LONG_MAX :: int where "LONG_MAX = 2 ^ 63 - 1"
definition LONG_MIN :: int where "LONG_MIN = - (2 ^ 63)"
definition INT_MAX :: int where "INT_MAX = 2 ^ 31 - 1"
definition INT_MIN :: int where "INT_MIN = - (2 ^ 31)"

text \<open>\<^verbatim>\<open>strtol(s, &endptr, 10)\<close>: the value, saturated, and the rest of the string at \<^verbatim>\<open>endptr\<close>, which
  is the whole string when there is no number.\<close>

definition strtol :: "string \<Rightarrow> int \<times> string" where
  "strtol s =
     (let (neg, u) = read_sign (dropWhile is_space s); ds = takeWhile is_digit u in
      if ds = [] then (0, s)
      else let v = int (dec_val ds); w = (if neg then - v else v)
           in (max LONG_MIN (min LONG_MAX w), dropWhile is_digit u))"

text \<open>\<^verbatim>\<open>std::stoi\<close> throws when no digit was read (\<^verbatim>\<open>endptr\<close> did not move) or the value is not an
  \<^verbatim>\<open>int\<close>; it ignores what follows the number.\<close>

definition stoi :: "string \<Rightarrow> cxx_exn + int" where
  "stoi s =
     (let (neg, u) = read_sign (dropWhile is_space s); v = fst (strtol s) in
      if takeWhile is_digit u = [] then Inl Invalid_argument
      else if v < INT_MIN \<or> INT_MAX < v then Inl Out_of_range
      else Inr v)"

text \<open>\<^verbatim>\<open>find\<close> and \<^verbatim>\<open>rfind\<close> of a character; \<^const>\<open>None\<close> is \<^verbatim>\<open>npos\<close>.\<close>

fun find_char :: "char \<Rightarrow> string \<Rightarrow> nat option" where
  "find_char c [] = None"
| "find_char c (d # ds) = (if d = c then Some 0 else map_option Suc (find_char c ds))"

fun rfind_char :: "char \<Rightarrow> string \<Rightarrow> nat option" where
  "rfind_char c [] = None"
| "rfind_char c (d # ds) =
     (case rfind_char c ds of Some k \<Rightarrow> Some (Suc k) | None \<Rightarrow> if d = c then Some 0 else None)"

section \<open>Operations\<close>

text \<open>The port check, the same in both functions. \<^verbatim>\<open>*endptr\<close> is the terminating null, or a null in
  the string.\<close>

definition parse_port :: "string \<Rightarrow> u16 option" where
  "parse_port s =
     (let (tmpport, rest) = strtol s in
      if (rest \<noteq> [] \<and> hd rest \<noteq> CHR 0x00) \<or> tmpport \<le> 0 \<or> 65536 \<le> tmpport then None
      else Some (word_of_int tmpport))"

definition parseIPPort :: "string \<Rightarrow> string \<Rightarrow> u16 \<Rightarrow> bool \<times> string \<times> u16" where
  "parseIPPort input ip port =
     (case find_char CHR '':'' input of
        None \<Rightarrow> (False, ip, port)
      | Some colon_pos \<Rightarrow>
          (case parse_port (drop (colon_pos + 1) input) of
             None \<Rightarrow> (False, take colon_pos input, port)
           | Some p \<Rightarrow> (True, take colon_pos input, p)))"

definition parseIPv6Port :: "string \<Rightarrow> string \<Rightarrow> u16 \<Rightarrow> bool \<times> string \<times> u16" where
  "parseIPv6Port input ip port =
     (case rfind_char CHR '':'' input of
        None \<Rightarrow> (False, ip, port)
      | Some lastColonPos \<Rightarrow>
          (case parse_port (drop (lastColonPos + 1) input) of
             None \<Rightarrow> (False, take lastColonPos input, port)
           | Some p \<Rightarrow> (True, take lastColonPos input, p)))"

section \<open>Searching\<close>

lemma find_char_append: "c \<notin> set xs \<Longrightarrow> find_char c (xs @ c # ys) = Some (length xs)"
  by (induction xs) auto

lemma find_char_None: "find_char c xs = None \<longleftrightarrow> c \<notin> set xs"
  by (induction xs) auto

lemma find_char_Some:
  "find_char c xs = Some k \<Longrightarrow> c \<notin> set (take k xs) \<and> xs = take k xs @ c # drop (Suc k) xs"
  by (induction xs arbitrary: k) (auto split: if_splits)

lemma rfind_char_None: "rfind_char c xs = None \<longleftrightarrow> c \<notin> set xs"
  by (induction xs) (auto split: option.splits)

lemma rfind_char_append: "c \<notin> set ys \<Longrightarrow> rfind_char c (xs @ c # ys) = Some (length xs)"
  using rfind_char_None [of c ys] by (induction xs) auto

lemma rfind_char_Some:
  "rfind_char c xs = Some k \<Longrightarrow> c \<notin> set (drop (Suc k) xs) \<and> xs = take k xs @ c # drop (Suc k) xs"
  by (induction xs arbitrary: k) (auto simp: rfind_char_None split: option.splits if_splits)

section \<open>Reading a printed number\<close>

lemma is_digit_not_space: "is_digit c \<Longrightarrow> \<not> is_space c"
  by (auto simp: is_digit_def is_space_def)

lemma dec_Cons: "\<exists>c cs. dec n = c # cs \<and> is_digit c"
  using dec_digits [of n] dec_not_Nil [of n] by (cases "dec n") auto

lemma dropWhile_space_dec [simp]: "dropWhile is_space (dec n) = dec n"
  using dec_Cons [of n] by (auto simp: is_digit_not_space)

lemma read_sign_dec [simp]: "read_sign (dec n) = (False, dec n)"
  using dec_Cons [of n] by (auto simp: is_digit_def)

lemma takeWhile_digit_dec [simp]: "takeWhile is_digit (dec n) = dec n"
  using dec_digits [of n] by (simp add: takeWhile_eq_all_conv)

lemma dropWhile_digit_dec [simp]: "dropWhile is_digit (dec n) = []"
  using dec_digits [of n] by (simp add: dropWhile_eq_Nil_conv)

lemma strtol_dec: "int n \<le> LONG_MAX \<Longrightarrow> strtol (dec n) = (int n, [])"
  by (simp add: strtol_def LONG_MIN_def)

lemma stoi_dec: "int n \<le> INT_MAX \<Longrightarrow> stoi (dec n) = Inr (int n)"
  by (simp add: stoi_def strtol_dec INT_MAX_def INT_MIN_def LONG_MAX_def)

lemma parse_port_dec: "p \<noteq> 0 \<Longrightarrow> parse_port (dec (unat p)) = Some p"
proof -
  assume p: "p \<noteq> 0"
  have u: "uint p < 65536" using uint_lt2p [of p] by simp
  moreover have "0 < uint p" using p uint_ge_0 [of p] by (metis uint_0_iff order_le_less)
  moreover have "strtol (dec (unat p)) = (uint p, [])"
    using u strtol_dec [of "unat p"] by (simp add: LONG_MAX_def)
  ultimately show ?thesis by (simp add: parse_port_def)
qed

lemma parse_port_Some:
  assumes "parse_port s = Some p"
  shows "p \<noteq> 0" and "fst (strtol s) = uint p" and "take 1 (snd (strtol s)) \<in> {[], [CHR 0x00]}"
proof -
  obtain v rest where v: "strtol s = (v, rest)" by fastforce
  with assms have r: "0 < v" "v < 65536" "p = word_of_int v"
    by (auto simp: parse_port_def split: if_splits)
  then have u: "uint p = v" by (simp add: uint_word_of_int)
  with r v show "p \<noteq> 0" and "fst (strtol s) = uint p" by auto
  show "take 1 (snd (strtol s)) \<in> {[], [CHR 0x00]}"
    using assms v by (cases rest) (auto simp: parse_port_def split: if_splits)
qed

lemma colon_not_in_dec: "CHR '':'' \<notin> set (dec n)"
  using dec_digits [of n] by (auto simp: is_digit_def)

section \<open>Correctness\<close>

text \<open>
  C24: An address without a colon, printed with a port from 1 to 65535 as \<open>ip:port\<close>, is parsed back
  to that address and port by \<^verbatim>\<open>parseIPPort\<close>.
\<close>

theorem parseIPPort_roundtrip:
  assumes "CHR '':'' \<notin> set ip" and "port \<noteq> 0"
  shows "parseIPPort (ip @ '':'' @ dec (unat port)) ip0 port0 = (True, ip, port)"
  using assms by (simp add: parseIPPort_def find_char_append parse_port_dec)

theorem parseIPPort_roundtrip_witness:
  "parseIPPort ''192.168.1.1:8080'' [] 0 = (True, ''192.168.1.1'', 8080)"
  using parseIPPort_roundtrip [of "''192.168.1.1''" 8080 "[]" 0]
  by (simp add: dec.simps digit_char_def)

text \<open>
  \<^verbatim>\<open>parseIPv6Port\<close> splits at the last colon, so every address (an IPv6 address has colons),
  printed with a port from 1 to 65535, is parsed back to that address and port.
\<close>

theorem parseIPv6Port_roundtrip:
  assumes "port \<noteq> 0"
  shows "parseIPv6Port (ip @ '':'' @ dec (unat port)) ip0 port0 = (True, ip, port)"
  using assms by (simp add: parseIPv6Port_def rfind_char_append colon_not_in_dec parse_port_dec)

theorem parseIPv6Port_roundtrip_witness:
  "parseIPv6Port ''2001:db8::1:4200'' [] 0 = (True, ''2001:db8::1'', 4200)"
  using parseIPv6Port_roundtrip [of 4200 "''2001:db8::1''" "[]" 0]
  by (simp add: dec.simps digit_char_def)

text \<open>
  C25: Both parsers are sound on every input: an accepted input is the returned address, a colon
  and a rest that \<^verbatim>\<open>strtol\<close> reads up to its end (the terminating null) as the returned port, which
  is between 1 and 65535; the address is cut at the first colon (\<^verbatim>\<open>parseIPPort\<close>) or at the last
  one (\<^verbatim>\<open>parseIPv6Port\<close>). A rejected input leaves the port variable as it was.
\<close>

theorem parse_address_sound:
  "(case parseIPPort input ip0 port0 of
      (True, ip, port) \<Rightarrow> \<exists>rest. input = ip @ '':'' @ rest \<and> CHR '':'' \<notin> set ip \<and>
         port \<noteq> 0 \<and> fst (strtol rest) = uint port \<and> take 1 (snd (strtol rest)) \<in> {[], [CHR 0x00]}
    | (False, ip, port) \<Rightarrow> port = port0)
   \<and> (case parseIPv6Port input ip0 port0 of
      (True, ip, port) \<Rightarrow> \<exists>rest. input = ip @ '':'' @ rest \<and> CHR '':'' \<notin> set rest \<and>
         port \<noteq> 0 \<and> fst (strtol rest) = uint port \<and> take 1 (snd (strtol rest)) \<in> {[], [CHR 0x00]}
    | (False, ip, port) \<Rightarrow> port = port0)"
proof
  show "case parseIPPort input ip0 port0 of
      (True, ip, port) \<Rightarrow> \<exists>rest. input = ip @ '':'' @ rest \<and> CHR '':'' \<notin> set ip \<and>
         port \<noteq> 0 \<and> fst (strtol rest) = uint port \<and> take 1 (snd (strtol rest)) \<in> {[], [CHR 0x00]}
    | (False, ip, port) \<Rightarrow> port = port0"
    using find_char_Some [of "CHR '':''" input] parse_port_Some
    by (fastforce simp: parseIPPort_def split: option.splits)
  show "case parseIPv6Port input ip0 port0 of
      (True, ip, port) \<Rightarrow> \<exists>rest. input = ip @ '':'' @ rest \<and> CHR '':'' \<notin> set rest \<and>
         port \<noteq> 0 \<and> fst (strtol rest) = uint port \<and> take 1 (snd (strtol rest)) \<in> {[], [CHR 0x00]}
    | (False, ip, port) \<Rightarrow> port = port0"
    using rfind_char_Some [of "CHR '':''" input] parse_port_Some
    by (fastforce simp: parseIPv6Port_def split: option.splits)
qed

end
