(* ===== verification/Server.thy ===== *)
theory Server
  imports Sockets Packets Addresses
begin

text \<open>
  The reflector: \<^verbatim>\<open>include/Server.h\<close> and \<^verbatim>\<open>src/server/Server.cpp\<close>. A run is driven by a list of
  events, one for each \<^verbatim>\<open>recvmsg\<close> call: what arrived (or the error) and whether the answer could be
  sent. The lemmas show what is reflected: one answer per datagram, to its source, of the same
  length, with the first 14 bytes of the request at the place RFC 5357 gives them; and when
  \<^verbatim>\<open>listen\<close> returns, and with which code.
\<close>

section \<open>State\<close>

record server_args =
  sa_local_host :: string
  sa_local_port :: string
  sa_num_samples :: u32
  sa_timeout :: u8
  sa_snd_tos :: u8
  sa_ip_version :: u8
  sa_sep :: char

definition server_args_default :: server_args where
  "server_args_default =
     \<lparr>sa_local_host = '''', sa_local_port = ''443'', sa_num_samples = 0, sa_timeout = 0,
      sa_snd_tos = 0, sa_ip_version = 4, sa_sep = CHR '',''\<rparr>"

record server_metric_data =
  sm_ip :: string
  sm_sending_port :: u16
  sm_receiving_port :: u16
  sm_payload_length :: u16
  sm_client_server_delay_nanoseconds :: int
  sm_internal_delay_nanoseconds :: int
  sm_initial_send_time :: u64
  sm_packet :: reflector_packet

record server =
  sv_header_printed :: bool
  sv_args :: server_args
  sv_clock :: sys_clock
  sv_stdout :: string
  sv_stderr :: "string list"
  sv_network :: "(u8 list \<times> u8 list) list"

text \<open>The operating system, as the server sees it.\<close>

record server_env =
  env_getaddrinfo :: "string option \<Rightarrow> string \<Rightarrow> int \<Rightarrow> int + u8 list"
  env_socket :: "int \<Rightarrow> int option"
  env_setsockopt :: "sockopt \<Rightarrow> bool"
  env_bind :: "u8 list \<Rightarrow> int option"
  env_strerror :: "int \<Rightarrow> string"
  env_inet_ntop :: "u8 \<Rightarrow> u8 list \<Rightarrow> string option"

definition AF_INET :: int where "AF_INET = 2"
definition AF_INET6 :: int where "AF_INET6 = 10"
definition HDR_TTL :: u8 where "HDR_TTL = 255"
definition ERROR_ESTIMATE_DEFAULT_BITMAP :: u16 where "ERROR_ESTIMATE_DEFAULT_BITMAP = 0x8001"

section \<open>Construction\<close>

text \<open>
  The constructor: the message of a failure, after which the process exits, or the server and its
  socket. \<^verbatim>\<open>env_socket\<close> and \<^verbatim>\<open>env_bind\<close> give the error number of a failing call.
\<close>

definition Server :: "server_env \<Rightarrow> server_args \<Rightarrow> sys_clock \<Rightarrow> socket \<Rightarrow> string + server \<times> socket" where
  "Server env a clk fresh =
     (if sa_ip_version a \<noteq> 4 \<and> sa_ip_version a \<noteq> 6 then Inl ''Invalid IP version.''
      else
        let family = (if sa_ip_version a = 4 then AF_INET else AF_INET6);
            host = (if sa_local_host a = [] then None else Some (sa_local_host a))
        in case env_getaddrinfo env host (sa_local_port a) family of
             Inl err \<Rightarrow> Inl (''failed to resolve local socket address: '' @ dec_int err)
           | Inr addr \<Rightarrow>
               (case env_socket env family of
                  Some e \<Rightarrow> Inl (env_strerror env e)
                | None \<Rightarrow>
                    let (fd1, err1) = set_socket_options (env_setsockopt env) HDR_TTL (sa_timeout a) fresh;
                        (fd2, err2) = set_socket_tos (env_setsockopt env) (sa_snd_tos a) fd1
                    in case env_bind env addr of
                         Some e \<Rightarrow> Inl (env_strerror env e)
                       | None \<Rightarrow>
                           Inr (\<lparr>sv_header_printed = False, sv_args = a, sv_clock = clk, sv_stdout = [],
                                 sv_stderr = err1 @ err2, sv_network = []\<rparr>, fd2)))"

section \<open>Operations\<close>

definition server_timestamp :: "server \<Rightarrow> timestamp \<times> server" where
  "server_timestamp s = (case get_timestamp (sv_clock s) of (ts, k) \<Rightarrow> (ts, s\<lparr>sv_clock := k\<rparr>))"

definition craftReflectorPacket ::
  "client_packet \<Rightarrow> cmsg list \<Rightarrow> timespec \<Rightarrow> server \<Rightarrow> reflector_packet \<times> server" where
  "craftReflectorPacket clientPacket control incoming_timestamp s =
     (let (server_ts, s) =
            (if tv_sec incoming_timestamp = 0 \<and> tv_nsec incoming_timestamp = 0 then server_timestamp s
             else (timespec_to_timestamp incoming_timestamp, s));
          packet = reflector_packet_zero\<lparr>rp_seq_number := cp_seq_number clientPacket\<rparr>;
          (send_timestamp, s) = server_timestamp s;
          packet = packet\<lparr>rp_timestamp := htonts send_timestamp,
                          rp_timestamp_error_estimate := htons ERROR_ESTIMATE_DEFAULT_BITMAP,
                          rp_receive_timestamp := htonts server_ts,
                          rp_sender_seq_number := cp_seq_number clientPacket,
                          rp_sender_timestamp := cp_timestamp clientPacket,
                          rp_sender_error_estimate := cp_timestamp_error_estimate clientPacket\<rparr>;
          (ipHeader, err) = get_ip_header control
      in (packet\<lparr>rp_sender_ttl := ttl ipHeader, rp_sender_tos := tos ipHeader\<rparr>,
          s\<lparr>sv_stderr := sv_stderr s @ err\<rparr>))"

definition server_header :: "char \<Rightarrow> string" where
  "server_header sep =
     concat (map (\<lambda>name. name @ [sep])
       [''Time'', ''IP'', ''Snd#'', ''Rcv#'', ''SndPort'', ''RscPort'', ''FW_TTL'', ''SndTOS'', ''FW_TOS'',
        ''IntD'', ''FWD'', ''PLEN'']) @ [CHR 0x0A]"

text \<open>The expression for \<^verbatim>\<open>snd_tos\<close>, with \<^verbatim>\<open>fw_tos\<close> 0 as the code has it.\<close>

definition server_snd_tos :: "u8 \<Rightarrow> u8 \<Rightarrow> u8" where
  "server_snd_tos sender_tos fw_tos =
     sender_tos + (fw_tos AND 3) - (drop_bit 1 (fw_tos AND 2) AND (fw_tos AND 1))"

definition server_metrics_line :: "char \<Rightarrow> server_metric_data \<Rightarrow> string" where
  "server_metrics_line sep data =
     dec (unat (sm_initial_send_time data)) @ [sep] @ sm_ip data @ [sep] @
     dec (unat (ntohl (rp_sender_seq_number (sm_packet data)))) @ [sep] @
     dec (unat (ntohl (rp_seq_number (sm_packet data)))) @ [sep] @
     dec (unat (sm_sending_port data)) @ [sep] @ dec (unat (sm_receiving_port data)) @ [sep] @
     dec (unat (rp_sender_ttl (sm_packet data))) @ [sep] @
     dec (unat (server_snd_tos (rp_sender_tos (sm_packet data)) 0)) @ [sep] @ dec 0 @ [sep] @
     print_fixed (d_mul (d_of_int (sm_internal_delay_nanoseconds data)) d_1em6) @ [sep] @
     print_fixed (d_mul (d_of_int (sm_client_server_delay_nanoseconds data)) d_1em6) @ [sep] @
     dec (unat (sm_payload_length data)) @ [CHR 0x0A]"

definition server_printMetrics :: "server_metric_data \<Rightarrow> server \<Rightarrow> server" where
  "server_printMetrics data s =
     (let sep = sa_sep (sv_args s);
          s = (if \<not> sv_header_printed s
               then s\<lparr>sv_stdout := sv_stdout s @ server_header sep, sv_header_printed := True\<rparr> else s)
      in s\<lparr>sv_stdout := sv_stdout s @ server_metrics_line sep data\<rparr>)"

text \<open>
  \<^verbatim>\<open>send_error\<close> is the outcome of \<^verbatim>\<open>sendmsg\<close>: the error text, if it failed. The length of the answer
  never exceeds the packet, as \<^verbatim>\<open>payload_len\<close> comes from a receive into a buffer of the same size; a
  longer one would read outside the packet and is \<^verbatim>\<open>Out_of_range\<close> here. An exception keeps the server
  as it was when it was thrown.
\<close>

definition handleTestPacket ::
  "server_env \<Rightarrow> string option \<Rightarrow> client_packet \<Rightarrow> msghdr \<Rightarrow> nat \<Rightarrow> timespec \<Rightarrow> server \<Rightarrow>
   cxx_exn \<times> server + server" where
  "handleTestPacket env send_error packet sender_msg payload_length incoming_timestamp s =
     (let (reflector, s) = craftReflectorPacket packet (msg_control sender_msg) incoming_timestamp s;
          (port, host) = parse_ip_address (env_inet_ntop env) (msg_name sender_msg) 0 [] (sa_ip_version (sv_args s));
          client_timestamp = ntohts (cp_timestamp packet);
          server_ts = ntohts (rp_receive_timestamp reflector);
          send_timestamp = ntohts (rp_timestamp reflector);
          client_server_delay = sint (timestamp_to_nsec server_ts - timestamp_to_nsec client_timestamp);
          server_receive_time = timestamp_to_nsec server_ts;
          server_send_time = timestamp_to_nsec send_timestamp;
          initial_send_time = timestamp_to_nsec client_timestamp;
          internal_delay = sint (server_send_time - server_receive_time)
      in case stoi (sa_local_port (sv_args s)) of
           Inl e \<Rightarrow> Inl (e, s)
         | Inr local_port \<Rightarrow>
             let data = \<lparr>sm_ip = host, sm_sending_port = port, sm_receiving_port = word_of_int local_port,
                         sm_payload_length = word_of_int (int payload_length),
                         sm_client_server_delay_nanoseconds = client_server_delay,
                         sm_internal_delay_nanoseconds = internal_delay,
                         sm_initial_send_time = initial_send_time, sm_packet = reflector\<rparr>;
                 s = server_printMetrics data s
             in case iov_bytes (reflector_packet_bytes reflector) payload_length of
                  None \<Rightarrow> Inl (Out_of_range, s)
                | Some bytes \<Rightarrow>
                    Inr (case send_error of
                           None \<Rightarrow> s\<lparr>sv_network := sv_network s @ [(msg_name sender_msg, bytes)]\<rparr>
                         | Some msg \<Rightarrow> s\<lparr>sv_stderr := sv_stderr s @ [msg]\<rparr>))"

section \<open>The receive loop\<close>

record server_event =
  ev_recv :: recv_result
  ev_send_error :: "string option"

datatype listen_result = Returned int | Blocked | Threw cxx_exn

definition server_msghdr :: msghdr where
  "server_msghdr = make_msghdr [(replicate TST_PKT_SIZE 0, TST_PKT_SIZE)] 1 (replicate 28 0) 28 zero_control 1024"

text \<open>The body of the loop, after the sample counter: either the loop goes on or \<^verbatim>\<open>listen\<close> ends.\<close>

definition listen_body :: "server_env \<Rightarrow> server_event \<Rightarrow> server \<Rightarrow> listen_result option \<times> server" where
  "listen_body env ev s =
     (let (message, payload_length) = recvmsg server_msghdr (ev_recv ev);
          incoming_timestamp = get_kernel_timestamp (msg_control message) \<lparr>tv_sec = 0, tv_nsec = 0\<rparr>
      in case ev_recv ev of
           Recv_error e \<Rightarrow>
             (if e = 11 then (Some (Returned 11), s\<lparr>sv_stderr := sv_stderr s @ [''Socket timed out.'']\<rparr>)
              else (Some (Returned 1), s\<lparr>sv_stderr := sv_stderr s @ [env_strerror env e]\<rparr>))
         | Recv_msg _ \<Rightarrow>
             if msg_trunc message
             then (None, s\<lparr>sv_stdout := sv_stdout s @ ''Datagram too large for buffer: truncated'' @ [CHR 0x0A]\<rparr>)
             else (case handleTestPacket env (ev_send_error ev)
                          (client_packet_of_bytes (fst (hd (msg_iov message)))) message
                          (nat payload_length) incoming_timestamp s of
                     Inl (e, s') \<Rightarrow> (Some (Threw e), s')
                   | Inr s' \<Rightarrow> (None, s')))"

text \<open>
  \<^verbatim>\<open>listen\<close> from a value of the 32-bit sample counter; \<^const>\<open>Blocked\<close> when the events are used up and
  the server waits in \<^verbatim>\<open>recvmsg\<close>.
\<close>

definition next_counter :: "server_args \<Rightarrow> u32 \<Rightarrow> u32" where
  "next_counter a counter = (if sa_num_samples a \<noteq> 0 then counter + 1 else counter)"

definition samples_done :: "server_args \<Rightarrow> u32 \<Rightarrow> bool" where
  "samples_done a counter \<longleftrightarrow> sa_num_samples a \<noteq> 0 \<and> counter > sa_num_samples a"

fun listen_from :: "server_env \<Rightarrow> u32 \<Rightarrow> server_event list \<Rightarrow> server \<Rightarrow> listen_result \<times> server" where
  "listen_from env counter [] s =
     (if samples_done (sv_args s) (next_counter (sv_args s) counter) then (Returned 0, s) else (Blocked, s))"
| "listen_from env counter (ev # evs) s =
     (let counter = next_counter (sv_args s) counter in
      if samples_done (sv_args s) counter then (Returned 0, s)
      else case listen_body env ev s of
             (Some r, s') \<Rightarrow> (r, s')
           | (None, s') \<Rightarrow> listen_from env counter evs s')"

definition listen :: "server_env \<Rightarrow> server_event list \<Rightarrow> server \<Rightarrow> listen_result \<times> server" where
  "listen env evs s = listen_from env 0 evs s"

section \<open>The reflected packet\<close>

lemma server_timestamp_eq:
  "server_timestamp s =
     (timespec_to_timestamp (readings (sv_clock s) (ticks (sv_clock s))),
      s\<lparr>sv_clock := (sv_clock s)\<lparr>ticks := Suc (ticks (sv_clock s))\<rparr>\<rparr>)"
  by (simp add: server_timestamp_def get_timestamp_def clock_gettime_def)

text \<open>The times of the answer: the kernel's receive time or else a reading of the clock, and the next
  reading.\<close>

definition no_kernel_time :: "timespec \<Rightarrow> bool" where
  "no_kernel_time t \<longleftrightarrow> tv_sec t = 0 \<and> tv_nsec t = 0"

definition receive_time :: "timespec \<Rightarrow> sys_clock \<Rightarrow> timespec" where
  "receive_time t k = (if no_kernel_time t then readings k (ticks k) else t)"

definition send_time :: "timespec \<Rightarrow> sys_clock \<Rightarrow> timespec" where
  "send_time t k = readings k (if no_kernel_time t then Suc (ticks k) else ticks k)"

lemma craftReflectorPacket_packet:
  "fst (craftReflectorPacket cp control t s) =
     \<lparr>rp_seq_number = cp_seq_number cp,
      rp_timestamp = htonts (timespec_to_timestamp (send_time t (sv_clock s))),
      rp_timestamp_error_estimate = htons 0x8001, rp_mbz1 = [0, 0],
      rp_receive_timestamp = htonts (timespec_to_timestamp (receive_time t (sv_clock s))),
      rp_sender_seq_number = cp_seq_number cp, rp_sender_timestamp = cp_timestamp cp,
      rp_sender_error_estimate = cp_timestamp_error_estimate cp, rp_mbz2 = [0, 0],
      rp_sender_ttl = ttl (fst (get_ip_header control)), rp_sender_tos = tos (fst (get_ip_header control)),
      rp_padding = replicate 1430 0\<rparr>"
  by (simp add: craftReflectorPacket_def server_timestamp_eq send_time_def receive_time_def
      no_kernel_time_def reflector_packet_zero_def ERROR_ESTIMATE_DEFAULT_BITMAP_def TST_PKT_SIZE_def
      REFLECTOR_HEADER_SIZE_def Let_def numeral_2_eq_2 split: prod.split)

lemma craftReflectorPacket_state:
  "\<exists>k err. snd (craftReflectorPacket cp control t s) = s\<lparr>sv_clock := k, sv_stderr := err\<rparr>"
proof -
  have "s\<lparr>sv_clock := k, sv_stderr := e\<rparr> = s\<lparr>sv_stderr := e, sv_clock := k\<rparr>" for k e by simp
  then show ?thesis
    by (auto simp: craftReflectorPacket_def server_timestamp_eq Let_def split: prod.split)
qed

lemma craftReflectorPacket_wf: "reflector_packet_wf (fst (craftReflectorPacket cp control t s))"
  by (simp add: craftReflectorPacket_packet reflector_packet_wf_def TST_PKT_SIZE_def
      REFLECTOR_HEADER_SIZE_def)

lemma printMetrics_frame [simp]:
  "sv_network (server_printMetrics data s) = sv_network s"
  "sv_args (server_printMetrics data s) = sv_args s" "sv_clock (server_printMetrics data s) = sv_clock s"
  "sv_stderr (server_printMetrics data s) = sv_stderr s" "sv_header_printed (server_printMetrics data s)"
  by (simp_all add: server_printMetrics_def Let_def)

lemma handleTestPacket_sends:
  assumes "stoi (sa_local_port (sv_args s)) = Inr lp" and "n \<le> TST_PKT_SIZE"
  shows "\<exists>s'. handleTestPacket env err cp m n t s = Inr s' \<and> sv_args s' = sv_args s \<and>
     sv_network s' = sv_network s @
       (if err = None
        then [(msg_name m, take n (reflector_packet_bytes (fst (craftReflectorPacket cp (msg_control m) t s))))]
        else [])"
proof -
  obtain p s1 where p: "craftReflectorPacket cp (msg_control m) t s = (p, s1)" by fastforce
  obtain port host where h: "parse_ip_address (env_inet_ntop env) (msg_name m) 0 [] (sa_ip_version (sv_args s)) = (port, host)"
    by fastforce
  have s1: "sv_args s1 = sv_args s" "sv_network s1 = sv_network s"
    using craftReflectorPacket_state [of cp "msg_control m" t s] by (auto simp: p)
  have "iov_bytes (reflector_packet_bytes p) n = Some (take n (reflector_packet_bytes p))"
    using craftReflectorPacket_wf [of cp "msg_control m" t s] assms(2)
    by (simp add: p iov_bytes_def length_reflector_packet_bytes)
  then show ?thesis
    using assms(1) by (cases err) (simp_all add: handleTestPacket_def p h s1 Let_def)
qed

lemma to_le_from_le_take [simp]:
  "4 \<le> length bs \<Longrightarrow> to_le 4 (from_le (take 4 bs) :: u32) = take 4 bs"
  "2 \<le> length bs \<Longrightarrow> to_le 2 (from_le (take 2 bs) :: u16) = take 2 bs"
  by simp_all

text \<open>The header of the answer, byte by byte.\<close>

lemma reflector_bytes_of_request:
  assumes "length buf = TST_PKT_SIZE"
  shows "reflector_packet_bytes (fst (craftReflectorPacket (client_packet_of_bytes buf) control t s)) =
     take 4 buf @
     timestamp_bytes (htonts (timespec_to_timestamp (send_time t (sv_clock s)))) @ [0x80, 0x01] @ [0, 0] @
     timestamp_bytes (htonts (timespec_to_timestamp (receive_time t (sv_clock s)))) @
     take 14 buf @ [0, 0] @
     [ttl (fst (get_ip_header control)), tos (fst (get_ip_header control))] @ replicate 1430 0"
proof -
  have e: "to_le 2 (htons 0x8001) = [0x80, 0x01]"
    by (simp add: to_le_htons) (simp add: to_le_def upt_conv_Cons)
  have "take 4 buf @ take 8 (drop 4 buf) @ take 2 (drop 12 buf) = take 14 buf"
    by (simp add: take_add [of 4 "8 + 2" buf, simplified] take_add [of 8 2 "drop 4 buf", simplified])
  then show ?thesis
    using assms unfolding craftReflectorPacket_packet reflector_packet_bytes_def client_packet_of_bytes_def
    by (simp add: e TST_PKT_SIZE_def)
qed

section \<open>One round of the loop\<close>

lemma server_recv:
  assumes "length (in_payload d) \<le> TST_PKT_SIZE"
  shows "recvmsg server_msghdr (Recv_msg d) =
     (server_msghdr\<lparr>msg_iov := [(in_payload d @ replicate (TST_PKT_SIZE - length (in_payload d)) 0, TST_PKT_SIZE)],
        msg_name := in_name d, msg_control := in_control d, msg_trunc := False\<rparr>,
      int (length (in_payload d)))"
  using assms by (simp add: server_msghdr_def make_msghdr_def min_def)

text \<open>The answer to a datagram: the packet built from the padded buffer, cut to its length.\<close>

definition request_buffer :: "incoming \<Rightarrow> u8 list" where
  "request_buffer d = in_payload d @ replicate (TST_PKT_SIZE - length (in_payload d)) 0"

definition answer :: "server \<Rightarrow> incoming \<Rightarrow> u8 list" where
  "answer s d =
     take (length (in_payload d))
       (reflector_packet_bytes (fst (craftReflectorPacket (client_packet_of_bytes (request_buffer d))
          (in_control d) (get_kernel_timestamp (in_control d) \<lparr>tv_sec = 0, tv_nsec = 0\<rparr>) s)))"

lemma listen_body_reflects:
  assumes "ev_recv ev = Recv_msg d" and "length (in_payload d) \<le> TST_PKT_SIZE"
    and "stoi (sa_local_port (sv_args s)) = Inr lp"
  shows "\<exists>s'. listen_body env ev s = (None, s') \<and> sv_args s' = sv_args s \<and>
     sv_network s' = sv_network s @ (if ev_send_error ev = None then [(in_name d, answer s d)] else [])"
proof -
  let ?m = "server_msghdr\<lparr>msg_iov := [(request_buffer d, TST_PKT_SIZE)],
        msg_name := in_name d, msg_control := in_control d, msg_trunc := False\<rparr>"
  let ?t = "get_kernel_timestamp (in_control d) \<lparr>tv_sec = 0, tv_nsec = 0\<rparr>"
  obtain s' where "handleTestPacket env (ev_send_error ev) (client_packet_of_bytes (request_buffer d)) ?m
        (length (in_payload d)) ?t s = Inr s'" "sv_args s' = sv_args s"
      "sv_network s' = sv_network s @ (if ev_send_error ev = None then [(in_name d, answer s d)] else [])"
    using handleTestPacket_sends [OF assms(3,2), of env "ev_send_error ev"
        "client_packet_of_bytes (request_buffer d)" ?m ?t] by (auto simp: answer_def)
  then show ?thesis
    using server_recv [OF assms(2)]
    by (simp add: listen_body_def assms(1) request_buffer_def Let_def)
qed

lemma listen_body_truncated:
  assumes "ev_recv ev = Recv_msg d" and "TST_PKT_SIZE < length (in_payload d)"
  shows "listen_body env ev s =
     (None, s\<lparr>sv_stdout := sv_stdout s @ ''Datagram too large for buffer: truncated'' @ [CHR 0x0A]\<rparr>)"
  using assms by (simp add: listen_body_def server_msghdr_def make_msghdr_def Let_def)

definition is_msg :: "server_event \<Rightarrow> bool" where
  "is_msg ev \<longleftrightarrow> (\<exists>d. ev_recv ev = Recv_msg d)"

definition is_answered :: "server_event \<Rightarrow> bool" where
  "is_answered ev \<longleftrightarrow>
     (case ev_recv ev of Recv_error _ \<Rightarrow> False
      | Recv_msg d \<Rightarrow> length (in_payload d) \<le> TST_PKT_SIZE \<and> ev_send_error ev = None)"

fun ev_source :: "recv_result \<Rightarrow> u8 list" where
  "ev_source (Recv_error e) = []"
| "ev_source (Recv_msg d) = in_name d"

fun ev_length :: "recv_result \<Rightarrow> nat" where
  "ev_length (Recv_error e) = 0"
| "ev_length (Recv_msg d) = length (in_payload d)"

lemma length_answer: "length (in_payload d) \<le> TST_PKT_SIZE \<Longrightarrow> length (answer s d) = length (in_payload d)"
  using craftReflectorPacket_wf length_reflector_packet_bytes by (simp add: answer_def)

text \<open>A datagram never ends the loop, and is answered or not; answers go to the source and have the
  length of the datagram.\<close>

lemma listen_body_msg:
  assumes "is_msg ev" and "stoi (sa_local_port (sv_args s)) = Inr lp"
  shows "\<exists>s' out. listen_body env ev s = (None, s') \<and> sv_args s' = sv_args s \<and>
     sv_network s' = sv_network s @ out \<and>
     map (\<lambda>(dst, bytes). (dst, length bytes)) out =
       (if is_answered ev then [(ev_source (ev_recv ev), ev_length (ev_recv ev))] else [])"
proof -
  obtain d where d: "ev_recv ev = Recv_msg d" using assms(1) by (auto simp: is_msg_def)
  show ?thesis
  proof (cases "length (in_payload d) \<le> TST_PKT_SIZE")
    case True
    from listen_body_reflects [OF d True assms(2), of env] show ?thesis
      using True by (auto simp: is_answered_def d length_answer)
  next
    case False
    then show ?thesis
      using listen_body_truncated [OF d, of env s] by (auto simp: is_answered_def d)
  qed
qed

section \<open>The loop\<close>

definition answers_to :: "server_event list \<Rightarrow> (u8 list \<times> nat) list" where
  "answers_to evs = map (\<lambda>ev. (ev_source (ev_recv ev), ev_length (ev_recv ev))) (filter is_answered evs)"

lemma next_counter_word:
  assumes "sa_num_samples a \<noteq> 0" and "sa_num_samples a \<noteq> 4294967295" and "k \<le> unat (sa_num_samples a)"
  shows "next_counter a (of_nat k) = of_nat (Suc k)"
    and "samples_done a (of_nat (Suc k)) \<longleftrightarrow> k = unat (sa_num_samples a)"
proof -
  show "next_counter a (of_nat k) = of_nat (Suc k)"
    using assms(1) by (simp add: next_counter_def)
  have "unat (sa_num_samples a) \<noteq> unat (4294967295 :: u32)" using assms(2) by (metis word_unat_eq_iff)
  then have "unat (sa_num_samples a) < 2 ^ 32 - 1"
    using unsigned_less [of "sa_num_samples a", where 'a = nat] by simp
  then have "unat (of_nat (Suc k) :: u32) = Suc k"
    using assms(3) unfolding unat_of_nat by simp
  then show "samples_done a (of_nat (Suc k)) \<longleftrightarrow> k = unat (sa_num_samples a)"
    using assms(1,3) by (auto simp: samples_done_def word_less_nat_alt)
qed

lemma listen_from_counts:
  assumes "sa_num_samples (sv_args s) \<noteq> 0" and "sa_num_samples (sv_args s) \<noteq> 4294967295"
    and "stoi (sa_local_port (sv_args s)) = Inr lp"
    and "k \<le> unat (sa_num_samples (sv_args s))"
    and "unat (sa_num_samples (sv_args s)) - k \<le> length evs"
    and "\<forall>ev \<in> set (take (unat (sa_num_samples (sv_args s)) - k) evs). is_msg ev"
  shows "\<exists>s' out. listen_from env (of_nat k) evs s = (Returned 0, s') \<and>
     sv_network s' = sv_network s @ out \<and>
     map (\<lambda>(dst, bytes). (dst, length bytes)) out =
       answers_to (take (unat (sa_num_samples (sv_args s)) - k) evs)"
  using assms
proof (induction evs arbitrary: k s)
  case Nil
  then have "k = unat (sa_num_samples (sv_args s))" by simp
  with Nil.prems next_counter_word [of "sv_args s" k] show ?case by (simp add: answers_to_def)
next
  case (Cons ev evs)
  show ?case
  proof (cases "k = unat (sa_num_samples (sv_args s))")
    case True
    with Cons.prems next_counter_word [of "sv_args s" k] show ?thesis by (simp add: answers_to_def)
  next
    case False
    let ?n = "unat (sa_num_samples (sv_args s))"
    have k: "?n - k = Suc (?n - Suc k)" using False Cons.prems(4) by simp
    with Cons.prems(6) have "is_msg ev" by simp
    from listen_body_msg [OF this Cons.prems(3), of env] obtain s1 out1 where
      s1: "listen_body env ev s = (None, s1)" "sv_args s1 = sv_args s" "sv_network s1 = sv_network s @ out1"
        "map (\<lambda>(dst, bytes). (dst, length bytes)) out1 = answers_to [ev]"
      by (auto simp: answers_to_def)
    have "\<exists>s' out. listen_from env (of_nat (Suc k)) evs s1 = (Returned 0, s') \<and>
        sv_network s' = sv_network s1 @ out \<and>
        map (\<lambda>(dst, bytes). (dst, length bytes)) out = answers_to (take (unat (sa_num_samples (sv_args s1)) - Suc k) evs)"
      using Cons.prems k False unfolding s1(2) [symmetric] by (intro Cons.IH) (simp_all add: s1(2))
    then obtain s' out where
      s': "listen_from env (of_nat (Suc k)) evs s1 = (Returned 0, s')" "sv_network s' = sv_network s1 @ out"
        "map (\<lambda>(dst, bytes). (dst, length bytes)) out = answers_to (take (?n - Suc k) evs)"
      by (auto simp: s1(2))
    have "listen_from env (of_nat k) (ev # evs) s = (Returned 0, s')"
      using Cons.prems(1,2,4) next_counter_word [of "sv_args s" k] False s1(1) s'(1)
      by (simp del: of_nat_Suc)
    then show ?thesis
      using s1 s' by (intro exI [of _ s'] exI [of _ "out1 @ out"]) (simp add: k answers_to_def)
  qed
qed

section \<open>What the reflector promises\<close>

definition sample_env :: server_env where
  "sample_env = \<lparr>env_getaddrinfo = (\<lambda>h p f. Inr (replicate 28 0)), env_socket = (\<lambda>f. None),
     env_setsockopt = (\<lambda>opt. True), env_bind = (\<lambda>a. None), env_strerror = (\<lambda>e. ''error''),
     env_inet_ntop = (\<lambda>v a. Some ''10.0.0.1'')\<rparr>"

definition sample_server :: server where
  "sample_server = \<lparr>sv_header_printed = False, sv_args = server_args_default\<lparr>sa_num_samples := 2\<rparr>,
     sv_clock = \<lparr>readings = (\<lambda>n. \<lparr>tv_sec = 1700000000, tv_nsec = int n\<rparr>), ticks = 0\<rparr>,
     sv_stdout = [], sv_stderr = [], sv_network = []\<rparr>"

definition sample_datagram :: "nat \<Rightarrow> incoming" where
  "sample_datagram n = \<lparr>in_payload = replicate n 7, in_name = replicate 28 1, in_control = []\<rparr>"

definition sample_event :: "nat \<Rightarrow> server_event" where
  "sample_event n = \<lparr>ev_recv = Recv_msg (sample_datagram n), ev_send_error = None\<rparr>"

lemmas sample_server_simps = sample_env_def sample_server_def sample_datagram_def sample_event_def
  server_args_default_def TST_PKT_SIZE_def

lemma sample_stoi: "stoi (sa_local_port (sv_args sample_server)) = Inr 443"
  by (simp add: sample_server_def server_args_default_def) code_simp

lemma answer_bytes:
  assumes "length (in_payload d) \<le> TST_PKT_SIZE"
  shows "answer s d = take (length (in_payload d))
     (take 4 (request_buffer d) @
      timestamp_bytes (htonts (timespec_to_timestamp (send_time (get_kernel_timestamp (in_control d) \<lparr>tv_sec = 0, tv_nsec = 0\<rparr>) (sv_clock s)))) @ [0x80, 0x01] @ [0, 0] @
      timestamp_bytes (htonts (timespec_to_timestamp (receive_time (get_kernel_timestamp (in_control d) \<lparr>tv_sec = 0, tv_nsec = 0\<rparr>) (sv_clock s)))) @
      take 14 (request_buffer d) @ [0, 0] @
      [ttl (fst (get_ip_header (in_control d))), tos (fst (get_ip_header (in_control d)))] @ replicate 1430 0)"
  unfolding answer_def
  by (subst reflector_bytes_of_request) (use assms in \<open>simp_all add: request_buffer_def\<close>)

text \<open>
  C1: A datagram of 42 to 1472 bytes is answered with exactly one datagram, sent to the address it
  came from and of the same length. Its header is the request's sequence number, the send time, the
  error estimate 0x8001 and two zero bytes, the receive time (the kernel's, if it gave one), the
  first 14 bytes of the request, two zero bytes, and the TTL and TOS the request arrived with; the
  rest is zero: nothing of the request's payload is reflected.
\<close>

theorem reflected_packet:
  assumes "ev_recv ev = Recv_msg d" and "ev_send_error ev = None"
    and "42 \<le> length (in_payload d)" and "length (in_payload d) \<le> TST_PKT_SIZE"
    and "stoi (sa_local_port (sv_args s)) = Inr lp"
    and "t = get_kernel_timestamp (in_control d) \<lparr>tv_sec = 0, tv_nsec = 0\<rparr>"
  shows "\<exists>s'. listen_body env ev s = (None, s') \<and>
     sv_network s' = sv_network s @ [(in_name d,
       take 4 (in_payload d) @
       timestamp_bytes (htonts (timespec_to_timestamp (send_time t (sv_clock s)))) @
       [0x80, 0x01, 0, 0] @
       timestamp_bytes (htonts (timespec_to_timestamp (receive_time t (sv_clock s)))) @
       take 14 (in_payload d) @ [0, 0] @
       [ttl (fst (get_ip_header (in_control d))), tos (fst (get_ip_header (in_control d)))] @
       replicate (length (in_payload d) - 42) 0)]"
proof -
  have "answer s d =
       take 4 (in_payload d) @
       timestamp_bytes (htonts (timespec_to_timestamp (send_time t (sv_clock s)))) @
       [0x80, 0x01, 0, 0] @
       timestamp_bytes (htonts (timespec_to_timestamp (receive_time t (sv_clock s)))) @
       take 14 (in_payload d) @ [0, 0] @
       [ttl (fst (get_ip_header (in_control d))), tos (fst (get_ip_header (in_control d)))] @
       replicate (length (in_payload d) - 42) 0"
    using assms(3,4) unfolding answer_bytes [OF assms(4)] assms(6) [symmetric]
    by (simp add: request_buffer_def TST_PKT_SIZE_def take_Cons')
  then show ?thesis
    using listen_body_reflects [OF assms(1,4,5), of env] assms(2) by auto
qed

theorem reflected_packet_witness:
  "\<exists>s'. listen_body sample_env (sample_event 42) sample_server = (None, s') \<and> length (sv_network s') = 1"
proof -
  have "length (in_payload (sample_datagram 42)) = 42" by (simp add: sample_datagram_def)
  then show ?thesis
    using reflected_packet [of "sample_event 42" "sample_datagram 42" sample_server 443, OF _ _ _ _ sample_stoi refl,
        of sample_env]
    by (auto simp: sample_event_def TST_PKT_SIZE_def sample_server_def)
qed

text \<open>
  C15: With \<^verbatim>\<open>num_samples\<close> set to n (neither 0 nor the largest 32-bit value), \<^verbatim>\<open>listen\<close> returns 0 after
  exactly n received datagrams, whatever arrives later; it has answered the ones that fit its buffer
  and whose answer could be sent, in order, to their sources and with their lengths. A datagram that
  was too long counts as a sample.
\<close>

theorem listen_num_samples:
  assumes "sa_num_samples (sv_args s) \<noteq> 0" and "sa_num_samples (sv_args s) \<noteq> 4294967295"
    and "stoi (sa_local_port (sv_args s)) = Inr lp"
    and "length evs = unat (sa_num_samples (sv_args s))" and "\<forall>ev \<in> set evs. is_msg ev"
  shows "\<exists>s' out. listen env (evs @ later) s = (Returned 0, s') \<and>
     sv_network s' = sv_network s @ out \<and>
     map (\<lambda>(dst, bytes). (dst, length bytes)) out = answers_to evs"
  using listen_from_counts [of s lp 0 "evs @ later" env] assms by (simp add: listen_def)

theorem listen_num_samples_witness:
  "\<exists>s' out. listen sample_env [sample_event 42, sample_event 1473] sample_server = (Returned 0, s') \<and>
     map (\<lambda>(dst, bytes). (dst, length bytes)) out = [(replicate 28 1, 42)] \<and> sv_network s' = out"
proof -
  have "answers_to [sample_event 42, sample_event 1473] = [(replicate 28 1, 42)]"
    by (simp add: answers_to_def is_answered_def sample_server_simps)
  moreover have "sa_num_samples (sv_args sample_server) = 2" "sv_network sample_server = []"
    by (simp_all add: sample_server_def)
  moreover have "is_msg (sample_event n)" for n by (simp add: is_msg_def sample_event_def)
  ultimately show ?thesis
    using listen_num_samples [of sample_server 443 "[sample_event 42, sample_event 1473]" sample_env "[]"] sample_stoi
    by simp
qed

lemma never_done:
  assumes "sa_num_samples a = 0 \<or> sa_num_samples a = 4294967295"
  shows "\<not> samples_done a c"
proof -
  have "\<not> (4294967295 :: u32) < c"
    using unsigned_less [of c, where 'a = nat] by (simp add: word_less_nat_alt)
  then show ?thesis using assms by (auto simp: samples_done_def)
qed

lemma listen_from_unlimited:
  assumes "sa_num_samples (sv_args s) = 0 \<or> sa_num_samples (sv_args s) = 4294967295"
    and "stoi (sa_local_port (sv_args s)) = Inr lp" and "\<forall>ev \<in> set evs. is_msg ev"
  shows "\<exists>s'. listen_from env c evs s = (Blocked, s')"
  using assms
proof (induction evs arbitrary: c s)
  case Nil
  then show ?case by (simp add: never_done)
next
  case (Cons ev evs)
  obtain s1 where "listen_body env ev s = (None, s1)" "sv_args s1 = sv_args s"
    using listen_body_msg [of ev s lp env] Cons.prems by auto
  then show ?case
    using Cons.IH [of s1 "next_counter (sv_args s) c"] Cons.prems by (simp add: never_done Let_def)
qed

text \<open>
  With \<^verbatim>\<open>num_samples\<close> 0, meaning no limit, and also with 4294967295, where the 32-bit counter wraps
  before it can exceed the limit, \<^verbatim>\<open>listen\<close> never returns while datagrams arrive: after any number of
  them it waits for the next.
\<close>

theorem listen_never_returns:
  assumes "sa_num_samples (sv_args s) = 0 \<or> sa_num_samples (sv_args s) = 4294967295"
    and "stoi (sa_local_port (sv_args s)) = Inr lp" and "\<forall>ev \<in> set evs. is_msg ev"
  shows "fst (listen env evs s) = Blocked"
  using listen_from_unlimited [OF assms, of env 0] by (auto simp: listen_def)

theorem listen_never_returns_witness:
  "fst (listen sample_env [sample_event 42] (sample_server\<lparr>sv_args := server_args_default\<lparr>sa_num_samples := 4294967295\<rparr>\<rparr>)) = Blocked"
  by (rule listen_never_returns [where lp = 443])
    (use sample_stoi in \<open>simp_all add: sample_server_def is_msg_def sample_event_def\<close>)

lemma listen_body_error:
  assumes "ev_recv ev = Recv_error e"
  shows "\<exists>s'. listen_body env ev s = (Some (Returned (if e = 11 then 11 else 1)), s') \<and>
     sv_network s' = sv_network s \<and>
     sv_stderr s' = sv_stderr s @ [if e = 11 then ''Socket timed out.'' else env_strerror env e]"
  using assms by (auto simp: listen_body_def Let_def split: prod.split)

lemma samples_left:
  assumes "sa_num_samples a = 0 \<or> k < unat (sa_num_samples a)"
  shows "\<not> samples_done a (next_counter a (of_nat k))"
proof -
  have "unat (of_nat (Suc k) :: u32) = Suc k" if "k < unat (sa_num_samples a)"
    using that unsigned_less [of "sa_num_samples a", where 'a = nat] unfolding unat_of_nat by simp
  then show ?thesis
    using assms by (auto simp: samples_done_def next_counter_def word_less_nat_alt add.commute)
qed

lemma listen_from_error:
  assumes "stoi (sa_local_port (sv_args s)) = Inr lp" and "\<forall>ev \<in> set evs. is_msg ev"
    and "sa_num_samples (sv_args s) = 0 \<or> k + length evs < unat (sa_num_samples (sv_args s))"
    and "ev_recv ev = Recv_error e"
  shows "\<exists>s' errs. listen_from env (of_nat k) (evs @ ev # later) s = (Returned (if e = 11 then 11 else 1), s') \<and>
     sv_stderr s' = errs @ [if e = 11 then ''Socket timed out.'' else env_strerror env e]"
  using assms
proof (induction evs arbitrary: k s)
  case Nil
  have "\<not> samples_done (sv_args s) (next_counter (sv_args s) (of_nat k))"
    using Nil.prems(3) samples_left [of "sv_args s" k] by auto
  then show ?case
    using listen_body_error [OF Nil.prems(4), of env s] by (auto simp: Let_def)
next
  case (Cons x evs)
  obtain s1 where s1: "listen_body env x s = (None, s1)" "sv_args s1 = sv_args s"
    using listen_body_msg [of x s lp env] Cons.prems by auto
  have "\<not> samples_done (sv_args s) (next_counter (sv_args s) (of_nat k))"
    using Cons.prems(3) samples_left [of "sv_args s" k] by auto
  moreover obtain k' where "next_counter (sv_args s) (of_nat k) = of_nat k'"
      "sa_num_samples (sv_args s) = 0 \<or> k' = Suc k"
    by (cases "sa_num_samples (sv_args s) = 0") (force simp: next_counter_def)+
  ultimately show ?case
    using Cons.IH [of s1 k'] Cons.prems s1 by (auto simp: Let_def)
qed

text \<open>
  C27: The first failing receive ends \<^verbatim>\<open>listen\<close>, before the sample limit is reached: with 11 when the
  receive timed out, with 1 on any other error, and the message is the last line written to the
  standard error.
\<close>

theorem listen_error_code:
  assumes "stoi (sa_local_port (sv_args s)) = Inr lp" and "\<forall>ev \<in> set evs. is_msg ev"
    and "sa_num_samples (sv_args s) = 0 \<or> length evs < unat (sa_num_samples (sv_args s))"
    and "ev_recv ev = Recv_error e"
  shows "\<exists>s' errs. listen env (evs @ ev # later) s = (Returned (if e = 11 then 11 else 1), s') \<and>
     sv_stderr s' = errs @ [if e = 11 then ''Socket timed out.'' else env_strerror env e]"
  using listen_from_error [OF assms(1,2) _ assms(4), of 0 env later] assms(3) by (simp add: listen_def)

theorem listen_error_code_witness:
  "\<exists>s' errs. listen sample_env [sample_event 42, \<lparr>ev_recv = Recv_error 11, ev_send_error = None\<rparr>] sample_server =
       (Returned 11, s') \<and> sv_stderr s' = errs @ [''Socket timed out.'']"
proof -
  have "sa_num_samples (sv_args sample_server) = 2" by (simp add: sample_server_def)
  moreover have "is_msg (sample_event n)" for n by (simp add: is_msg_def sample_event_def)
  ultimately show ?thesis
    using listen_error_code [of sample_server 443 "[sample_event 42]" "\<lparr>ev_recv = Recv_error 11, ev_send_error = None\<rparr>" 11
        sample_env "[]"] sample_stoi by simp
qed

text \<open>
  Construction succeeds exactly when the IP version is 4 or 6, the local address resolves in the
  family of that version, and the socket is created and bound. The server then has the given
  arguments, has printed and sent nothing, and its socket is the fresh one with the options for TTL
  255 and the receive timeout and then the TOS applied; a failing \<^verbatim>\<open>setsockopt\<close> is only reported.
\<close>

theorem server_construction:
  "Server env a clk fresh = Inr (s, fd) \<longleftrightarrow>
     (sa_ip_version a = 4 \<or> sa_ip_version a = 6) \<and>
     (\<exists>addr. env_getaddrinfo env (if sa_local_host a = [] then None else Some (sa_local_host a)) (sa_local_port a)
               (if sa_ip_version a = 4 then 2 else 10) = Inr addr \<and> env_bind env addr = None) \<and>
     env_socket env (if sa_ip_version a = 4 then 2 else 10) = None \<and>
     (\<exists>fd1 err1 err2. set_socket_options (env_setsockopt env) 255 (sa_timeout a) fresh = (fd1, err1) \<and>
        set_socket_tos (env_setsockopt env) (sa_snd_tos a) fd1 = (fd, err2) \<and>
        s = \<lparr>sv_header_printed = False, sv_args = a, sv_clock = clk, sv_stdout = [],
             sv_stderr = err1 @ err2, sv_network = []\<rparr>)"
  by (auto simp: Server_def AF_INET_def AF_INET6_def HDR_TTL_def Let_def split: sum.splits option.splits prod.splits)

end
