(* ===== verification/Packet_Lists.thy ===== *)
theory Packet_Lists
  imports Twamp_Prelude
begin

text \<open>
  The two mutex-protected queues of the client, \<^verbatim>\<open>ObservationList\<close> (\<^verbatim>\<open>include/packetlist.h\<close>) and
  \<^verbatim>\<open>RawDataList\<close> (\<^verbatim>\<open>include/Client.h\<close>), and their elements. Both are deques of shared pointers; the
  model is the list of the pointees, front first. The locale \<^verbatim>\<open>fifo\<close> is the contract the threads of
  the client rely on, and both queues are interpretations of it.
\<close>

section \<open>Observations\<close>

datatype observation_point =
    CLIENT_SEND | SERVER_RECEIVE | SERVER_SEND | CLIENT_RECEIVE | NUM_OBSERVATION_POINTS

record qed_observation =
  observation_point :: observation_point
  epoch_nanoseconds :: u64
  packet_id :: u32
  payload_len :: u16

text \<open>The constructor: the callers pass the payload length as \<^verbatim>\<open>size_t\<close> or \<^verbatim>\<open>ssize_t\<close>, converted to
  \<^verbatim>\<open>uint16_t\<close>.\<close>

definition QEDObservation :: "observation_point \<Rightarrow> u64 \<Rightarrow> u32 \<Rightarrow> int \<Rightarrow> qed_observation" where
  "QEDObservation pt ns i len =
     \<lparr>observation_point = pt, epoch_nanoseconds = ns, packet_id = i, payload_len = word_of_int len\<rparr>"

section \<open>Raw data\<close>

record raw_data =
  added_at_epoch_nanoseconds :: u64
  rd_packet_id :: u32
  rd_payload_len :: u16
  client_send_epoch_nanoseconds :: u64
  server_receive_epoch_nanoseconds :: u64
  server_send_epoch_nanoseconds :: u64
  client_receive_epoch_nanoseconds :: u64

definition RawData :: "u64 \<Rightarrow> u32 \<Rightarrow> raw_data" where
  "RawData added i =
     \<lparr>added_at_epoch_nanoseconds = added, rd_packet_id = i, rd_payload_len = 0,
      client_send_epoch_nanoseconds = 0, server_receive_epoch_nanoseconds = 0,
      server_send_epoch_nanoseconds = 0, client_receive_epoch_nanoseconds = 0\<rparr>"

definition setPayloadLen :: "u16 \<Rightarrow> raw_data \<Rightarrow> raw_data" where
  "setPayloadLen n r = r\<lparr>rd_payload_len := n\<rparr>"

definition setClientSendEpochNanoseconds :: "u64 \<Rightarrow> raw_data \<Rightarrow> raw_data" where
  "setClientSendEpochNanoseconds t r = r\<lparr>client_send_epoch_nanoseconds := t\<rparr>"

definition setServerReceiveEpochNanoseconds :: "u64 \<Rightarrow> raw_data \<Rightarrow> raw_data" where
  "setServerReceiveEpochNanoseconds t r = r\<lparr>server_receive_epoch_nanoseconds := t\<rparr>"

definition setServerSendEpochNanoseconds :: "u64 \<Rightarrow> raw_data \<Rightarrow> raw_data" where
  "setServerSendEpochNanoseconds t r = r\<lparr>server_send_epoch_nanoseconds := t\<rparr>"

definition setClientReceiveEpochNanoseconds :: "u64 \<Rightarrow> raw_data \<Rightarrow> raw_data" where
  "setClientReceiveEpochNanoseconds t r = r\<lparr>client_receive_epoch_nanoseconds := t\<rparr>"

lemmas raw_data_setters = setPayloadLen_def setClientSendEpochNanoseconds_def
  setServerReceiveEpochNanoseconds_def setServerSendEpochNanoseconds_def
  setClientReceiveEpochNanoseconds_def

section \<open>The queues\<close>

record observation_list =
  ol_observations :: "qed_observation list"

record raw_data_list =
  rl_observations :: "raw_data list"

text \<open>\<^verbatim>\<open>popObservation\<close> on an empty deque is undefined behaviour: \<^const>\<open>None\<close>.\<close>

definition ol_isEmpty :: "observation_list \<Rightarrow> bool" where
  "ol_isEmpty q \<longleftrightarrow> ol_observations q = []"

definition ol_addObservation :: "qed_observation \<Rightarrow> observation_list \<Rightarrow> observation_list" where
  "ol_addObservation obs q = q\<lparr>ol_observations := ol_observations q @ [obs]\<rparr>"

definition ol_popObservation :: "observation_list \<Rightarrow> (qed_observation \<times> observation_list) option" where
  "ol_popObservation q =
     (case ol_observations q of
        [] \<Rightarrow> None
      | obs # rest \<Rightarrow> Some (obs, q\<lparr>ol_observations := rest\<rparr>))"

definition ol_getOldestEntry :: "observation_list \<Rightarrow> qed_observation option" where
  "ol_getOldestEntry q = (case ol_observations q of [] \<Rightarrow> None | obs # _ \<Rightarrow> Some obs)"

definition ol_getSize :: "observation_list \<Rightarrow> nat" where
  "ol_getSize q = length (ol_observations q)"

definition rl_addObservation :: "raw_data \<Rightarrow> raw_data_list \<Rightarrow> raw_data_list" where
  "rl_addObservation r q = q\<lparr>rl_observations := rl_observations q @ [r]\<rparr>"

definition rl_popObservation :: "raw_data_list \<Rightarrow> (raw_data \<times> raw_data_list) option" where
  "rl_popObservation q =
     (case rl_observations q of
        [] \<Rightarrow> None
      | r # rest \<Rightarrow> Some (r, q\<lparr>rl_observations := rest\<rparr>))"

definition rl_getOldestEntry :: "raw_data_list \<Rightarrow> raw_data option" where
  "rl_getOldestEntry q = (case rl_observations q of [] \<Rightarrow> None | r # _ \<Rightarrow> Some r)"

section \<open>The contract of a queue\<close>

datatype 'a fifo_op = Add 'a | Pop

locale fifo =
  fixes add :: "'a \<Rightarrow> 'q \<Rightarrow> 'q"
    and pop :: "'q \<Rightarrow> ('a \<times> 'q) option"
    and oldest :: "'q \<Rightarrow> 'a option"
    and content :: "'q \<Rightarrow> 'a list"
  assumes content_add: "content (add x q) = content q @ [x]"
    and pop_Nil: "content q = [] \<Longrightarrow> pop q = None"
    and pop_Cons: "content q = x # xs \<Longrightarrow> \<exists>q'. pop q = Some (x, q') \<and> content q' = xs"
    and oldest_content: "oldest q = (case content q of [] \<Rightarrow> None | x # _ \<Rightarrow> Some x)"
begin

text \<open>Any interleaving of additions and removals, with the elements removed; a removal from an empty
  queue stops the run.\<close>

fun run :: "'a fifo_op list \<Rightarrow> 'q \<Rightarrow> ('a list \<times> 'q) option" where
  "run [] q = Some ([], q)"
| "run (Add x # ops) q = run ops (add x q)"
| "run (Pop # ops) q =
     (case pop q of
        None \<Rightarrow> None
      | Some (x, q') \<Rightarrow> (case run ops q' of None \<Rightarrow> None | Some (xs, q'') \<Rightarrow> Some (x # xs, q'')))"

fun added :: "'a fifo_op list \<Rightarrow> 'a list" where
  "added [] = []"
| "added (Add x # ops) = x # added ops"
| "added (Pop # ops) = added ops"

lemma pop_Some: "pop q = Some (x, q') \<Longrightarrow> content q = x # content q'"
  using pop_Nil pop_Cons by (cases "content q") fastforce+

text \<open>Nothing is lost, duplicated or reordered.\<close>

lemma run_fifo: "run ops q = Some (xs, q') \<Longrightarrow> content q @ added ops = xs @ content q'"
proof (induction ops arbitrary: q xs)
  case Nil
  then show ?case by simp
next
  case (Cons op ops)
  show ?case
  proof (cases op)
    case (Add x)
    with Cons.prems Cons.IH show ?thesis by (fastforce simp: content_add)
  next
    case Pop
    with Cons.prems obtain x q1 ys where "pop q = Some (x, q1)" "run ops q1 = Some (ys, q')"
      and "xs = x # ys" by (auto split: option.splits)
    with Cons.IH [of q1 ys] pop_Some Pop show ?thesis by simp
  qed
qed

lemma oldest_pop: "oldest q = map_option fst (pop q)"
  using pop_Nil pop_Cons by (cases "content q") (fastforce simp: oldest_content)+

end

interpretation ol: fifo ol_addObservation ol_popObservation ol_getOldestEntry ol_observations
  by unfold_locales
     (auto simp: ol_addObservation_def ol_popObservation_def ol_getOldestEntry_def split: list.splits)

interpretation rl: fifo rl_addObservation rl_popObservation rl_getOldestEntry rl_observations
  by unfold_locales
     (auto simp: rl_addObservation_def rl_popObservation_def rl_getOldestEntry_def split: list.splits)

text \<open>
  C18: Both queues of the client are first in, first out: in any interleaving of
  \<^verbatim>\<open>addObservation\<close> and \<^verbatim>\<open>popObservation\<close> calls that pops no empty queue, what the queue held at the
  start followed by what was added is what was popped followed by what it holds at the end, in
  this order; and \<^verbatim>\<open>getOldestEntry\<close> returns the entry that the next \<^verbatim>\<open>popObservation\<close> removes.
\<close>

theorem queues_fifo:
  "(\<forall>ops q xs q'. ol.run ops q = Some (xs, q') \<longrightarrow>
      ol_observations q @ ol.added ops = xs @ ol_observations q')
   \<and> (\<forall>ops q xs q'. rl.run ops q = Some (xs, q') \<longrightarrow>
      rl_observations q @ rl.added ops = xs @ rl_observations q')
   \<and> (\<forall>q. ol_getOldestEntry q = map_option fst (ol_popObservation q))
   \<and> (\<forall>q. rl_getOldestEntry q = map_option fst (rl_popObservation q))"
  using ol.run_fifo rl.run_fifo ol.oldest_pop rl.oldest_pop by blast

theorem queues_fifo_witness:
  "rl.run [Add (RawData 0 1), Add (RawData 0 2), Pop] \<lparr>rl_observations = [RawData 0 0]\<rparr> = Some ([RawData 0 0], \<lparr>rl_observations = [RawData 0 1, RawData 0 2]\<rparr>)
   \<and> [RawData 0 0] @ rl.added [Add (RawData 0 1), Add (RawData 0 2), Pop] = [RawData 0 0] @ [RawData 0 1, RawData 0 2]"
proof
  show r: "rl.run [Add (RawData 0 1), Add (RawData 0 2), Pop] \<lparr>rl_observations = [RawData 0 0]\<rparr> =
      Some ([RawData 0 0], \<lparr>rl_observations = [RawData 0 1, RawData 0 2]\<rparr>)"
    by (simp add: rl_addObservation_def rl_popObservation_def)
  show "[RawData 0 0] @ rl.added [Add (RawData 0 1), Add (RawData 0 2), Pop] = [RawData 0 0] @ [RawData 0 1, RawData 0 2]"
    using queues_fifo r by fastforce
qed

end
