(* ===== verification/Client_State.thy ===== *)
theory Client_State
  imports Sockets Packets Packet_Lists
begin

text \<open>
  The state of the client: \<^verbatim>\<open>Args\<close> and the class \<^verbatim>\<open>Client\<close> of \<^verbatim>\<open>include/Client.h\<close>, together with what
  the methods read and write outside the object (system clock, standard output and error, the
  datagrams handed to the socket). The statistics objects belong to the qoo-c library, which is not
  part of the repository: their type is the type variable \<open>'st\<close> and their operations are the fields
  of \<^verbatim>\<open>sqa_api\<close>, an argument of the functions that call them.
\<close>

section \<open>Arguments\<close>

record client_args =
  ca_remote_hosts :: "string list"
  ca_remote_ports :: "u16 list"
  ca_local_host :: string
  ca_local_port :: string
  ca_ip_version :: u8
  ca_payload_lens :: "int list"
  ca_snd_tos :: u8
  ca_dscp_snd :: u8
  ca_num_samples :: u32
  ca_mean_inter_packet_delay_ms :: u32
  ca_timeout :: u8
  ca_seed :: u32
  ca_runtime :: u32
  ca_sep :: char
  ca_print_digest :: bool
  ca_print_RTT_only :: bool
  ca_print_lost_packets :: bool
  ca_constant_inter_packet_delay :: bool
  ca_print_format :: string
  ca_json_output_file :: string

definition client_args_default :: client_args where
  "client_args_default =
     \<lparr>ca_remote_hosts = [], ca_remote_ports = [], ca_local_host = '''', ca_local_port = ''0'',
      ca_ip_version = 4, ca_payload_lens = [50, 250, 450, 650, 850, 1050, 1250, 1400],
      ca_snd_tos = 0, ca_dscp_snd = 0, ca_num_samples = 10, ca_mean_inter_packet_delay_ms = 200,
      ca_timeout = 10, ca_seed = 0, ca_runtime = 0, ca_sep = CHR '','', ca_print_digest = False,
      ca_print_RTT_only = False, ca_print_lost_packets = False,
      ca_constant_inter_packet_delay = False, ca_print_format = ''legacy'',
      ca_json_output_file = ''''\<rparr>"

section \<open>Statistics (qoo-c)\<close>

text \<open>
  \<^verbatim>\<open>sqa_number_of_samples\<close> and \<^verbatim>\<open>sqa_number_of_lost_packets\<close> are the members the client reads, after
  its cast to \<^verbatim>\<open>uint64_t\<close>.
\<close>

record 'st sqa_api =
  sqa_stats_add_sample :: "'st \<Rightarrow> timespec \<Rightarrow> 'st"
  sqa_stats_count_loss :: "'st \<Rightarrow> 'st"
  sqa_number_of_samples :: "'st \<Rightarrow> u64"
  sqa_number_of_lost_packets :: "'st \<Rightarrow> u64"

section \<open>The client object\<close>

record 'st client =
  sent_packets :: int
  received_packets :: int
  last_received_packet_id :: int
  sending_completed :: u64
  start_time :: u64
  collator_started :: int
  collator_finished :: int
  observation_list :: observation_list
  remote_address_info :: "u8 list list"
  stats_RTT :: 'st
  stats_internal :: 'st
  stats_client_server :: 'st
  stats_server_client :: 'st
  raw_data_list :: raw_data_list
  first_packet_sent_epoch_nanoseconds :: u64
  last_packet_sent_epoch_nanoseconds :: u64
  last_packet_received_epoch_nanoseconds :: u64
  args :: client_args
  clock :: sys_clock
  stdout :: string
  stderr :: "string list"
  network :: "(u8 list \<times> u8 list) list"

text \<open>The object after construction, before the threads start.\<close>

definition client_init :: "client_args \<Rightarrow> u8 list list \<Rightarrow> u64 \<Rightarrow> 'st \<Rightarrow> sys_clock \<Rightarrow> 'st client" where
  "client_init a addrs now st clk =
     \<lparr>sent_packets = 0, received_packets = 0, last_received_packet_id = -1, sending_completed = 0,
      start_time = now, collator_started = 0, collator_finished = 0,
      observation_list = \<lparr>ol_observations = []\<rparr>, remote_address_info = addrs, stats_RTT = st,
      stats_internal = st, stats_client_server = st, stats_server_client = st,
      raw_data_list = \<lparr>rl_observations = []\<rparr>, first_packet_sent_epoch_nanoseconds = 0,
      last_packet_sent_epoch_nanoseconds = 0, last_packet_received_epoch_nanoseconds = 0, args = a,
      clock = clk, stdout = [], stderr = [], network = []\<rparr>"

definition print :: "string \<Rightarrow> 'st client \<Rightarrow> 'st client" where
  "print s c = c\<lparr>stdout := stdout c @ s\<rparr>"

text \<open>\<^verbatim>\<open>get_timestamp\<close> on the client's clock.\<close>

definition now_timestamp :: "'st client \<Rightarrow> timestamp \<times> 'st client" where
  "now_timestamp c = (case get_timestamp (clock c) of (ts, k) \<Rightarrow> (ts, c\<lparr>clock := k\<rparr>))"

definition now_seconds :: "'st client \<Rightarrow> u64 \<times> 'st client" where
  "now_seconds c = (case time_null (clock c) of (s, k) \<Rightarrow> (s, c\<lparr>clock := k\<rparr>))"

definition enqueue_observation :: "qed_observation \<Rightarrow> 'st client \<Rightarrow> 'st client" where
  "enqueue_observation obs c = c\<lparr>observation_list := ol_addObservation obs (observation_list c)\<rparr>"

text \<open>The reading the next call of the clock returns, as a nanosecond count.\<close>

definition next_nsec :: "'st client \<Rightarrow> u64" where
  "next_nsec c = timestamp_to_nsec (timespec_to_timestamp (readings (clock c) (ticks (clock c))))"

definition tick :: "'st client \<Rightarrow> 'st client" where
  "tick c = c\<lparr>clock := (clock c)\<lparr>ticks := Suc (ticks (clock c))\<rparr>\<rparr>"

lemma now_timestamp_eq:
  "now_timestamp c = (timespec_to_timestamp (readings (clock c) (ticks (clock c))), tick c)"
  by (simp add: now_timestamp_def tick_def get_timestamp_def clock_gettime_def)

lemma now_seconds_eq:
  "now_seconds c = (word_of_int (tv_sec (readings (clock c) (ticks (clock c)))), tick c)"
  by (simp add: now_seconds_def tick_def time_null_def clock_gettime_def)

end
