(* ===== verification/Sender.thy ===== *)
theory Sender
  imports Client_State
begin

text \<open>
  The sender of the client (\<^verbatim>\<open>src/client/Client.cpp\<close>): \<^verbatim>\<open>craftSenderPacket\<close>, \<^verbatim>\<open>sendPacket\<close> and
  \<^verbatim>\<open>runSenderThread\<close>, with \<^verbatim>\<open>select_randomly\<close> of \<^verbatim>\<open>include/utils.hpp\<close>. The random generators of the
  standard library are a parameter (\<^verbatim>\<open>rng_api\<close>), and so are the outcomes of \<^verbatim>\<open>sendmsg\<close>
  (\<^verbatim>\<open>sender_os\<close>). The theorems are about the datagrams, the counters and the observations a run
  leaves, about the pauses between packets, and about when the thread ends.
\<close>

section \<open>Environment\<close>

text \<open>
  The distributions of the standard library: \<^verbatim>\<open>uniform_int rng n\<close> draws from 0 to \<open>n\<close>, and
  \<^verbatim>\<open>exponential rng lambda\<close> draws with rate \<open>lambda\<close>, where \<^const>\<open>None\<close> is the infinity that
  \<^verbatim>\<open>1.0 / 0.0\<close> gives. \<^verbatim>\<open>random_device rng k\<close> is the value of the \<open>k\<close>-th use of a \<^verbatim>\<open>std::random_device\<close>.
\<close>

record 'g rng_api =
  mt19937 :: "u32 \<Rightarrow> 'g"
  random_device :: "nat \<Rightarrow> u32"
  uniform_int :: "int \<Rightarrow> 'g \<Rightarrow> int \<times> 'g"
  exponential :: "double option \<Rightarrow> 'g \<Rightarrow> double \<times> 'g"

text \<open>
  \<^verbatim>\<open>os_sendmsg os k\<close> is the error number of the \<open>k\<close>-th \<^verbatim>\<open>sendmsg\<close> call, if it fails;
  \<^verbatim>\<open>os_beyond os\<close> are the bytes of the stack that follow the packet object.
\<close>

record sender_os =
  os_sendmsg :: "nat \<Rightarrow> int option"
  os_strerror :: "int \<Rightarrow> string"
  os_beyond :: "nat \<Rightarrow> u8"

text \<open>
  What the thread keeps outside the client object: the engine \<^verbatim>\<open>gen\<close>, the static engine of
  \<^verbatim>\<open>select_randomly\<close> once it is initialised, the numbers of \<^verbatim>\<open>random_device\<close> and \<^verbatim>\<open>sendmsg\<close> calls, and
  the arguments of the \<^verbatim>\<open>usleep\<close> calls.
\<close>

record 'g sender_env =
  se_gen :: 'g
  se_select_gen :: "'g option"
  se_draws :: nat
  se_sends :: nat
  se_slept :: "u32 list"

text \<open>The message \<^verbatim>\<open>what()\<close> of an exception.\<close>

fun what :: "cxx_exn \<Rightarrow> string" where
  "what Invalid_argument = ''stoi''"
| "what Out_of_range = ''stoi''"
| "what (Runtime_error msg) = msg"

section \<open>Operations\<close>

definition select_randomly ::
  "'g rng_api \<Rightarrow> 'a list \<Rightarrow> u32 \<Rightarrow> 'g sender_env \<Rightarrow> 'a \<times> 'g sender_env" where
  "select_randomly rng xs seed e =
     (let (gen, e) =
            (case se_select_gen e of
               Some g \<Rightarrow> (g, e)
             | None \<Rightarrow>
                 if seed = 0 then (mt19937 rng (random_device rng (se_draws e)), e\<lparr>se_draws := Suc (se_draws e)\<rparr>)
                 else (mt19937 rng seed, e));
          (i, gen) = uniform_int rng (int (length xs) - 1) gen
      in (xs ! nat i, e\<lparr>se_select_gen := Some gen\<rparr>))"

definition craftSenderPacket :: "u32 \<Rightarrow> 'st client \<Rightarrow> client_packet \<times> 'st client" where
  "craftSenderPacket idx c =
     (let packet = client_packet_zero\<lparr>cp_seq_number := htonl idx, cp_timestamp_error_estimate := htons 0x8001\<rparr>;
          (ts, c) = now_timestamp c
      in (packet\<lparr>cp_timestamp := htonts ts\<rparr>, c))"

text \<open>The \<^term>\<open>n\<close> bytes at the address of an object, with what follows it in memory.\<close>

definition iov_read :: "(nat \<Rightarrow> u8) \<Rightarrow> u8 list \<Rightarrow> nat \<Rightarrow> u8 list" where
  "iov_read beyond obj n = take n obj @ map beyond [0..<n - length obj]"

text \<open>The loop over the remote hosts; the result is the exception thrown, if any.\<close>

fun send_loop ::
  "sender_os \<Rightarrow> u8 list list \<Rightarrow> u8 list \<Rightarrow> 'g sender_env \<times> 'st client \<Rightarrow> cxx_exn option \<times> 'g sender_env \<times> 'st client" where
  "send_loop os [] bytes (e, c) = (None, e, c)"
| "send_loop os (rai # rais) bytes (e, c) =
     (case os_sendmsg os (se_sends e) of
        Some err \<Rightarrow>
          (Some (Runtime_error ''Sending UDP message failed with error.''),
           e\<lparr>se_sends := Suc (se_sends e)\<rparr>, c\<lparr>stderr := stderr c @ [os_strerror os err]\<rparr>)
      | None \<Rightarrow>
          send_loop os rais bytes
            (e\<lparr>se_sends := Suc (se_sends e)\<rparr>,
             c\<lparr>sent_packets := sent_packets c + 1, network := network c @ [(rai, bytes)]\<rparr>))"

definition sendPacket ::
  "sender_os \<Rightarrow> u32 \<Rightarrow> u64 \<Rightarrow> 'g sender_env \<times> 'st client \<Rightarrow> (cxx_exn + timestamp) \<times> 'g sender_env \<times> 'st client" where
  "sendPacket os idx len s =
     (case s of (e, c) \<Rightarrow>
        let (senderPacket, c) = craftSenderPacket idx c;
            bytes = iov_read (os_beyond os) (client_packet_bytes senderPacket) (unat len)
        in case send_loop os (remote_address_info c) bytes (e, c) of
             (Some x, s') \<Rightarrow> (Inl x, s')
           | (None, s') \<Rightarrow> (Inr (ntohts (cp_timestamp senderPacket)), s'))"

definition MAX_DELAY_MICROSECONDS :: double where
  "MAX_DELAY_MICROSECONDS = 10000000"

text \<open>The rate of the exponential distribution, per microsecond.\<close>

definition sender_rate :: "client_args \<Rightarrow> double option" where
  "sender_rate a =
     (let mean = d_mul (d_of_int (uint (ca_mean_inter_packet_delay_ms a))) 1000
      in if mean = 0 then None else Some (d_div 1 mean))"

definition next_delay :: "'g rng_api \<Rightarrow> client_args \<Rightarrow> 'g sender_env \<Rightarrow> u32 \<times> 'g sender_env" where
  "next_delay rng a e =
     (if ca_constant_inter_packet_delay a
      then (word_of_int (uint (ca_mean_inter_packet_delay_ms a) * 1000), e)
      else case exponential rng (sender_rate a) (se_gen e) of
             (x, gen) \<Rightarrow> (max (word_of_int (d_trunc (min x MAX_DELAY_MICROSECONDS))) 0, e\<lparr>se_gen := gen\<rparr>))"

text \<open>What follows a \<^verbatim>\<open>sendPacket\<close> call that returned.\<close>

definition note_sent :: "u32 \<Rightarrow> u64 \<Rightarrow> timestamp \<Rightarrow> 'st client \<Rightarrow> 'st client" where
  "note_sent index len sent_time c =
     (let c = (if first_packet_sent_epoch_nanoseconds c = 0
               then c\<lparr>first_packet_sent_epoch_nanoseconds := timestamp_to_nsec sent_time\<rparr> else c);
          c = c\<lparr>last_packet_sent_epoch_nanoseconds := timestamp_to_nsec sent_time\<rparr>
      in if collator_started c \<noteq> 0
         then enqueue_observation (QEDObservation CLIENT_SEND (timestamp_to_nsec sent_time) index (uint len)) c
         else c)"

text \<open>The body of the loop after the check of the runtime.\<close>

definition sender_round ::
  "sender_os \<Rightarrow> 'g rng_api \<Rightarrow> u32 \<Rightarrow> 'g sender_env \<times> 'st client \<Rightarrow> 'g sender_env \<times> 'st client" where
  "sender_round os rng index s =
     (case s of (e, c) \<Rightarrow>
        let (n, e) = select_randomly rng (ca_payload_lens (args c)) (ca_seed (args c)) e;
            len = word_of_int n;
            (delay, e) = next_delay rng (args c) e;
            e = e\<lparr>se_slept := se_slept e @ [delay]\<rparr>
        in case sendPacket os index len (e, c) of
             (Inr sent_time, e, c) \<Rightarrow> (e, note_sent index len sent_time c)
           | (Inl x, e, c) \<Rightarrow> (e, c\<lparr>stderr := stderr c @ [what x]\<rparr>))"

text \<open>The check of the runtime reads the clock only when a runtime is set.\<close>

definition runtime_over :: "'st client \<Rightarrow> bool \<times> 'st client" where
  "runtime_over c =
     (if ca_runtime (args c) \<noteq> 0
      then (case now_seconds c of (now, c') \<Rightarrow> (now - start_time c \<ge> ucast (ca_runtime (args c)), c'))
      else (False, c))"

definition more_to_send :: "client_args \<Rightarrow> u32 \<Rightarrow> bool" where
  "more_to_send a index \<longleftrightarrow> ca_num_samples a = 0 \<or> index < ca_num_samples a \<or> ca_runtime a \<noteq> 0"

text \<open>The loop; \<^const>\<open>None\<close> is a loop that does not end.\<close>

partial_function (option) sender_loop ::
  "sender_os \<Rightarrow> 'g rng_api \<Rightarrow> u32 \<Rightarrow> 'g sender_env \<Rightarrow> 'st client \<Rightarrow> ('g sender_env \<times> 'st client) option" where
  "sender_loop os rng index e c =
     (if more_to_send (args c) index then
        (case runtime_over c of (over, c') \<Rightarrow>
           if over then Some (e, c')
           else (case sender_round os rng index (e, c') of (e'', c'') \<Rightarrow>
                   sender_loop os rng (index + 1) e'' c''))
      else Some (e, c))"

definition seed_engine :: "'g rng_api \<Rightarrow> 'g sender_env \<Rightarrow> 'g sender_env" where
  "seed_engine rng e =
     e\<lparr>se_gen := mt19937 rng (random_device rng (se_draws e)), se_draws := Suc (se_draws e)\<rparr>"

definition runSenderThread ::
  "sender_os \<Rightarrow> 'g rng_api \<Rightarrow> 'g sender_env \<Rightarrow> 'st client \<Rightarrow> ('g sender_env \<times> 'st client) option" where
  "runSenderThread os rng e c =
     map_option (\<lambda>(e', c'). case now_seconds c' of (now, c'') \<Rightarrow> (e', c''\<lparr>sending_completed := now\<rparr>))
       (sender_loop os rng 0 (seed_engine rng e) c)"

definition getSentPackets :: "'st client \<Rightarrow> int" where
  "getSentPackets c = sent_packets c"

section \<open>One packet\<close>

text \<open>The packet a call at the current time sends.\<close>

definition sender_packet :: "u32 \<Rightarrow> timespec \<Rightarrow> client_packet" where
  "sender_packet idx t =
     client_packet_zero\<lparr>cp_seq_number := htonl idx, cp_timestamp_error_estimate := htons 0x8001,
       cp_timestamp := htonts (timespec_to_timestamp t)\<rparr>"

definition next_reading :: "'st client \<Rightarrow> timespec" where
  "next_reading c = readings (clock c) (ticks (clock c))"

lemma craftSenderPacket_eq: "craftSenderPacket idx c = (sender_packet idx (next_reading c), tick c)"
  by (simp add: craftSenderPacket_def sender_packet_def next_reading_def now_timestamp_eq Let_def)

lemma tick_simps [simp]:
  "remote_address_info (tick c) = remote_address_info c" "sent_packets (tick c) = sent_packets c"
  "network (tick c) = network c" "stderr (tick c) = stderr c" "args (tick c) = args c"
  "collator_started (tick c) = collator_started c" "observation_list (tick c) = observation_list c"
  "start_time (tick c) = start_time c"
  "first_packet_sent_epoch_nanoseconds (tick c) = first_packet_sent_epoch_nanoseconds c"
  "last_packet_sent_epoch_nanoseconds (tick c) = last_packet_sent_epoch_nanoseconds c"
  "readings (clock (tick c)) = readings (clock c)" "ticks (clock (tick c)) = Suc (ticks (clock c))"
  "stdout (tick c) = stdout c"
  by (simp_all add: tick_def)

lemma sender_packet_wf [simp]: "client_packet_wf (sender_packet idx t)"
  by (simp add: sender_packet_def client_packet_wf_def client_packet_zero_def)

lemma sender_packet_bytes:
  "client_packet_bytes (sender_packet idx t) =
     to_le 4 (htonl idx) @ timestamp_bytes (htonts (timespec_to_timestamp t)) @ [0x80, 0x01] @ replicate 1458 0"
proof -
  have "to_le 2 (htons 0x8001) = [0x80, 0x01]"
    by (simp add: to_le_htons) (simp add: to_le_def upt_conv_Cons)
  then show ?thesis
    by (simp add: client_packet_bytes_def sender_packet_def client_packet_zero_def TST_PKT_SIZE_def)
qed

lemma length_iov_read [simp]: "length (iov_read beyond obj n) = n"
  by (simp add: iov_read_def)

lemma send_loop_frame:
  "send_loop os rais bytes (e, c) = (r, e', c') \<Longrightarrow>
     \<exists>n errs net k. e' = e\<lparr>se_sends := k\<rparr> \<and>
       c' = c\<lparr>sent_packets := n, network := net, stderr := errs\<rparr>"
proof (induction rais arbitrary: e c)
  case Nil
  then show ?case by (intro exI [of _ "sent_packets c"] exI [of _ "stderr c"] exI [of _ "network c"] exI [of _ "se_sends e"]) simp
next
  case (Cons rai rais)
  show ?case
  proof (cases "os_sendmsg os (se_sends e)")
    case None
    with Cons.prems Cons.IH [of "e\<lparr>se_sends := Suc (se_sends e)\<rparr>"
        "c\<lparr>sent_packets := sent_packets c + 1, network := network c @ [(rai, bytes)]\<rparr>"]
    show ?thesis by auto
  next
    case (Some err)
    with Cons.prems show ?thesis
      by (intro exI [of _ "sent_packets c"] exI [of _ "stderr c @ [os_strerror os err]"]
          exI [of _ "network c"] exI [of _ "Suc (se_sends e)"]) auto
  qed
qed

lemma sender_packet_timestamp [simp]:
  "ntohts (cp_timestamp (sender_packet idx t)) = timespec_to_timestamp t"
  by (simp add: sender_packet_def)

lemma sends_shift:
  assumes "\<forall>j < Suc k. f (n + j) = None"
  shows "f n = None" and "\<forall>j < k. f (Suc n + j) = None"
  using assms by (metis add.right_neutral zero_less_Suc) (use assms in \<open>metis Suc_less_eq add_Suc_shift\<close>)

lemma send_loop_ok:
  assumes "\<forall>j < length rais. os_sendmsg os (se_sends e + j) = None"
  shows "send_loop os rais bytes (e, c) =
     (None, e\<lparr>se_sends := se_sends e + length rais\<rparr>,
      c\<lparr>sent_packets := sent_packets c + int (length rais), network := network c @ map (\<lambda>rai. (rai, bytes)) rais\<rparr>)"
  using assms
proof (induction rais arbitrary: e c)
  case (Cons rai rais)
  then show ?case
    using sends_shift [of "length rais" "os_sendmsg os" "se_sends e"] by simp
qed simp

lemma send_loop_fails:
  assumes "\<forall>j < k. os_sendmsg os (se_sends e + j) = None" and "k < length rais"
    and "os_sendmsg os (se_sends e + k) = Some err"
  shows "send_loop os rais bytes (e, c) =
     (Some (Runtime_error ''Sending UDP message failed with error.''), e\<lparr>se_sends := se_sends e + Suc k\<rparr>,
      c\<lparr>sent_packets := sent_packets c + int k, network := network c @ map (\<lambda>rai. (rai, bytes)) (take k rais),
        stderr := stderr c @ [os_strerror os err]\<rparr>)"
  using assms
proof (induction rais arbitrary: k e c)
  case (Cons rai rais)
  show ?case
  proof (cases k)
    case 0
    with Cons.prems(3) show ?thesis by simp
  next
    case (Suc k')
    with Cons.prems(1) sends_shift [of k' "os_sendmsg os" "se_sends e"]
    have "os_sendmsg os (se_sends e) = None" "\<forall>j < k'. os_sendmsg os (Suc (se_sends e) + j) = None"
      by simp_all
    then show ?thesis
      using Cons.prems Suc Cons.IH [of k' "e\<lparr>se_sends := Suc (se_sends e)\<rparr>"
          "c\<lparr>sent_packets := sent_packets c + 1, network := network c @ [(rai, bytes)]\<rparr>"]
      by simp
  qed
qed simp

text \<open>
  C20: \<^verbatim>\<open>sendPacket\<close> sends one and the same datagram to every remote host in order and counts each: the
  sequence number in network order, the current time, the error estimate 0x8001 and zeros, cut to the
  payload length; it returns the time it put into the packet. When the call for a host fails, the
  hosts before it have been served and counted, the later ones are not, the error is reported and
  the exception thrown. A payload length beyond the 1472 bytes of the packet adds bytes of the stack.
\<close>

theorem sendPacket_delivers:
  assumes "\<forall>j < k. os_sendmsg os (se_sends e + j) = None"
    and "k < length (remote_address_info c) \<and> os_sendmsg os (se_sends e + k) = Some err
       \<or> k = length (remote_address_info c)"
    and "t = timespec_to_timestamp (next_reading c)"
    and "bytes = take (unat len) (to_le 4 (htonl idx) @ timestamp_bytes (htonts t) @ [0x80, 0x01] @ replicate 1458 0) @
       map (os_beyond os) [0..<unat len - 1472]"
  shows "\<exists>r e' c'. sendPacket os idx len (e, c) = (r, e', c')
     \<and> sent_packets c' = sent_packets c + int k
     \<and> network c' = network c @ map (\<lambda>rai. (rai, bytes)) (take k (remote_address_info c))
     \<and> length bytes = unat len
     \<and> r = (if k = length (remote_address_info c) then Inr t
            else Inl (Runtime_error ''Sending UDP message failed with error.''))
     \<and> stderr c' = stderr c @ (if k = length (remote_address_info c) then [] else [os_strerror os err])"
proof -
  let ?b = "client_packet_bytes (sender_packet idx (next_reading c))"
  have l: "length ?b = 1472"
    using length_client_packet_bytes [OF sender_packet_wf] by (simp add: TST_PKT_SIZE_def)
  have b: "iov_read (os_beyond os) ?b (unat len) = bytes"
    unfolding iov_read_def l unfolding assms(3,4) sender_packet_bytes ..
  then have n: "length bytes = unat len" by (metis length_iov_read)
  show ?thesis
  proof (cases "k = length (remote_address_info c)")
    case True
    with assms(1) send_loop_ok [of "remote_address_info c" os e bytes "tick c"] show ?thesis
      by (simp add: sendPacket_def craftSenderPacket_eq b n assms(3) Let_def)
  next
    case False
    with assms(1,2) send_loop_fails [of k os e "remote_address_info c" err bytes "tick c"] show ?thesis
      by (simp add: sendPacket_def craftSenderPacket_eq b n Let_def)
  qed
qed

definition sample_os :: sender_os where
  "sample_os = \<lparr>os_sendmsg = (\<lambda>k. if k = 1 then Some 101 else None), os_strerror = (\<lambda>e. ''unreachable''),
     os_beyond = (\<lambda>k. 0xAA)\<rparr>"

definition sample_args :: client_args where
  "sample_args = client_args_default\<lparr>ca_num_samples := 2, ca_payload_lens := [42]\<rparr>"

definition sample_sender :: "unit client" where
  "sample_sender = client_init sample_args [[1], [2]] 0 ()
     \<lparr>readings = (\<lambda>n. \<lparr>tv_sec = 1700000000 + int n, tv_nsec = 0\<rparr>), ticks = 0\<rparr>"

definition sample_sender_env :: "unit sender_env" where
  "sample_sender_env = \<lparr>se_gen = (), se_select_gen = None, se_draws = 0, se_sends = 0, se_slept = []\<rparr>"

theorem sendPacket_delivers_witness:
  "\<exists>r e' c'. sendPacket sample_os 7 42 (sample_sender_env, sample_sender) = (r, e', c') \<and> sent_packets c' = 1
     \<and> map fst (network c') = [[1]] \<and> stderr c' = [''unreachable'']"
proof -
  have "os_sendmsg sample_os 0 = None" "os_sendmsg sample_os 1 = Some 101" "os_strerror sample_os 101 = ''unreachable''"
    "se_sends sample_sender_env = 0" "remote_address_info sample_sender = [[1], [2]]" "sent_packets sample_sender = 0"
    "network sample_sender = []" "stderr sample_sender = []"
    by (simp_all add: sample_os_def sample_sender_env_def sample_sender_def client_init_def)
  then show ?thesis
    using sendPacket_delivers [of 1 sample_os sample_sender_env sample_sender 101, OF _ _ refl refl, of 7 42] by auto
qed

section \<open>Runs\<close>

definition datagram_seq :: "u8 list \<Rightarrow> u32" where
  "datagram_seq bytes = ntohl (from_le (take 4 bytes))"

text \<open>The payload lengths the command line accepts, and draws that stay in range.\<close>

definition payload_lens_ok :: "client_args \<Rightarrow> bool" where
  "payload_lens_ok a \<longleftrightarrow> ca_payload_lens a \<noteq> [] \<and> (\<forall>n \<in> set (ca_payload_lens a). 42 \<le> n \<and> n \<le> 1473)"

definition uniform_ok :: "'g rng_api \<Rightarrow> bool" where
  "uniform_ok rng \<longleftrightarrow> (\<forall>n g. 0 \<le> n \<longrightarrow> 0 \<le> fst (uniform_int rng n g) \<and> fst (uniform_int rng n g) \<le> n)"

lemma select_randomly_in:
  assumes "uniform_ok rng" and "xs \<noteq> []"
  shows "fst (select_randomly rng xs seed e) \<in> set xs"
proof -
  have "0 \<le> int (length xs) - 1" using assms(2) by (cases xs) simp_all
  then have "0 \<le> fst (uniform_int rng (int (length xs) - 1) g)
      \<and> fst (uniform_int rng (int (length xs) - 1) g) \<le> int (length xs) - 1" for g
    using assms(1) unfolding uniform_ok_def by blast
  then have "nat (fst (uniform_int rng (int (length xs) - 1) g)) < length xs" for g
    using assms(2) by (metis length_greater_0_conv nat_less_iff of_nat_0_less_iff zle_diff1_eq)
  then show ?thesis
    by (auto simp: select_randomly_def Let_def in_set_conv_nth split: prod.splits option.splits) (metis fst_conv)+
qed

lemma select_randomly_frame:
  "se_sends (snd (select_randomly rng xs seed e)) = se_sends e"
  "se_slept (snd (select_randomly rng xs seed e)) = se_slept e"
  by (auto simp: select_randomly_def Let_def split: prod.splits option.splits)

lemma next_delay_frame:
  "se_sends (snd (next_delay rng a e)) = se_sends e" "se_slept (snd (next_delay rng a e)) = se_slept e"
  by (auto simp: next_delay_def split: prod.splits)

lemma sender_round_ok:
  assumes "\<forall>k. os_sendmsg os k = None" and "uniform_ok rng" and "payload_lens_ok (args c)"
  shows "\<exists>e' len bytes. sender_round os rng index (e, c) =
     (e', note_sent index len (timespec_to_timestamp (next_reading c))
        ((tick c)\<lparr>sent_packets := sent_packets c + int (length (remote_address_info c)),
           network := network c @ map (\<lambda>rai. (rai, bytes)) (remote_address_info c)\<rparr>))
     \<and> datagram_seq bytes = index \<and> int (length bytes) \<in> set (ca_payload_lens (args c))
     \<and> uint len = int (length bytes)"
proof -
  obtain n e1 where n: "select_randomly rng (ca_payload_lens (args c)) (ca_seed (args c)) e = (n, e1)" by fastforce
  obtain d e2 where d: "next_delay rng (args c) e1 = (d, e2)" by fastforce
  have "n \<in> set (ca_payload_lens (args c))"
    using select_randomly_in [OF assms(2), of "ca_payload_lens (args c)" "ca_seed (args c)" e] assms(3)
    by (simp add: n payload_lens_ok_def)
  with assms(3) have r: "n \<in> set (ca_payload_lens (args c))" "42 \<le> n" "n \<le> 1473" by (auto simp: payload_lens_ok_def)
  then have u: "uint (word_of_int n :: u64) = n" by (simp add: uint_word_of_int)
  then have un: "unat (word_of_int n :: u64) = nat n" by (simp only: unat_eq_nat_uint)
  define bytes where "bytes = iov_read (os_beyond os) (client_packet_bytes (sender_packet index (next_reading c))) (nat n)"
  have seq: "datagram_seq bytes = index"
    using r by (simp add: datagram_seq_def bytes_def iov_read_def sender_packet_bytes)
  have len: "int (length bytes) = n" using r by (simp add: bytes_def)
  have "sender_round os rng index (e, c) =
     (e2\<lparr>se_slept := se_slept e2 @ [d], se_sends := se_sends e2 + length (remote_address_info c)\<rparr>,
      note_sent index (word_of_int n) (timespec_to_timestamp (next_reading c))
        ((tick c)\<lparr>sent_packets := sent_packets c + int (length (remote_address_info c)),
           network := network c @ map (\<lambda>rai. (rai, bytes)) (remote_address_info c)\<rparr>))"
    using send_loop_ok [of "remote_address_info c" os "e2\<lparr>se_slept := se_slept e2 @ [d]\<rparr>" bytes "tick c"] assms(1)
    by (simp add: sender_round_def n d sendPacket_def craftSenderPacket_eq bytes_def [symmetric] un Let_def)
  then show ?thesis using seq len r(1) u by auto
qed

lemma note_sent_fields [simp]:
  "args (note_sent i len ts c) = args c" "remote_address_info (note_sent i len ts c) = remote_address_info c"
  "collator_started (note_sent i len ts c) = collator_started c" "clock (note_sent i len ts c) = clock c"
  "sent_packets (note_sent i len ts c) = sent_packets c" "network (note_sent i len ts c) = network c"
  "start_time (note_sent i len ts c) = start_time c" "stderr (note_sent i len ts c) = stderr c"
  "ol_observations (observation_list (note_sent i len ts c)) = ol_observations (observation_list c) @
     (if collator_started c \<noteq> 0 then [QEDObservation CLIENT_SEND (timestamp_to_nsec ts) i (uint len)] else [])"
  by (simp_all add: note_sent_def enqueue_observation_def ol_addObservation_def Let_def)

text \<open>What packet \<open>j\<close> of a run leaves: a datagram for each host, and an observation.\<close>

definition sent_observation :: "'st client \<Rightarrow> nat \<Rightarrow> nat \<Rightarrow> observation_point \<times> u32 \<times> u64" where
  "sent_observation c i j =
     (CLIENT_SEND, of_nat j,
      timestamp_to_nsec (timespec_to_timestamp (readings (clock c) (ticks (clock c) + (j - i)))))"

definition run_leaves :: "nat \<Rightarrow> nat \<Rightarrow> 'st client \<Rightarrow> 'st client \<Rightarrow> bool" where
  "run_leaves i n c c' \<longleftrightarrow>
     sent_packets c' = sent_packets c + int ((n - i) * length (remote_address_info c)) \<and>
     clock c' = (clock c)\<lparr>ticks := ticks (clock c) + (n - i)\<rparr> \<and>
     (\<exists>out. network c' = network c @ out \<and>
        map (\<lambda>(dst, bytes). (dst, datagram_seq bytes)) out =
          concat (map (\<lambda>j. map (\<lambda>h. (h, of_nat j)) (remote_address_info c)) [i..<n]) \<and>
        (\<forall>(dst, bytes) \<in> set out. int (length bytes) \<in> set (ca_payload_lens (args c)))) \<and>
     (\<exists>obs. ol_observations (observation_list c') = ol_observations (observation_list c) @ obs \<and>
        map (\<lambda>x. (observation_point x, packet_id x, epoch_nanoseconds x)) obs =
          (if collator_started c \<noteq> 0 then map (sent_observation c i) [i..<n] else []))"

lemma run_leaves_step:
  assumes "i < n" and "datagram_seq bytes = of_nat i" and "int (length bytes) \<in> set (ca_payload_lens (args c))"
    and "c1 = note_sent (of_nat i) len (timespec_to_timestamp (next_reading c))
        ((tick c)\<lparr>sent_packets := sent_packets c + int (length (remote_address_info c)),
           network := network c @ map (\<lambda>rai. (rai, bytes)) (remote_address_info c)\<rparr>)"
    and "run_leaves (Suc i) n c1 c'"
  shows "run_leaves i n c c'"
proof -
  have n: "n - i = Suc (n - Suc i)" "[i..<n] = i # [Suc i..<n]" using assms(1) by (simp_all add: upt_conv_Cons)
  have o1: "map (sent_observation c1 (Suc i)) [Suc i..<n] = map (sent_observation c i) [Suc i..<n]"
    by (auto simp: sent_observation_def assms(4) Suc_diff_Suc)
  from assms(5) obtain out obs where
    out: "network c' = network c1 @ out"
      "map (\<lambda>(dst, bytes). (dst, datagram_seq bytes)) out =
         concat (map (\<lambda>j. map (\<lambda>h. (h, of_nat j)) (remote_address_info c1)) [Suc i..<n])"
      "\<forall>(dst, bytes) \<in> set out. int (length bytes) \<in> set (ca_payload_lens (args c1))" and
    obs: "ol_observations (observation_list c') = ol_observations (observation_list c1) @ obs"
      "map (\<lambda>x. (observation_point x, packet_id x, epoch_nanoseconds x)) obs =
         (if collator_started c1 \<noteq> 0 then map (sent_observation c i) [Suc i..<n] else [])"
    unfolding run_leaves_def o1 by blast
  let ?out = "map (\<lambda>rai. (rai, bytes)) (remote_address_info c) @ out"
  let ?ob = "if collator_started c \<noteq> 0
    then [QEDObservation CLIENT_SEND (timestamp_to_nsec (timespec_to_timestamp (next_reading c))) (of_nat i) (uint len)] else []"
  have "network c' = network c @ ?out \<and>
      map (\<lambda>(dst, bytes). (dst, datagram_seq bytes)) ?out =
        concat (map (\<lambda>j. map (\<lambda>h. (h, of_nat j)) (remote_address_info c)) [i..<n]) \<and>
      (\<forall>(dst, bytes) \<in> set ?out. int (length bytes) \<in> set (ca_payload_lens (args c)))"
    using out assms(2,3) by (auto simp: n(2) assms(4))
  moreover have "ol_observations (observation_list c') = ol_observations (observation_list c) @ (?ob @ obs) \<and>
      map (\<lambda>x. (observation_point x, packet_id x, epoch_nanoseconds x)) (?ob @ obs) =
        (if collator_started c \<noteq> 0 then map (sent_observation c i) [i..<n] else [])"
    using obs by (auto simp: n(2) assms(4) QEDObservation_def sent_observation_def next_reading_def)
  moreover have "sent_packets c' = sent_packets c + int ((n - i) * length (remote_address_info c))"
      "clock c' = (clock c)\<lparr>ticks := ticks (clock c) + (n - i)\<rparr>"
    using assms(5) unfolding run_leaves_def by (simp_all add: n(1) assms(4) tick_def)
  ultimately show ?thesis unfolding run_leaves_def by blast
qed

lemma sender_loop_ok:
  assumes "ca_num_samples (args c) \<noteq> 0" and "ca_runtime (args c) = 0" and "i \<le> unat (ca_num_samples (args c))"
    and "\<forall>k. os_sendmsg os k = None" and "uniform_ok rng" and "payload_lens_ok (args c)"
  shows "\<exists>e' c'. sender_loop os rng (of_nat i) e c = Some (e', c') \<and>
     run_leaves i (unat (ca_num_samples (args c))) c c'"
  using assms
proof (induction "unat (ca_num_samples (args c)) - i" arbitrary: i e c)
  case 0
  then have "i = unat (ca_num_samples (args c))" by simp
  then have "\<not> more_to_send (args c) (of_nat i)"
    using 0 by (simp add: more_to_send_def)
  moreover have "run_leaves i (unat (ca_num_samples (args c))) c c"
    using 0 by (simp add: run_leaves_def)
  ultimately show ?case
    unfolding sender_loop.simps [of os rng "of_nat i" e c] by auto
next
  case (Suc m)
  let ?n = "unat (ca_num_samples (args c))"
  have i: "i < ?n" "m = ?n - Suc i" using Suc.hyps(2) by simp_all
  have "unat (of_nat i :: u32) = i"
    using i(1) unsigned_less [of "ca_num_samples (args c)", where 'a = nat] unfolding unat_of_nat by simp
  then have more: "more_to_send (args c) (of_nat i)"
    using i(1) by (simp add: more_to_send_def word_less_nat_alt)
  obtain e1 len bytes c1 where
    r: "sender_round os rng (of_nat i) (e, c) = (e1, c1)" and
    b: "datagram_seq bytes = of_nat i" "int (length bytes) \<in> set (ca_payload_lens (args c))" and
    c1: "c1 = note_sent (of_nat i) len (timespec_to_timestamp (next_reading c))
        ((tick c)\<lparr>sent_packets := sent_packets c + int (length (remote_address_info c)),
           network := network c @ map (\<lambda>rai. (rai, bytes)) (remote_address_info c)\<rparr>)"
    using sender_round_ok [OF Suc.prems(4,5,6), of "of_nat i" e] by auto
  have a: "args c1 = args c" by (simp add: c1)
  have "\<exists>e' c'. sender_loop os rng (of_nat (Suc i)) e1 c1 = Some (e', c') \<and> run_leaves (Suc i) ?n c1 c'"
    using Suc.hyps(1) [of c1 "Suc i" e1] Suc.prems i unfolding a by simp
  then obtain e' c' where l: "sender_loop os rng (of_nat (Suc i)) e1 c1 = Some (e', c')"
    and rl: "run_leaves (Suc i) ?n c1 c'" by blast
  have "sender_loop os rng (of_nat i) e c = Some (e', c')"
    unfolding sender_loop.simps [of os rng "of_nat i" e c]
    using more Suc.prems(2) r l by (simp add: runtime_over_def add.commute)
  with run_leaves_step [OF i(1) b c1 rl] show ?case by blast
qed

lemma runSenderThread_eq:
  "runSenderThread os rng e c =
     map_option (\<lambda>(e', c'). (e', (tick c')\<lparr>sending_completed := word_of_int (tv_sec (next_reading c'))\<rparr>))
       (sender_loop os rng 0 (seed_engine rng e) c)"
  unfolding runSenderThread_def by (simp add: now_seconds_eq next_reading_def)

text \<open>
  C9: With a number of samples n and no runtime, and when every \<^verbatim>\<open>sendmsg\<close> succeeds, the sender thread
  ends. It has sent the sequence numbers 0 to n - 1 in order, each to every remote host, in datagrams
  of lengths from the list of payload lengths; \<^verbatim>\<open>sent_packets\<close> has grown by n times the number of hosts;
  with the collator running, it has queued for each packet the observation that it was sent, with
  the clock reading that is in the packet; and \<^verbatim>\<open>sending_completed\<close> is the time at the end.
\<close>

theorem sender_sends_samples:
  assumes "ca_num_samples (args c) \<noteq> 0" and "ca_runtime (args c) = 0"
    and "\<forall>k. os_sendmsg os k = None" and "uniform_ok rng" and "payload_lens_ok (args c)"
    and "n = unat (ca_num_samples (args c))"
  shows "\<exists>e' c' out obs. runSenderThread os rng e c = Some (e', c')
     \<and> sent_packets c' = sent_packets c + int (n * length (remote_address_info c))
     \<and> network c' = network c @ out
     \<and> map (\<lambda>(dst, bytes). (dst, datagram_seq bytes)) out =
         concat (map (\<lambda>j. map (\<lambda>h. (h, of_nat j)) (remote_address_info c)) [0..<n])
     \<and> (\<forall>(dst, bytes) \<in> set out. int (length bytes) \<in> set (ca_payload_lens (args c)))
     \<and> ol_observations (observation_list c') = ol_observations (observation_list c) @ obs
     \<and> map (\<lambda>x. (observation_point x, packet_id x, epoch_nanoseconds x)) obs =
         (if collator_started c \<noteq> 0
          then map (\<lambda>j. (CLIENT_SEND, of_nat j,
                 timestamp_to_nsec (timespec_to_timestamp (readings (clock c) (ticks (clock c) + j))))) [0..<n]
          else [])
     \<and> sending_completed c' = word_of_int (tv_sec (readings (clock c) (ticks (clock c) + n)))"
proof -
  obtain e' c' where l: "sender_loop os rng 0 (seed_engine rng e) c = Some (e', c')" and r: "run_leaves 0 n c c'"
    using sender_loop_ok [OF assms(1,2) _ assms(3-5), of 0 "seed_engine rng e"] by (auto simp: assms(6))
  from r have "clock c' = (clock c)\<lparr>ticks := ticks (clock c) + n\<rparr>" by (simp add: run_leaves_def)
  then have "next_reading c' = readings (clock c) (ticks (clock c) + n)" by (simp add: next_reading_def)
  moreover from r obtain out obs where
    "network c' = network c @ out"
    "map (\<lambda>(dst, bytes). (dst, datagram_seq bytes)) out =
       concat (map (\<lambda>j. map (\<lambda>h. (h, of_nat j)) (remote_address_info c)) [0..<n])"
    "\<forall>(dst, bytes) \<in> set out. int (length bytes) \<in> set (ca_payload_lens (args c))"
    "ol_observations (observation_list c') = ol_observations (observation_list c) @ obs"
    "map (\<lambda>x. (observation_point x, packet_id x, epoch_nanoseconds x)) obs =
       (if collator_started c \<noteq> 0 then map (sent_observation c 0) [0..<n] else [])"
    unfolding run_leaves_def by blast
  moreover have "sent_packets c' = sent_packets c + int (n * length (remote_address_info c))"
    using r by (simp add: run_leaves_def)
  ultimately show ?thesis
    using l unfolding sent_observation_def
    by (intro exI [of _ e'] exI [of _ "(tick c')\<lparr>sending_completed := word_of_int (tv_sec (next_reading c'))\<rparr>"]
        exI [of _ out] exI [of _ obs]) (simp add: runSenderThread_eq)
qed

definition sample_rng :: "unit rng_api" where
  "sample_rng = \<lparr>mt19937 = (\<lambda>s. ()), random_device = (\<lambda>k. 0), uniform_int = (\<lambda>n g. (0, ())),
     exponential = (\<lambda>l g. (150000, ()))\<rparr>"

lemma sample_rng_ok: "uniform_ok sample_rng"
  by (simp add: uniform_ok_def sample_rng_def)

lemma sample_args_simps:
  "ca_num_samples sample_args = 2" "ca_runtime sample_args = 0" "payload_lens_ok sample_args"
  by (simp_all add: sample_args_def client_args_default_def payload_lens_ok_def)

lemma sample_sender_simps:
  "args sample_sender = sample_args" "remote_address_info sample_sender = [[1], [2]]" "sent_packets sample_sender = 0"
  "network sample_sender = []"
  by (simp_all add: sample_sender_def client_init_def)

theorem sender_sends_samples_witness:
  "\<exists>e' c'. runSenderThread (sample_os\<lparr>os_sendmsg := \<lambda>k. None\<rparr>) sample_rng sample_sender_env sample_sender = Some (e', c')
     \<and> map (\<lambda>(dst, bytes). (dst, datagram_seq bytes)) (network c') = [([1], 0), ([2], 0), ([1], 1), ([2], 1)]
     \<and> sent_packets c' = 4"
proof -
  have h: "ca_num_samples (args sample_sender) \<noteq> 0" "ca_runtime (args sample_sender) = 0"
    "payload_lens_ok (args sample_sender)" "2 = unat (ca_num_samples (args sample_sender))"
    by (simp_all add: sample_sender_simps sample_args_simps)
  have sends: "\<forall>k. os_sendmsg (sample_os\<lparr>os_sendmsg := \<lambda>k. None\<rparr>) k = None" by simp
  have "[0..<2] = [0, 1 :: nat]" by (simp add: upt_conv_Cons)
  moreover obtain e' c' out obs where
    "runSenderThread (sample_os\<lparr>os_sendmsg := \<lambda>k. None\<rparr>) sample_rng sample_sender_env sample_sender = Some (e', c')"
    "sent_packets c' = sent_packets sample_sender + int (2 * length (remote_address_info sample_sender))"
    "network c' = network sample_sender @ out"
    "map (\<lambda>(dst, bytes). (dst, datagram_seq bytes)) out =
       concat (map (\<lambda>j. map (\<lambda>h. (h, of_nat j)) (remote_address_info sample_sender)) [0..<2])"
    using sender_sends_samples [OF h(1,2) sends sample_rng_ok h(3,4), of sample_sender_env] by blast
  ultimately show ?thesis by (simp add: sample_sender_simps)
qed

section \<open>When the thread ends\<close>

lemma sender_round_args:
  "args (snd (sender_round os rng i (e, c))) = args c \<and> start_time (snd (sender_round os rng i (e, c))) = start_time c
   \<and> clock (snd (sender_round os rng i (e, c))) = clock (tick c)"
proof -
  obtain n e1 where n: "select_randomly rng (ca_payload_lens (args c)) (ca_seed (args c)) e = (n, e1)" by fastforce
  obtain d e2 where d: "next_delay rng (args c) e1 = (d, e2)" by fastforce
  obtain r e3 c3 where l: "send_loop os (remote_address_info c) (iov_read (os_beyond os)
      (client_packet_bytes (sender_packet i (next_reading c))) (unat (word_of_int n :: u64)))
      (e2\<lparr>se_slept := se_slept e2 @ [d]\<rparr>, tick c) = (r, e3, c3)" by (metis prod.exhaust)
  from send_loop_frame [OF this] have "args c3 = args c" "start_time c3 = start_time c" "clock c3 = clock (tick c)"
    by auto
  with l show ?thesis
    by (cases r) (simp_all add: sender_round_def n d sendPacket_def craftSenderPacket_eq Let_def)
qed

lemma sender_loop_counts:
  assumes "ca_num_samples (args c) \<noteq> 0" and "ca_runtime (args c) = 0" and "i \<le> unat (ca_num_samples (args c))"
  shows "sender_loop os rng (of_nat i) e c \<noteq> None"
  using assms
proof (induction "unat (ca_num_samples (args c)) - i" arbitrary: i e c)
  case 0
  then have "i = unat (ca_num_samples (args c))" by simp
  then have "\<not> more_to_send (args c) (of_nat i)" using 0 by (simp add: more_to_send_def)
  then show ?case unfolding sender_loop.simps [of os rng "of_nat i" e c] by simp
next
  case (Suc m)
  obtain e1 c1 where r: "sender_round os rng (of_nat i) (e, c) = (e1, c1)" by fastforce
  then have "args c1 = args c" using sender_round_args [of os rng "of_nat i" e c] by simp
  then have "sender_loop os rng (of_nat (Suc i)) e1 c1 \<noteq> None"
    using Suc.hyps(1) [of c1 "Suc i" e1] Suc.hyps(2) Suc.prems by simp
  then show ?case
    unfolding sender_loop.simps [of os rng "of_nat i" e c]
    using r Suc.prems(2) by (simp add: runtime_over_def add.commute)
qed

text \<open>Two readings of the clock in each round: the check of the runtime and the packet's time.\<close>

lemma sender_loop_runtime:
  assumes "ca_runtime (args c) \<noteq> 0"
    and "\<forall>j \<ge> ticks (clock c) + m.
       ucast (ca_runtime (args c)) \<le> word_of_int (tv_sec (readings (clock c) j)) - start_time c"
  shows "sender_loop os rng i e c \<noteq> None"
  using assms
proof (induction m arbitrary: i e c)
  case 0
  then have "runtime_over c = (True, tick c)"
    by (simp add: runtime_over_def now_seconds_eq)
  then show ?case unfolding sender_loop.simps [of os rng i e c] by simp
next
  case (Suc m)
  show ?case
  proof (cases "fst (runtime_over c)")
    case True
    then show ?thesis unfolding sender_loop.simps [of os rng i e c] by (cases "runtime_over c") simp
  next
    case False
    obtain e1 c1 where r: "sender_round os rng i (e, tick c) = (e1, c1)" by fastforce
    then have c1: "args c1 = args c" "start_time c1 = start_time c" "clock c1 = clock (tick (tick c))"
      using sender_round_args [of os rng i e "tick c"] by simp_all
    have "sender_loop os rng (i + 1) e1 c1 \<noteq> None"
      using Suc.IH [of c1 "i + 1" e1] Suc.prems unfolding c1 by simp
    moreover have "runtime_over c = (False, tick c)"
      using False Suc.prems(1) by (simp add: runtime_over_def now_seconds_eq)
    ultimately show ?thesis unfolding sender_loop.simps [of os rng i e c] using r by simp
  qed
qed


lemma sender_loop_returns:
  assumes "sender_loop os rng i e c = Some r"
  shows "ca_num_samples (args c) \<noteq> 0 \<or> ca_runtime (args c) \<noteq> 0"
proof (rule sender_loop.raw_induct [of "\<lambda>os rng i e c r. ca_num_samples (args c) \<noteq> 0 \<or> ca_runtime (args c) \<noteq> 0", OF _ assms])
  fix loop os rng i e c r
  assume IH: "\<And>os rng i e c r. loop os rng i e c = Some r \<Longrightarrow> ca_num_samples (args c) \<noteq> 0 \<or> ca_runtime (args c) \<noteq> 0"
    and eq: "(if more_to_send (args c) i
      then case runtime_over c of (over, c') \<Rightarrow>
             if over then Some (e, c')
             else case sender_round os rng i (e, c') of (e'', c'') \<Rightarrow> loop os rng (i + 1) e'' c''
      else Some (e, c)) = Some r"
  obtain e1 c1 where s: "sender_round os rng i (e, c) = (e1, c1)" by fastforce
  then have "args c1 = args c" using sender_round_args [of os rng i e c] by simp
  with IH [of os rng "i + 1" e1 c1 r] eq s
  show "ca_num_samples (args c) \<noteq> 0 \<or> ca_runtime (args c) \<noteq> 0"
    by (auto simp: runtime_over_def more_to_send_def split: if_splits)
qed

text \<open>
  C21: The sender thread ends whether or not its \<^verbatim>\<open>sendmsg\<close> calls succeed: with a number of samples and no
  runtime always, with a runtime as soon as the clock stays that many seconds past the start. With
  neither, it never ends.
\<close>

theorem sender_thread_ends:
  "(ca_num_samples (args c) \<noteq> 0 \<and> ca_runtime (args c) = 0 \<longrightarrow> (\<exists>r. runSenderThread os rng e c = Some r))
   \<and> (ca_runtime (args c) \<noteq> 0
       \<and> (\<forall>j \<ge> m. ucast (ca_runtime (args c)) \<le> word_of_int (tv_sec (readings (clock c) j)) - start_time c)
       \<longrightarrow> (\<exists>r. runSenderThread os rng e c = Some r))
   \<and> (ca_num_samples (args c) = 0 \<and> ca_runtime (args c) = 0 \<longrightarrow> runSenderThread os rng e c = None)"
proof (intro conjI impI)
  assume "ca_num_samples (args c) \<noteq> 0 \<and> ca_runtime (args c) = 0"
  then show "\<exists>r. runSenderThread os rng e c = Some r"
    using sender_loop_counts [of c 0 os rng "seed_engine rng e"] by (auto simp: runSenderThread_eq)
next
  assume "ca_runtime (args c) \<noteq> 0
     \<and> (\<forall>j \<ge> m. ucast (ca_runtime (args c)) \<le> word_of_int (tv_sec (readings (clock c) j)) - start_time c)"
  then show "\<exists>r. runSenderThread os rng e c = Some r"
    using sender_loop_runtime [of c m os rng 0 "seed_engine rng e"] by (auto simp: runSenderThread_eq)
next
  assume "ca_num_samples (args c) = 0 \<and> ca_runtime (args c) = 0"
  then show "runSenderThread os rng e c = None"
    using sender_loop_returns [of os rng 0 "seed_engine rng e" c]
    by (cases "sender_loop os rng 0 (seed_engine rng e) c") (simp_all add: runSenderThread_eq)
qed

definition limited :: "u32 \<Rightarrow> u32 \<Rightarrow> unit client" where
  "limited n seconds = client_init (client_args_default\<lparr>ca_num_samples := n, ca_runtime := seconds\<rparr>) [[1]] 100 ()
     \<lparr>readings = (\<lambda>k. \<lparr>tv_sec = (if k < 20 then 100 else 110), tv_nsec = 0\<rparr>), ticks = 0\<rparr>"

theorem sender_thread_ends_witness:
  "(\<exists>r. runSenderThread sample_os sample_rng sample_sender_env (limited 3 0) = Some r)
   \<and> (\<exists>r. runSenderThread sample_os sample_rng sample_sender_env (limited 0 10) = Some r)
   \<and> runSenderThread sample_os sample_rng sample_sender_env (limited 0 0) = None"
proof -
  have a: "ca_num_samples (args (limited n s)) = n" "ca_runtime (args (limited n s)) = s" for n s
    by (simp_all add: limited_def client_init_def)
  have "ucast (10 :: u32) \<le> word_of_int (tv_sec (readings (clock (limited 0 10)) j)) - start_time (limited 0 10)"
    if "20 \<le> j" for j
    using that by (simp add: limited_def client_init_def)
  then show ?thesis
    using sender_thread_ends [of "limited 3 0" sample_os sample_rng sample_sender_env 0]
      sender_thread_ends [of "limited 0 10" sample_os sample_rng sample_sender_env 20]
      sender_thread_ends [of "limited 0 0" sample_os sample_rng sample_sender_env 0]
    unfolding a by simp
qed

section \<open>Pauses\<close>

text \<open>
  C37: The pause before a packet is, in the Poisson mode, at most ten seconds and the drawn delay when
  that is smaller, to the microsecond; in the constant mode it is the configured mean as long as that
  is below 4294968 ms, and beyond it the product wraps around, so that 4294968 ms are a pause of 704
  microseconds.
\<close>

theorem sender_pauses:
  assumes "exponential rng (sender_rate a) (se_gen e) = (x, gen)" and "0 \<le> x"
    and "next_delay rng a e = (d, e')"
  shows "(\<not> ca_constant_inter_packet_delay a \<longrightarrow> uint d = \<lfloor>min x 10000000\<rfloor> \<and> uint d \<le> 10000000)
     \<and> (ca_constant_inter_packet_delay a \<longrightarrow>
          (uint d = uint (ca_mean_inter_packet_delay_ms a) * 1000 \<longleftrightarrow> uint (ca_mean_inter_packet_delay_ms a) < 4294968)
        \<and> (ca_mean_inter_packet_delay_ms a = 4294968 \<longrightarrow> d = 704))"
proof (intro conjI impI)
  let ?y = "min x 10000000"
  have y: "0 \<le> ?y" "?y \<le> 10000000" using assms(2) by simp_all
  then have t: "d_trunc ?y = \<lfloor>?y\<rfloor>" "0 \<le> \<lfloor>?y\<rfloor>" "\<lfloor>?y\<rfloor> \<le> 10000000"
    by (simp_all add: d_trunc_def le_floor_iff floor_le_iff)
  assume c: "\<not> ca_constant_inter_packet_delay a"
  have "max (word_of_int \<lfloor>?y\<rfloor> :: u32) 0 = word_of_int \<lfloor>?y\<rfloor>" by (simp add: max_def)
  with assms(1,3) c t(1) have "d = word_of_int \<lfloor>?y\<rfloor>"
    by (simp add: next_delay_def MAX_DELAY_MICROSECONDS_def)
  with t show "uint d = \<lfloor>?y\<rfloor>" "uint d \<le> 10000000" by (simp_all add: uint_word_of_int)
next
  assume c: "ca_constant_inter_packet_delay a"
  have u: "uint (ca_mean_inter_packet_delay_ms a) < 2 ^ 32" using uint_lt2p [of "ca_mean_inter_packet_delay_ms a"] by simp
  from assms(3) c have d: "d = word_of_int (uint (ca_mean_inter_packet_delay_ms a) * 1000)"
    by (simp add: next_delay_def)
  show "uint d = uint (ca_mean_inter_packet_delay_ms a) * 1000 \<longleftrightarrow> uint (ca_mean_inter_packet_delay_ms a) < 4294968"
    using u unfolding d uint_word_of_int by (auto simp: mod_eq_self_iff_div_eq_0 div_eq_0_iff)
  assume "ca_mean_inter_packet_delay_ms a = 4294968"
  then show "d = 704" by (simp add: d)
qed

theorem sender_pauses_witness:
  "fst (next_delay sample_rng (client_args_default\<lparr>ca_mean_inter_packet_delay_ms := 4294968,
     ca_constant_inter_packet_delay := True\<rparr>) sample_sender_env) = 704"
proof -
  let ?a = "client_args_default\<lparr>ca_mean_inter_packet_delay_ms := 4294968, ca_constant_inter_packet_delay := True\<rparr>"
  obtain d e' where d: "next_delay sample_rng ?a sample_sender_env = (d, e')" by fastforce
  have "exponential sample_rng (sender_rate ?a) (se_gen sample_sender_env) = (150000, ())"
    by (simp add: sample_rng_def)
  from sender_pauses [OF this _ d] show ?thesis by (simp add: d)
qed

end
