(* ===== verification/Client_Output.thy ===== *)
theory Client_Output
  imports Client_State Addresses
begin

text \<open>
  What the client prints (\<^verbatim>\<open>src/client/Client.cpp\<close>): the delays computed from a reflected packet
  (\<^verbatim>\<open>computeTimeData\<close>, \<^verbatim>\<open>populateMetricData\<close>), the synchronisation flag and the line of the legacy
  format (\<^verbatim>\<open>printMetrics\<close>), the headers, and the line for a lost packet.
\<close>

section \<open>Delays\<close>

record time_data =
  td_internal_delay :: int
  td_server_client_delay :: int
  td_client_server_delay :: int
  td_rtt :: u64
  td_client_send_time :: u64
  td_server_receive_time :: u64
  td_server_send_time :: u64

definition MAXINT64 :: u64 where
  "MAXINT64 = 9223372036854775807"

definition too_large :: "string \<Rightarrow> u64 \<Rightarrow> string list" where
  "too_large name t =
     (if t > MAXINT64
      then [name @ '' time is too large. Clock must be wrong or it'' @ [CHR 0x27] @ ''s the year 2262.'' @ dec (unat t)]
      else [])"

text \<open>
  The warnings go to the standard error. The differences are of \<^verbatim>\<open>int64_t\<close> values; the three times of the
  packet are below \<open>2^63\<close>, so only a receive time past the year 2262 could overflow them.
\<close>

definition computeTimeData :: "u64 \<Rightarrow> reflector_packet \<Rightarrow> time_data \<times> string list" where
  "computeTimeData client_receive_time p =
     (let client_send_time = timestamp_to_nsec (ntohts (rp_sender_timestamp p));
          server_receive_time = timestamp_to_nsec (ntohts (rp_receive_timestamp p));
          server_send_time = timestamp_to_nsec (ntohts (rp_timestamp p))
      in (\<lparr>td_internal_delay = sint server_send_time - sint server_receive_time,
           td_server_client_delay = sint client_receive_time - sint server_send_time,
           td_client_server_delay = sint server_receive_time - sint client_send_time,
           td_rtt = client_receive_time - client_send_time,
           td_client_send_time = client_send_time,
           td_server_receive_time = server_receive_time,
           td_server_send_time = server_send_time\<rparr>,
          too_large ''Client receive'' client_receive_time @ too_large ''Server send'' server_send_time @
          too_large ''Client send'' client_send_time @ too_large ''Server receive'' server_receive_time))"

record metric_data =
  md_ip :: string
  md_sending_port :: u16
  md_receiving_port :: u16
  md_payload_length :: u16
  md_client_server_delay_nanoseconds :: int
  md_server_client_delay_nanoseconds :: int
  md_internal_delay_nanoseconds :: int
  md_rtt_delay_nanoseconds :: u64
  md_initial_send_time :: u64
  md_packets_sent :: u64
  md_packets_lost :: u64
  md_packet :: reflector_packet
  md_ipHeader :: ip_header

definition populateMetricData ::
  "'st sqa_api \<Rightarrow> reflector_packet \<Rightarrow> ip_header \<Rightarrow> string \<Rightarrow> u16 \<Rightarrow> u16 \<Rightarrow> int \<Rightarrow> time_data \<Rightarrow> 'st \<Rightarrow> metric_data" where
  "populateMetricData sqa p ipHeader host local_port port n timeData stats =
     \<lparr>md_ip = host, md_sending_port = local_port, md_receiving_port = port,
      md_payload_length = word_of_int n,
      md_client_server_delay_nanoseconds = td_client_server_delay timeData,
      md_server_client_delay_nanoseconds = td_server_client_delay timeData,
      md_internal_delay_nanoseconds = td_internal_delay timeData,
      md_rtt_delay_nanoseconds = td_rtt timeData,
      md_initial_send_time = td_client_send_time timeData,
      md_packets_sent = sqa_number_of_samples sqa stats,
      md_packets_lost = sqa_number_of_lost_packets sqa stats,
      md_packet = p, md_ipHeader = ipHeader\<rparr>"

section \<open>The legacy format\<close>

definition isWithinEpsilon :: "double \<Rightarrow> double \<Rightarrow> double \<Rightarrow> bool" where
  "isWithinEpsilon a b percentEpsilon \<longleftrightarrow> \<bar>d_sub a b\<bar> \<le> d_mul (max \<bar>a\<bar> \<bar>b\<bar>) percentEpsilon"

definition SYNC_DELAY_EPSILON_THRESHOLD :: double where
  "SYNC_DELAY_EPSILON_THRESHOLD = rnd (1 / 100)"

definition sync_flag :: "metric_data \<Rightarrow> char" where
  "sync_flag data =
     (let estimated_rtt_nanoseconds =
            word_of_int (md_client_server_delay_nanoseconds data + md_server_client_delay_nanoseconds data +
              md_internal_delay_nanoseconds data) :: u64;
          sync = (if isWithinEpsilon (d_mul (d_of_int (uint (md_rtt_delay_nanoseconds data))) d_1em6)
                       (d_mul (d_of_int (uint estimated_rtt_nanoseconds)) d_1em6) SYNC_DELAY_EPSILON_THRESHOLD
                  then CHR ''Y'' else CHR ''N'')
      in if md_client_server_delay_nanoseconds data < 0 \<or> md_server_client_delay_nanoseconds data < 0
         then CHR ''N'' else sync)"

text \<open>Fields with the separator between them.\<close>

fun sep_join :: "char \<Rightarrow> string list \<Rightarrow> string" where
  "sep_join sep [] = []"
| "sep_join sep [x] = x"
| "sep_join sep (x # y # xs) = x @ [sep] @ sep_join sep (y # xs)"

definition milliseconds :: "int \<Rightarrow> string" where
  "milliseconds ns = print_fixed (d_mul (d_of_int ns) d_1em6)"

definition metrics_fields :: "client_args \<Rightarrow> metric_data \<Rightarrow> string list" where
  "metrics_fields a data =
     [dec (unat (md_initial_send_time data)), md_ip data,
      dec (unat (ntohl (rp_sender_seq_number (md_packet data)))),
      dec (unat (ntohl (rp_seq_number (md_packet data)))),
      dec (unat (md_sending_port data)), dec (unat (md_receiving_port data)), [sync_flag data],
      dec (unat (rp_sender_ttl (md_packet data))), dec (unat (ttl (md_ipHeader data))),
      dec (unat (ca_snd_tos a)), dec (unat (rp_sender_tos (md_packet data))), dec (unat (tos (md_ipHeader data))),
      milliseconds (uint (md_rtt_delay_nanoseconds data)), milliseconds (md_internal_delay_nanoseconds data),
      milliseconds (md_client_server_delay_nanoseconds data), milliseconds (md_server_client_delay_nanoseconds data),
      dec (unat (md_payload_length data))] @
     (if ca_print_lost_packets a
      then [dec (unat (md_packets_sent data)), dec (unat (md_packets_lost data))] else [])"

definition printMetrics :: "metric_data \<Rightarrow> 'st client \<Rightarrow> 'st client" where
  "printMetrics data c =
     print (sep_join (ca_sep (args c)) (metrics_fields (args c) data) @ [CHR 0x0A]) c"

section \<open>Headers and lost packets\<close>

definition legacy_header :: "client_args \<Rightarrow> string list" where
  "legacy_header a =
     [''Time'', ''IP'', ''Snd#'', ''Rcv#'', ''SndPort'', ''RscPort'', ''Sync'', ''FW_TTL'', ''SW_TTL'', ''SndTOS'',
      ''FW_TOS'', ''SW_TOS'', ''RTT'', ''IntD'', ''FWD'', ''BWD'', ''PLEN''] @
     (if ca_print_lost_packets a then [''SENT'', ''LOST''] else [])"

definition raw_header :: "string list" where
  "raw_header =
     [''packet_id'', ''payload_len'', ''client_send_epoch_nanoseconds'', ''server_receive_epoch_nanoseconds'',
      ''server_send_epoch_nanoseconds'', ''client_receive_epoch_nanoseconds'']"

definition clockcorrected_header :: "string list" where
  "clockcorrected_header =
     [''packet_id'', ''payload_len'', ''packet_generated_timestamp'', ''delay_to_server'',
      ''delay_to_server_response'', ''delay_round_trip'']"

definition printRawDataHeader :: "'st client \<Rightarrow> 'st client" where
  "printRawDataHeader c = print (sep_join (ca_sep (args c)) raw_header @ [CHR 0x0A]) c"

definition printHeader :: "'st client \<Rightarrow> 'st client" where
  "printHeader c =
     (if ca_print_format (args c) = ''legacy''
      then print (sep_join (ca_sep (args c)) (legacy_header (args c)) @ [CHR 0x0A]) c
      else if ca_print_format (args c) = ''raw''
      then print (sep_join (ca_sep (args c)) raw_header @ [CHR 0x0A]) c
      else if ca_print_format (args c) = ''clockcorrected''
      then print (sep_join (ca_sep (args c)) clockcorrected_header @ [CHR 0x0A]) c
      else c)"

definition lost_packet_fields :: "u32 \<Rightarrow> u64 \<Rightarrow> u16 \<Rightarrow> string list" where
  "lost_packet_fields i initial_send_time n =
     [dec (unat initial_send_time), [], dec (unat i), [], [], [], [], [], [], [], ''-'', [], [], [], [], [],
      dec (unat n), []]"

definition print_lost_packet :: "u32 \<Rightarrow> u64 \<Rightarrow> u16 \<Rightarrow> 'st client \<Rightarrow> 'st client" where
  "print_lost_packet i initial_send_time n c =
     print (sep_join (ca_sep (args c)) (lost_packet_fields i initial_send_time n) @ [CHR 0x0A]) c"

section \<open>A reflected packet\<close>

text \<open>A local port that is not a number ends the process with the message; \<^verbatim>\<open>env_inet_ntop\<close> is a parameter.\<close>

definition printReflectorPacket ::
  "(u8 \<Rightarrow> u8 list \<Rightarrow> string option) \<Rightarrow> 'st sqa_api \<Rightarrow> reflector_packet \<Rightarrow> msghdr \<Rightarrow> int \<Rightarrow> u64 \<Rightarrow> 'st \<Rightarrow>
   'st client \<Rightarrow> string + 'st client" where
  "printReflectorPacket inet_ntop sqa p hdr n client_receive_time stats c =
     (let (ipHeader, err) = get_ip_header (msg_control hdr);
          c = c\<lparr>stderr := stderr c @ err\<rparr>;
          (port, host) = parse_ip_address inet_ntop (msg_name hdr) 0 [] (ca_ip_version (args c))
      in case stoi (ca_local_port (args c)) of
           Inl Out_of_range \<Rightarrow> Inl (''Local port out of range: '' @ ca_local_port (args c))
         | Inl _ \<Rightarrow> Inl (''Invalid local port: '' @ ca_local_port (args c))
         | Inr local \<Rightarrow>
             let (timeData, warnings) = computeTimeData client_receive_time p;
                 c = c\<lparr>stderr := stderr c @ warnings\<rparr>;
                 data = populateMetricData sqa p ipHeader host (word_of_int local) port n timeData stats
             in Inr (if ca_print_RTT_only (args c)
                     then print (print_fixed (d_div (d_of_int (uint (td_rtt timeData))) d_1em6) @ [CHR 0x0A]) c
                     else printMetrics data c))"

section \<open>Properties\<close>

lemma round_half_even_near: "\<bar>y - of_int n\<bar> < 1 / 2 \<Longrightarrow> round_half_even y = n"
proof -
  assume a: "\<bar>y - of_int n\<bar> < 1 / 2"
  then have "\<bar>of_int (round_half_even y) - (of_int n :: rat)\<bar> < 1"
    using round_half_even_error [of y] by linarith
  then show ?thesis by linarith
qed

lemma milliseconds_error:
  assumes "\<bar>ns\<bar> < 2 ^ 50"
  shows "\<bar>d_mul (d_of_int ns) d_1em6 * 1000000 - of_int ns\<bar> < 1 / 2"
proof -
  define e where "e = d_1em6 * 1000000"
  have "\<bar>d_1em6 - 1 / 1000000\<bar> \<le> 1 / 1000000 / 2 ^ 53"
    using rnd_error [of "1 / 1000000"] by (simp add: d_1em6_def)
  then have e: "\<bar>e - 1\<bar> \<le> 1 / 2 ^ 53" unfolding e_def abs_le_iff by linarith
  define z where "z = of_int ns * e"
  have n: "\<bar>of_int ns\<bar> < (2 ^ 50 :: rat)" using assms by (metis of_int_abs of_int_less_iff of_int_numeral of_int_power)
  have z: "\<bar>z - of_int ns\<bar> \<le> 1 / 8"
  proof -
    have "\<bar>z - of_int ns\<bar> = \<bar>of_int ns\<bar> * \<bar>e - 1\<bar>" by (simp add: z_def abs_mult [symmetric] algebra_simps)
    also have "\<dots> \<le> 2 ^ 50 * (1 / 2 ^ 53)" using n e by (intro mult_mono) simp_all
    finally show ?thesis by simp
  qed
  have m: "d_mul (d_of_int ns) d_1em6 = rnd (of_int ns * d_1em6)"
    using assms by (simp add: d_mul_def)
  define y where "y = of_int ns * d_1em6"
  have zy: "z = y * 1000000" by (simp add: z_def e_def y_def)
  have "\<bar>rnd y * 1000000 - z\<bar> = \<bar>rnd y - y\<bar> * 1000000"
    unfolding zy left_diff_distrib [symmetric] abs_mult by simp
  also have "\<dots> \<le> \<bar>y\<bar> / 2 ^ 53 * 1000000" using rnd_error [of y] by (intro mult_right_mono) simp_all
  also have "\<dots> = \<bar>z\<bar> / 2 ^ 53" by (simp add: zy abs_mult)
  finally have "\<bar>rnd (of_int ns * d_1em6) * 1000000 - z\<bar> \<le> \<bar>z\<bar> / 2 ^ 53" unfolding y_def .
  moreover have "\<bar>z\<bar> / 2 ^ 53 \<le> 1 / 4"
  proof -
    have "\<bar>z\<bar> \<le> 2 ^ 50 + 1 / 8" using z n by linarith
    then show ?thesis by simp
  qed
  ultimately show ?thesis using z unfolding m by linarith
qed

lemma milliseconds_exact:
  assumes "\<bar>ns\<bar> < 2 ^ 50"
  shows "milliseconds ns =
     (if ns < 0 then ''-'' else []) @ dec (nat \<bar>ns\<bar> div 1000000) @ ''.'' @ pad_zeros 6 (dec (nat \<bar>ns\<bar> mod 1000000))"
proof -
  let ?x = "d_mul (d_of_int ns) d_1em6"
  have e: "\<bar>?x * 1000000 - of_int ns\<bar> < 1 / 2" by (rule milliseconds_error [OF assms])
  have s: "?x < 0 \<longleftrightarrow> ns < 0"
  proof
    assume "?x < 0"
    then have "of_int ns < (1 / 2 :: rat)" using e by linarith
    moreover have "ns \<noteq> 0" using \<open>?x < 0\<close> by (auto simp: d_mul_def d_of_int_def)
    ultimately show "ns < 0" by linarith
  next
    assume "ns < 0"
    then have "of_int ns \<le> (-1 :: rat)" by linarith
    then show "?x < 0" using e by linarith
  qed
  have "\<bar>\<bar>?x\<bar> * 1000000 - of_int \<bar>ns\<bar>\<bar> < 1 / 2"
    using e s by (cases "ns < 0") (auto simp: abs_if split: if_splits)
  then have "round_half_even (\<bar>?x\<bar> * 1000000) = \<bar>ns\<bar>" by (rule round_half_even_near)
  then show ?thesis by (simp add: milliseconds_def print_fixed_def s Let_def)
qed

text \<open>Splitting a line at the separator.\<close>

fun fields_of :: "char \<Rightarrow> string \<Rightarrow> string list" where
  "fields_of sep [] = [[]]"
| "fields_of sep (x # xs) =
     (if x = sep then [] # fields_of sep xs
      else case fields_of sep xs of [] \<Rightarrow> [[x]] | f # fs \<Rightarrow> (x # f) # fs)"

lemma fields_of_word: "sep \<notin> set f \<Longrightarrow> fields_of sep f = [f]"
  by (induction f) auto

lemma fields_of_append: "sep \<notin> set f \<Longrightarrow> fields_of sep (f @ sep # rest) = f # fields_of sep rest"
  by (induction f) auto

lemma fields_of_join:
  "fs \<noteq> [] \<Longrightarrow> \<forall>f \<in> set fs. sep \<notin> set f \<Longrightarrow> fields_of sep (sep_join sep fs) = fs"
  by (induction sep fs rule: sep_join.induct) (simp_all add: fields_of_word fields_of_append)

lemma set_dec: "c \<in> set (dec n) \<Longrightarrow> is_digit c"
  using dec_digits by blast

lemma is_digit_zero: "is_digit CHR ''0''"
  by (simp add: is_digit_def)

lemma set_print_fixed: "c \<in> set (print_fixed x) \<Longrightarrow> is_digit c \<or> c \<in> set ''.-''"
  using is_digit_zero by (auto simp: print_fixed_def pad_zeros_def Let_def set_dec split: if_splits)

definition sep_free :: "char \<Rightarrow> string list \<Rightarrow> bool" where
  "sep_free sep names \<longleftrightarrow> \<not> is_digit sep \<and> sep \<notin> set ''.-YN'' \<and> (\<forall>name \<in> set names. sep \<notin> set name)"

text \<open>
  A line of the legacy format, cut at the separator, gives back its fields, one for each name of the
  header, when the separator is not a character of a number, a flag, the address or the header. The
  field for a delay of magnitude below \<open>2^50\<close> nanoseconds (13 days) is the delay in milliseconds with
  all six digits after the point exact.
\<close>

theorem legacy_line_columns:
  assumes "sep_free (ca_sep a) (md_ip data # legacy_header a)"
    and "\<bar>md_client_server_delay_nanoseconds data\<bar> < 2 ^ 50"
  shows "fields_of (ca_sep a) (sep_join (ca_sep a) (metrics_fields a data)) = metrics_fields a data
     \<and> length (metrics_fields a data) = length (fields_of (ca_sep a) (sep_join (ca_sep a) (legacy_header a)))
     \<and> fields_of (ca_sep a) (sep_join (ca_sep a) (legacy_header a)) ! 14 = ''FWD''
     \<and> (let ns = md_client_server_delay_nanoseconds data in
        metrics_fields a data ! 14 =
          (if ns < 0 then ''-'' else []) @ dec (nat \<bar>ns\<bar> div 1000000) @ ''.'' @ pad_zeros 6 (dec (nat \<bar>ns\<bar> mod 1000000)))"
proof -
  let ?sep = "ca_sep a"
  have d: "?sep \<notin> set (dec n)" for n using assms(1) set_dec by (auto simp: sep_free_def)
  have m: "?sep \<notin> set (milliseconds n)" for n
    using assms(1) set_print_fixed by (fastforce simp: sep_free_def milliseconds_def)
  have s: "?sep \<noteq> sync_flag data"
    using assms(1) by (auto simp: sep_free_def sync_flag_def Let_def)
  have ip: "?sep \<notin> set (md_ip data)" using assms(1) by (simp add: sep_free_def)
  have f: "\<forall>f \<in> set (metrics_fields a data). ?sep \<notin> set f"
    by (auto simp: metrics_fields_def d m s ip)
  have h: "fields_of ?sep (sep_join ?sep (legacy_header a)) = legacy_header a"
    using assms(1) by (intro fields_of_join) (simp_all add: sep_free_def legacy_header_def)
  have e: "metrics_fields a data ! 14 = milliseconds (md_client_server_delay_nanoseconds data)"
    "legacy_header a ! 14 = ''FWD''" by (simp_all add: metrics_fields_def legacy_header_def)
  have l: "length (metrics_fields a data) = length (legacy_header a)"
    by (simp add: metrics_fields_def legacy_header_def)
  have "fields_of ?sep (sep_join ?sep (metrics_fields a data)) = metrics_fields a data"
    using f by (intro fields_of_join) (simp add: metrics_fields_def)
  then show ?thesis
    unfolding h e l Let_def by (simp only: milliseconds_exact [OF assms(2)] simp_thms)
qed

text \<open>
  C23: The synchronisation flag is Y exactly when neither one-way delay is negative. The comparison of the
  measured with the estimated round-trip time never decides it: for every reflected packet the three
  delays add up to the measured time, as 64-bit numbers.
\<close>

theorem sync_flag_meaning:
  "sync_flag (populateMetricData sqa p hdr host lp port n (fst (computeTimeData t p)) stats) =
     (if sint t < sint (timestamp_to_nsec (ntohts (rp_timestamp p)))
       \<or> sint (timestamp_to_nsec (ntohts (rp_receive_timestamp p))) < sint (timestamp_to_nsec (ntohts (rp_sender_timestamp p)))
      then CHR ''N'' else CHR ''Y'')"
proof -
  have w: "isWithinEpsilon x x SYNC_DELAY_EPSILON_THRESHOLD" for x
    by (simp add: isWithinEpsilon_def d_sub_def d_mul_def SYNC_DELAY_EPSILON_THRESHOLD_def rnd_nonneg)
  have "word_of_int (sint b - sint a + (sint t - sint d) + (sint d - sint b)) = t - a" for a b d :: u64
    by (simp add: wi_hom_syms)
  then show ?thesis
    by (auto simp: sync_flag_def populateMetricData_def computeTimeData_def w Let_def)
qed

definition sample_metrics :: metric_data where
  "sample_metrics = \<lparr>md_ip = ''10.0.0.1'', md_sending_port = 1, md_receiving_port = 2, md_payload_length = 50,
     md_client_server_delay_nanoseconds = - 1500042, md_server_client_delay_nanoseconds = 2000000,
     md_internal_delay_nanoseconds = 10, md_rtt_delay_nanoseconds = 499968, md_initial_send_time = 0,
     md_packets_sent = 0, md_packets_lost = 0, md_packet = reflector_packet_zero, md_ipHeader = \<lparr>ttl = 64, tos = 0\<rparr>\<rparr>"

theorem legacy_line_columns_witness:
  "metrics_fields client_args_default sample_metrics ! 14 = ''-1.500042''"
proof -
  have sep: "ca_sep client_args_default = CHR '',''" "ca_print_lost_packets client_args_default = False"
    "md_ip sample_metrics = ''10.0.0.1''" "md_client_server_delay_nanoseconds sample_metrics = - 1500042"
    by (simp_all add: client_args_default_def sample_metrics_def)
  have "\<not> is_digit CHR '',''" by (simp add: is_digit_def)
  then have "sep_free (ca_sep client_args_default) (md_ip sample_metrics # legacy_header client_args_default)"
    unfolding sep_free_def legacy_header_def sep by simp
  moreover have "dec 1 @ ''.'' @ pad_zeros 6 (dec 500042) = ''1.500042''"
    by (simp add: dec.simps digit_char_def pad_zeros_def)
  ultimately show ?thesis
    using legacy_line_columns [of client_args_default sample_metrics] by (simp add: Let_def sep)
qed

lemma rtt_only_scale: "print_fixed (d_div 1000000 d_1em6) = ''1000000000000.000000''"
proof -
  have l: "ilog2 (1 / 1000000) = -20" by (rule ilog2_unique) (simp_all add: power_int_def power_one_over)
  have r: "round_half_even (2 ^ 72 / 1000000) = 4722366482869645"
    by (rule round_half_even_near) (simp add: abs_less_iff)
  have d: "d_1em6 = 4722366482869645 / 2 ^ 72"
    using r by (simp add: d_1em6_def rnd_def l power_int_minus Let_def)
  have l2: "ilog2 (1000000 * 2 ^ 72 / 4722366482869645) = 39"
    by (rule ilog2_unique) simp_all
  have "round_half_even (1000000 * 2 ^ 72 / 4722366482869645 * 2 ^ 13) = 8192000000000000"
    by (rule round_half_even_near) (simp add: abs_less_iff)
  then have "rnd (1000000 * 2 ^ 72 / 4722366482869645) = 1000000000000"
    by (subst rnd_def, subst l2) (simp add: power_int_minus Let_def)
  then have "d_div 1000000 d_1em6 = 1000000000000" by (simp add: d_div_def d)
  moreover have "round_half_even 1000000000000000000 = 1000000000000000000"
    using round_half_even_of_int [of 1000000000000000000] by simp
  moreover have "dec 1000000000000 = ''1000000000000''" by (simp add: dec.simps digit_char_def)
  moreover have "pad_zeros 6 (dec 0) = ''000000''"
    by (simp add: dec.simps digit_char_def pad_zeros_def numeral_eq_Suc)
  ultimately show ?thesis by (simp add: print_fixed_def Let_def)
qed

text \<open>
  With \<^verbatim>\<open>--print-RTT-only\<close>, the round-trip time is divided by the constant 1e-6 that the other outputs
  multiply by: a time of one millisecond is printed as 1000000000000.000000.
\<close>

theorem print_RTT_only_scale:
  assumes "ca_print_RTT_only (args c)" and "stoi (ca_local_port (args c)) = Inr lp"
    and "t - timestamp_to_nsec (ntohts (rp_sender_timestamp p)) = 1000000"
  shows "\<exists>c'. printReflectorPacket ntop sqa p hdr n t stats c = Inr c' \<and>
     stdout c' = stdout c @ ''1000000000000.000000'' @ [CHR 0x0A]"
  using assms
  by (simp add: printReflectorPacket_def computeTimeData_def print_def rtt_only_scale Let_def split: prod.split)

definition rtt_only_client :: "unit client" where
  "rtt_only_client = client_init (client_args_default\<lparr>ca_print_RTT_only := True\<rparr>) [] 0 ()
     \<lparr>readings = (\<lambda>k. \<lparr>tv_sec = 0, tv_nsec = 0\<rparr>), ticks = 0\<rparr>"

definition no_stats :: "unit sqa_api" where
  "no_stats = \<lparr>sqa_stats_add_sample = (\<lambda>s t. s), sqa_stats_count_loss = (\<lambda>s. s), sqa_number_of_samples = (\<lambda>s. 0),
     sqa_number_of_lost_packets = (\<lambda>s. 0)\<rparr>"

theorem print_RTT_only_scale_witness:
  "\<exists>c'. printReflectorPacket (\<lambda>v b. None) no_stats reflector_packet_zero (make_msghdr [] 0 [] 0 [] 0) 42
       (timestamp_to_nsec (ntohts timestamp_zero) + 1000000) () rtt_only_client = Inr c' \<and>
     stdout c' = ''1000000000000.000000'' @ [CHR 0x0A]"
proof -
  have "stoi (ca_local_port (args rtt_only_client)) = Inr 0"
    by (simp add: rtt_only_client_def client_init_def client_args_default_def) code_simp
  moreover have "ca_print_RTT_only (args rtt_only_client)" "stdout rtt_only_client = []"
    "rp_sender_timestamp reflector_packet_zero = timestamp_zero"
    by (simp_all add: rtt_only_client_def client_init_def reflector_packet_zero_def)
  ultimately show ?thesis
    using print_RTT_only_scale [of rtt_only_client 0 "timestamp_to_nsec (ntohts timestamp_zero) + 1000000"
        reflector_packet_zero "\<lambda>v b. None" no_stats "make_msghdr [] 0 [] 0 [] 0" 42 "()"] by simp
qed

end
