(* ===== verification/Collator.thy ===== *)
theory Collator
  imports Client_State "HOL-Library.Multiset"
begin

text \<open>
  The collator of the client (\<^verbatim>\<open>src/client/Client.cpp\<close>): \<^verbatim>\<open>process_observation\<close> joins the observations
  of a packet in one entry of \<^verbatim>\<open>raw_data_list\<close>, \<^verbatim>\<open>aggregateRawData\<close> turns an entry into samples or a
  loss, and \<^verbatim>\<open>check_if_oldest_packet_should_be_processed\<close> retires the oldest entry when it is
  complete or older than the timeout. The list is shown to implement a finite map from packet
  identifiers to entries, and the entry of a packet to hold, for each observation point, the last
  time observed there.
\<close>

section \<open>Operations\<close>

definition record_observation :: "qed_observation \<Rightarrow> raw_data \<Rightarrow> raw_data" where
  "record_observation obs entry =
     (let entry = setPayloadLen (payload_len obs) entry in
      case observation_point obs of
        CLIENT_SEND \<Rightarrow> setClientSendEpochNanoseconds (epoch_nanoseconds obs) entry
      | SERVER_RECEIVE \<Rightarrow> setServerReceiveEpochNanoseconds (epoch_nanoseconds obs) entry
      | SERVER_SEND \<Rightarrow> setServerSendEpochNanoseconds (epoch_nanoseconds obs) entry
      | CLIENT_RECEIVE \<Rightarrow> setClientReceiveEpochNanoseconds (epoch_nanoseconds obs) entry
      | NUM_OBSERVATION_POINTS \<Rightarrow> entry)"

text \<open>The search loop: update the first entry with the identifier in place; \<^const>\<open>None\<close> when there
  is none.\<close>

fun update_entry :: "u32 \<Rightarrow> (raw_data \<Rightarrow> raw_data) \<Rightarrow> raw_data list \<Rightarrow> raw_data list option" where
  "update_entry i f [] = None"
| "update_entry i f (r # rs) =
     (if rd_packet_id r = i then Some (f r # rs) else map_option ((#) r) (update_entry i f rs))"

definition process_observation :: "qed_observation \<Rightarrow> 'st client \<Rightarrow> 'st client" where
  "process_observation obs c =
     (case update_entry (packet_id obs) (record_observation obs) (rl_observations (raw_data_list c)) of
        Some rs \<Rightarrow> c\<lparr>raw_data_list := (raw_data_list c)\<lparr>rl_observations := rs\<rparr>\<rparr>
      | None \<Rightarrow>
          (case now_timestamp c of (now_ts, c') \<Rightarrow>
             let entry = record_observation obs (RawData (timestamp_to_nsec now_ts) (packet_id obs))
             in c'\<lparr>raw_data_list := rl_addObservation entry (raw_data_list c')\<rparr>))"

definition timespec_zero :: timespec where
  "timespec_zero = \<lparr>tv_sec = 0, tv_nsec = 0\<rparr>"

definition aggregateRawData :: "'st sqa_api \<Rightarrow> raw_data \<Rightarrow> 'st client \<Rightarrow> 'st client" where
  "aggregateRawData sqa r c =
     (let forward = client_send_epoch_nanoseconds r > 0 \<and> server_receive_epoch_nanoseconds r > 0;
          client_server_delay =
            (if forward
             then nanosecondsToTimespec
                    (server_receive_epoch_nanoseconds r - client_send_epoch_nanoseconds r)
             else timespec_zero);
          c = (if forward
               then c\<lparr>stats_client_server :=
                        sqa_stats_add_sample sqa (stats_client_server c) client_server_delay\<rparr>
               else c);
          complete = server_send_epoch_nanoseconds r > 0 \<and> client_receive_epoch_nanoseconds r > 0 \<and>
            server_receive_epoch_nanoseconds r > 0 \<and> client_send_epoch_nanoseconds r > 0;
          server_client_delay =
            (if complete
             then nanosecondsToTimespec
                    (client_receive_epoch_nanoseconds r - server_send_epoch_nanoseconds r)
             else timespec_zero);
          internal_delay =
            (if complete
             then nanosecondsToTimespec
                    (server_send_epoch_nanoseconds r - server_receive_epoch_nanoseconds r)
             else timespec_zero);
          c = (if complete
               then c\<lparr>stats_server_client :=
                        sqa_stats_add_sample sqa (stats_server_client c) server_client_delay,
                      stats_internal := sqa_stats_add_sample sqa (stats_internal c) internal_delay\<rparr>
               else c\<lparr>stats_client_server := sqa_stats_count_loss sqa (stats_client_server c),
                      stats_internal := sqa_stats_count_loss sqa (stats_internal c),
                      stats_server_client := sqa_stats_count_loss sqa (stats_server_client c),
                      stats_RTT := sqa_stats_count_loss sqa (stats_RTT c)\<rparr>);
          rtt_delay = safe_tspecplus client_server_delay server_client_delay
      in if tv_sec rtt_delay > 0 \<or> tv_nsec rtt_delay > 0
         then c\<lparr>stats_RTT := sqa_stats_add_sample sqa (stats_RTT c) rtt_delay\<rparr>
         else c)"

definition raw_data_line :: "char \<Rightarrow> raw_data \<Rightarrow> string" where
  "raw_data_line sep r =
     dec (unat (rd_packet_id r)) @ [sep] @ dec (unat (rd_payload_len r)) @ [sep] @
     dec (unat (client_send_epoch_nanoseconds r)) @ [sep] @
     dec (unat (server_receive_epoch_nanoseconds r)) @ [sep] @
     dec (unat (server_send_epoch_nanoseconds r)) @ [sep] @
     dec (unat (client_receive_epoch_nanoseconds r)) @ [CHR 0x0A]"

definition entry_complete :: "raw_data \<Rightarrow> bool" where
  "entry_complete r \<longleftrightarrow>
     client_send_epoch_nanoseconds r > 0 \<and> server_receive_epoch_nanoseconds r > 0 \<and>
     server_send_epoch_nanoseconds r > 0 \<and> client_receive_epoch_nanoseconds r > 0"

text \<open>The difference and the comparison are unsigned 64-bit.\<close>

definition entry_timed_out :: "client_args \<Rightarrow> u64 \<Rightarrow> raw_data \<Rightarrow> bool" where
  "entry_timed_out a now r \<longleftrightarrow> now - added_at_epoch_nanoseconds r > ucast (ca_timeout a) * 1000000000"

definition check_if_oldest_packet_should_be_processed :: "'st sqa_api \<Rightarrow> 'st client \<Rightarrow> 'st client" where
  "check_if_oldest_packet_should_be_processed sqa c =
     (let oldest = rl_getOldestEntry (raw_data_list c);
          (now, c) = now_timestamp c;
          now_nanoseconds = timestamp_to_nsec now
      in case oldest of
           Some r \<Rightarrow>
             (if entry_complete r \<or> entry_timed_out (args c) now_nanoseconds r
              then let c = aggregateRawData sqa r c;
                       c = (if ca_print_format (args c) = ''raw''
                            then print (raw_data_line (ca_sep (args c)) r) c else c)
                   in (case rl_popObservation (raw_data_list c) of
                         Some (_, q) \<Rightarrow> c\<lparr>raw_data_list := q\<rparr>
                       | None \<Rightarrow> c)
              else c)
         | None \<Rightarrow> (if sending_completed c > 0 then c\<lparr>collator_finished := 1\<rparr> else c))"

text \<open>One round of the loop of \<^verbatim>\<open>runCollatorThread\<close>.\<close>

definition collator_round :: "'st sqa_api \<Rightarrow> 'st client \<Rightarrow> 'st client" where
  "collator_round sqa c =
     (if \<not> ol_isEmpty (observation_list c)
      then (case ol_popObservation (observation_list c) of
              Some (tmp_obs, q) \<Rightarrow> process_observation tmp_obs (c\<lparr>observation_list := q\<rparr>)
            | None \<Rightarrow> c)
      else check_if_oldest_packet_should_be_processed sqa c)"

text \<open>
  The loop itself, and the thread, when nothing else changes the client any more; \<^const>\<open>None\<close> is a
  loop that does not end. The sleep between two rounds has no effect on the state.
\<close>

partial_function (option) collator_loop :: "'st sqa_api \<Rightarrow> 'st client \<Rightarrow> 'st client option" where
  "collator_loop sqa c =
     (if collator_finished c = 0 then collator_loop sqa (collator_round sqa c) else Some c)"

definition runCollatorThread :: "'st sqa_api \<Rightarrow> 'st client \<Rightarrow> 'st client option" where
  "runCollatorThread sqa c = collator_loop sqa (c\<lparr>collator_started := 1\<rparr>)"

section \<open>The entries as a map\<close>

definition entries :: "raw_data list \<Rightarrow> (u32 \<rightharpoonup> raw_data)" where
  "entries rs = map_of (map (\<lambda>r. (rd_packet_id r, r)) rs)"

definition ids :: "'st client \<Rightarrow> u32 list" where
  "ids c = map rd_packet_id (rl_observations (raw_data_list c))"

text \<open>The abstract operation: an observation at time \<^term>\<open>now\<close>.\<close>

definition observe :: "qed_observation \<Rightarrow> u64 \<Rightarrow> (u32 \<rightharpoonup> raw_data) \<Rightarrow> (u32 \<rightharpoonup> raw_data)" where
  "observe obs now m =
     m(packet_id obs \<mapsto>
         record_observation obs
           (case m (packet_id obs) of None \<Rightarrow> RawData now (packet_id obs) | Some r \<Rightarrow> r))"

lemma record_observation_fields [simp]:
  "rd_packet_id (record_observation obs r) = rd_packet_id r"
  "added_at_epoch_nanoseconds (record_observation obs r) = added_at_epoch_nanoseconds r"
  "rd_payload_len (record_observation obs r) = payload_len obs"
  "client_send_epoch_nanoseconds (record_observation obs r) =
     (if observation_point obs = CLIENT_SEND then epoch_nanoseconds obs
      else client_send_epoch_nanoseconds r)"
  "server_receive_epoch_nanoseconds (record_observation obs r) =
     (if observation_point obs = SERVER_RECEIVE then epoch_nanoseconds obs
      else server_receive_epoch_nanoseconds r)"
  "server_send_epoch_nanoseconds (record_observation obs r) =
     (if observation_point obs = SERVER_SEND then epoch_nanoseconds obs
      else server_send_epoch_nanoseconds r)"
  "client_receive_epoch_nanoseconds (record_observation obs r) =
     (if observation_point obs = CLIENT_RECEIVE then epoch_nanoseconds obs
      else client_receive_epoch_nanoseconds r)"
  by (cases "observation_point obs"; simp add: record_observation_def raw_data_setters)+

lemma RawData_fields [simp]:
  "rd_packet_id (RawData t i) = i" "added_at_epoch_nanoseconds (RawData t i) = t"
  "client_send_epoch_nanoseconds (RawData t i) = 0"
  "server_receive_epoch_nanoseconds (RawData t i) = 0"
  "server_send_epoch_nanoseconds (RawData t i) = 0"
  "client_receive_epoch_nanoseconds (RawData t i) = 0"
  by (simp_all add: RawData_def)

lemma tick_fields [simp]:
  "raw_data_list (tick c) = raw_data_list c" "observation_list (tick c) = observation_list c"
  "args (tick c) = args c" "sending_completed (tick c) = sending_completed c"
  "collator_finished (tick c) = collator_finished c" "stdout (tick c) = stdout c"
  "stats_RTT (tick c) = stats_RTT c" "stats_internal (tick c) = stats_internal c"
  "stats_client_server (tick c) = stats_client_server c"
  "stats_server_client (tick c) = stats_server_client c"
  by (simp_all add: tick_def)

lemma entries_None: "entries rs i = None \<longleftrightarrow> i \<notin> rd_packet_id ` set rs"
  by (auto simp: entries_def map_of_eq_None_iff image_image)

lemma update_entry_None: "update_entry i f rs = None \<longleftrightarrow> i \<notin> rd_packet_id ` set rs"
  by (induction rs) auto

lemma update_entry_Some:
  assumes "update_entry i f rs = Some rs'" and f: "\<And>r. rd_packet_id (f r) = rd_packet_id r"
  shows "map rd_packet_id rs' = map rd_packet_id rs"
    and "entries rs' = (entries rs)(i \<mapsto> f (the (entries rs i)))"
  using assms(1)
proof (induction rs arbitrary: rs')
  case (Cons r rs)
  {
    case 1
    with Cons.IH(1) show ?case by (auto simp: f split: if_splits)
  next
    case 2
    with Cons.IH(2) show ?case by (auto simp: f entries_def fun_eq_iff split: if_splits)
  }
qed simp_all

lemma process_observation_ids:
  "ids (process_observation obs c) =
     (if packet_id obs \<in> set (ids c) then ids c else ids c @ [packet_id obs])"
  using update_entry_None [of "packet_id obs" "record_observation obs" "rl_observations (raw_data_list c)"]
    update_entry_Some(1) [of "packet_id obs" "record_observation obs" "rl_observations (raw_data_list c)"]
  by (auto simp: process_observation_def ids_def now_timestamp_eq Let_def rl_addObservation_def
      split: option.splits)

lemma process_observation_fresh:
  assumes "packet_id obs \<notin> set (ids c)"
  shows "process_observation obs c =
     (tick c)\<lparr>raw_data_list :=
        rl_addObservation (record_observation obs (RawData (next_nsec c) (packet_id obs))) (raw_data_list c)\<rparr>"
  using assms update_entry_None [of "packet_id obs" "record_observation obs" "rl_observations (raw_data_list c)"]
  by (simp add: process_observation_def ids_def now_timestamp_eq next_nsec_def Let_def)

lemma process_observation_clock:
  "clock (process_observation obs c) =
     (if packet_id obs \<in> set (ids c) then clock c else clock (tick c))"
  using update_entry_None [of "packet_id obs" "record_observation obs" "rl_observations (raw_data_list c)"]
  by (auto simp: process_observation_def ids_def now_timestamp_eq Let_def split: option.splits)

lemma entries_snoc:
  "rd_packet_id r \<notin> rd_packet_id ` set rs \<Longrightarrow> entries (rs @ [r]) = (entries rs)(rd_packet_id r \<mapsto> r)"
  by (induction rs) (auto simp: entries_def fun_eq_iff)

lemma process_observation_entries:
  "entries (rl_observations (raw_data_list (process_observation obs c))) =
     observe obs (next_nsec c) (entries (rl_observations (raw_data_list c)))"
proof (cases "update_entry (packet_id obs) (record_observation obs) (rl_observations (raw_data_list c))")
  case None
  then have n: "packet_id obs \<notin> rd_packet_id ` set (rl_observations (raw_data_list c))"
    by (simp add: update_entry_None)
  then have "entries (rl_observations (raw_data_list c)) (packet_id obs) = None"
    by (simp add: entries_None)
  with None n show ?thesis
    by (simp add: process_observation_def now_timestamp_eq rl_addObservation_def entries_snoc
        observe_def next_nsec_def Let_def)
next
  case (Some rs)
  then have "packet_id obs \<in> rd_packet_id ` set (rl_observations (raw_data_list c))"
    by (metis option.distinct(1) update_entry_None)
  then obtain r where "entries (rl_observations (raw_data_list c)) (packet_id obs) = Some r"
    by (metis entries_None not_Some_eq)
  with Some update_entry_Some(2) [OF Some] show ?thesis
    by (simp add: process_observation_def observe_def)
qed
section \<open>Joining the observations of a packet\<close>

text \<open>The last time a packet was observed at a point, 0 when it was not.\<close>

definition last_time :: "observation_point \<Rightarrow> u32 \<Rightarrow> qed_observation list \<Rightarrow> u64" where
  "last_time pt i obss =
     last (0 # map epoch_nanoseconds (filter (\<lambda>x. observation_point x = pt \<and> packet_id x = i) obss))"

definition joined :: "qed_observation list \<Rightarrow> u32 \<Rightarrow> raw_data option \<Rightarrow> bool" where
  "joined obss i e \<longleftrightarrow>
     (case e of
        None \<Rightarrow> i \<notin> packet_id ` set obss
      | Some r \<Rightarrow>
          i \<in> packet_id ` set obss \<and> rd_packet_id r = i \<and>
          rd_payload_len r = last (0 # map payload_len (filter (\<lambda>x. packet_id x = i) obss)) \<and>
          client_send_epoch_nanoseconds r = last_time CLIENT_SEND i obss \<and>
          server_receive_epoch_nanoseconds r = last_time SERVER_RECEIVE i obss \<and>
          server_send_epoch_nanoseconds r = last_time SERVER_SEND i obss \<and>
          client_receive_epoch_nanoseconds r = last_time CLIENT_RECEIVE i obss)"

lemma last_time_snoc:
  "last_time pt i (obss @ [obs]) =
     (if observation_point obs = pt \<and> packet_id obs = i then epoch_nanoseconds obs
      else last_time pt i obss)"
  unfolding last_time_def last_of_kind_snoc ..

lemma last_time_fresh: "i \<notin> packet_id ` set obss \<Longrightarrow> last_time pt i obss = 0"
  by (auto simp: last_time_def filter_empty_conv)

lemma joined_snoc:
  assumes "\<And>j. joined obss j (m j)"
  shows "joined (obss @ [obs]) i (observe obs now m i)"
proof (cases "packet_id obs = i")
  case False
  with assms [of i] show ?thesis
    by (auto simp: joined_def observe_def last_time_snoc last_of_kind_snoc split: option.splits)
next
  case True
  with assms [of i] show ?thesis
    by (cases "m i")
       (auto simp: joined_def observe_def last_time_snoc last_of_kind_snoc last_time_fresh)
qed

lemma fold_process_joined:
  assumes "rl_observations (raw_data_list c) = []"
  shows "joined obss i (entries (rl_observations (raw_data_list (fold process_observation obss c))) i)"
proof (induction obss arbitrary: i rule: rev_induct)
  case Nil
  then show ?case using assms by (simp add: joined_def entries_def)
next
  case (snoc obs obss)
  show ?case
    unfolding fold_append fold_simps comp_apply process_observation_entries
    by (rule joined_snoc) (rule snoc.IH)
qed

lemma mset_eq_short:
  assumes "mset xs = mset ys" and "length xs \<le> 1" shows "xs = ys"
proof (cases xs)
  case Nil
  with assms show ?thesis by simp
next
  case (Cons x zs)
  with assms(2) have "xs = [x]" by simp
  moreover from this assms(1) have "mset ys = {#x#}" by simp
  then have "ys = [x]" by (simp add: mset_single_iff)
  ultimately show ?thesis by simp
qed

lemma last_time_perm:
  assumes "mset obss = mset obss'" and "distinct (map (\<lambda>x. (packet_id x, observation_point x)) obss)"
  shows "last_time pt i obss = last_time pt i obss'"
proof -
  let ?P = "\<lambda>x. observation_point x = pt \<and> packet_id x = i"
  have "distinct (map (\<lambda>x. (packet_id x, observation_point x)) (filter ?P obss))"
    using assms(2) by (rule distinct_map_filter)
  then have "length (filter ?P obss) \<le> 1"
    by (rule distinct_map_const_length [where k = "(i, pt)"]) auto
  moreover have "mset (filter ?P obss) = mset (filter ?P obss')"
    using assms(1) by (simp only: mset_filter)
  ultimately have "filter ?P obss = filter ?P obss'"
    by (rule mset_eq_short [rotated])
  then show ?thesis by (simp add: last_time_def)
qed
section \<open>Samples and losses\<close>

lemma timespec_positive:
  assumes "normalised t" and "0 \<le> tv_sec t"
  shows "(0 < tv_sec t \<or> 0 < tv_nsec t) \<longleftrightarrow> nsec_of t \<noteq> 0"
proof -
  have "0 \<le> tv_nsec t" "0 \<le> tv_sec t * 1000000000" using assms by (auto simp: normalised_def)
  then show ?thesis using assms(2) unfolding nsec_of_def by linarith
qed

lemma safe_tspecplus_sec_nonneg:
  assumes "normalised a" "normalised b" "0 \<le> tv_sec a" "0 \<le> tv_sec b"
  shows "0 \<le> tv_sec (safe_tspecplus a b)"
  using safe_tspecplus_nsec_of [of a b] safe_tspecplus_normalised [OF assms(1,2)] assms
  by (auto simp: nsec_of_def normalised_def)

lemma nanosecondsToTimespec_sec_nonneg [simp]: "0 \<le> tv_sec (nanosecondsToTimespec d)"
  by (simp add: pos_imp_zdiv_nonneg_iff)

lemma normalised_zero [simp]: "normalised timespec_zero" "nsec_of timespec_zero = 0" "tv_sec timespec_zero = 0"
  by (simp_all add: timespec_zero_def normalised_def nsec_of_def)

lemma rtt_positive:
  "(0 < tv_sec (safe_tspecplus (nanosecondsToTimespec a) (nanosecondsToTimespec b)) \<or>
    0 < tv_nsec (safe_tspecplus (nanosecondsToTimespec a) (nanosecondsToTimespec b)))
   \<longleftrightarrow> \<not> (a = 0 \<and> b = 0)"
  by (subst timespec_positive)
     (auto simp: safe_tspecplus_sec_nonneg nanosecondsToTimespec_nsec_of add_nonneg_eq_0_iff
       simp flip: uint_0_iff simp del: nanosecondsToTimespec_simps)

lemma rtt_positive_zero:
  "(0 < tv_sec (safe_tspecplus (nanosecondsToTimespec a) timespec_zero) \<or>
    0 < tv_nsec (safe_tspecplus (nanosecondsToTimespec a) timespec_zero)) \<longleftrightarrow> a \<noteq> 0"
  "\<not> 0 < tv_sec (safe_tspecplus timespec_zero timespec_zero)"
  "\<not> 0 < tv_nsec (safe_tspecplus timespec_zero timespec_zero)"
proof -
  show "(0 < tv_sec (safe_tspecplus (nanosecondsToTimespec a) timespec_zero) \<or>
    0 < tv_nsec (safe_tspecplus (nanosecondsToTimespec a) timespec_zero)) \<longleftrightarrow> a \<noteq> 0"
    by (subst timespec_positive)
       (auto simp: safe_tspecplus_sec_nonneg nanosecondsToTimespec_nsec_of
         simp flip: uint_0_iff simp del: nanosecondsToTimespec_simps)
  have "0 < tv_sec (safe_tspecplus timespec_zero timespec_zero) \<or>
    0 < tv_nsec (safe_tspecplus timespec_zero timespec_zero) \<longleftrightarrow> False"
    by (subst timespec_positive) (auto simp: safe_tspecplus_sec_nonneg)
  then show "\<not> 0 < tv_sec (safe_tspecplus timespec_zero timespec_zero)"
    and "\<not> 0 < tv_nsec (safe_tspecplus timespec_zero timespec_zero)" by auto
qed

lemma aggregate_complete:
  assumes "entry_complete r"
  shows "aggregateRawData sqa r c =
     (let cs = client_send_epoch_nanoseconds r; sr = server_receive_epoch_nanoseconds r;
          ss = server_send_epoch_nanoseconds r; cr = client_receive_epoch_nanoseconds r;
          fwd = nanosecondsToTimespec (sr - cs); bwd = nanosecondsToTimespec (cr - ss)
      in c\<lparr>stats_client_server := sqa_stats_add_sample sqa (stats_client_server c) fwd,
           stats_server_client := sqa_stats_add_sample sqa (stats_server_client c) bwd,
           stats_internal := sqa_stats_add_sample sqa (stats_internal c) (nanosecondsToTimespec (ss - sr)),
           stats_RTT := (if sr = cs \<and> cr = ss then stats_RTT c
                         else sqa_stats_add_sample sqa (stats_RTT c) (safe_tspecplus fwd bwd))\<rparr>)"
  using assms rtt_positive
    [of "server_receive_epoch_nanoseconds r - client_send_epoch_nanoseconds r"
        "client_receive_epoch_nanoseconds r - server_send_epoch_nanoseconds r"]
  unfolding aggregateRawData_def entry_complete_def Let_def by auto

lemma aggregate_incomplete:
  assumes "\<not> entry_complete r"
  shows "aggregateRawData sqa r c =
     (let cs = client_send_epoch_nanoseconds r; sr = server_receive_epoch_nanoseconds r;
          fwd = nanosecondsToTimespec (sr - cs); loss = sqa_stats_count_loss sqa
      in c\<lparr>stats_client_server :=
             loss (if cs > 0 \<and> sr > 0 then sqa_stats_add_sample sqa (stats_client_server c) fwd
                   else stats_client_server c),
           stats_server_client := loss (stats_server_client c),
           stats_internal := loss (stats_internal c),
           stats_RTT :=
             (if cs > 0 \<and> sr > 0 \<and> sr \<noteq> cs
              then sqa_stats_add_sample sqa (loss (stats_RTT c)) (safe_tspecplus fwd timespec_zero)
              else loss (stats_RTT c))\<rparr>)"
proof -
  let ?cs = "client_send_epoch_nanoseconds r" and ?sr = "server_receive_epoch_nanoseconds r"
  have n: "(server_send_epoch_nanoseconds r > 0 \<and> client_receive_epoch_nanoseconds r > 0 \<and>
      ?sr > 0 \<and> ?cs > 0) \<longleftrightarrow> False"
    using assms unfolding entry_complete_def by blast
  show ?thesis
  proof (cases "?cs > 0 \<and> ?sr > 0")
    case True
    then show ?thesis
      using rtt_positive_zero(1) [of "?sr - ?cs"]
      unfolding aggregateRawData_def Let_def n if_False by (cases "?sr = ?cs") simp_all
  next
    case False
    then show ?thesis
      unfolding aggregateRawData_def Let_def n if_False
      by (simp only: if_False rtt_positive_zero(2,3) simp_thms) auto
  qed
qed

section \<open>Retiring the oldest entry\<close>

lemma aggregate_frame [simp]:
  "raw_data_list (aggregateRawData sqa r c) = raw_data_list c"
  "observation_list (aggregateRawData sqa r c) = observation_list c"
  "args (aggregateRawData sqa r c) = args c" "clock (aggregateRawData sqa r c) = clock c"
  "stdout (aggregateRawData sqa r c) = stdout c"
  "sending_completed (aggregateRawData sqa r c) = sending_completed c"
  "collator_finished (aggregateRawData sqa r c) = collator_finished c"
  by (cases "entry_complete r"; simp add: aggregate_complete aggregate_incomplete Let_def)+

text \<open>What the program prints for a retired entry.\<close>

definition retired_output :: "client_args \<Rightarrow> raw_data \<Rightarrow> string" where
  "retired_output a r = (if ca_print_format a = ''raw'' then raw_data_line (ca_sep a) r else [])"

lemma check_oldest_eq:
  "check_if_oldest_packet_should_be_processed sqa c =
     (case rl_observations (raw_data_list c) of
        [] \<Rightarrow> (if sending_completed c > 0 then (tick c)\<lparr>collator_finished := 1\<rparr> else tick c)
      | r # rs \<Rightarrow>
          if entry_complete r \<or> entry_timed_out (args c) (next_nsec c) r
          then (aggregateRawData sqa r (tick c))\<lparr>
                 raw_data_list := (raw_data_list c)\<lparr>rl_observations := rs\<rparr>,
                 stdout := stdout c @ retired_output (args c) r\<rparr>
          else tick c)"
proof (cases "rl_observations (raw_data_list c)")
  case Nil
  then show ?thesis
    by (simp add: check_if_oldest_packet_should_be_processed_def rl_getOldestEntry_def
        now_timestamp_eq Let_def)
next
  case (Cons r rs)
  have "(aggregateRawData sqa r (tick c))\<lparr>raw_data_list := q, stdout := stdout c\<rparr> =
      (aggregateRawData sqa r (tick c))\<lparr>raw_data_list := q\<rparr>" for q
    by (rule client.equality) simp_all
  with Cons show ?thesis
    by (simp add: check_if_oldest_packet_should_be_processed_def rl_getOldestEntry_def
        rl_popObservation_def now_timestamp_eq print_def retired_output_def next_nsec_def Let_def)
qed

lemma check_oldest_ids:
  "ids (check_if_oldest_packet_should_be_processed sqa c) = ids c \<or>
   ids (check_if_oldest_packet_should_be_processed sqa c) = tl (ids c)"
  by (simp add: check_oldest_eq ids_def split: list.split)

lemma check_oldest_clock: "clock (check_if_oldest_packet_should_be_processed sqa c) = clock (tick c)"
  by (simp add: check_oldest_eq split: list.split)

lemma collator_round_distinct: "distinct (ids c) \<Longrightarrow> distinct (ids (collator_round sqa c))"
  using check_oldest_ids [of sqa c]
  by (auto simp: collator_round_def process_observation_ids distinct_tl split: option.splits)
     (auto simp: ids_def)
section \<open>The collator loop ends\<close>

definition all_stats :: "'st client \<Rightarrow> 'st \<times> 'st \<times> 'st \<times> 'st" where
  "all_stats c = (stats_RTT c, stats_internal c, stats_client_server c, stats_server_client c)"

lemma aggregate_stats_cong:
  "all_stats c = all_stats d \<Longrightarrow> all_stats (aggregateRawData sqa r c) = all_stats (aggregateRawData sqa r d)"
  by (cases "entry_complete r")
     (simp_all add: aggregate_complete aggregate_incomplete all_stats_def Let_def)

lemma fold_aggregate_stats_cong:
  "all_stats c = all_stats d \<Longrightarrow>
   all_stats (fold (aggregateRawData sqa) rs c) = all_stats (fold (aggregateRawData sqa) rs d)"
proof (induction rs arbitrary: c d)
  case (Cons r rs)
  from Cons.IH [OF aggregate_stats_cong [OF Cons.prems]] show ?case by simp
qed simp

text \<open>From a clock reading on, every entry is ready to be retired.\<close>

definition ready_from :: "nat \<Rightarrow> 'st client \<Rightarrow> raw_data list \<Rightarrow> bool" where
  "ready_from N c rs \<longleftrightarrow>
     (\<forall>r \<in> set rs. \<forall>n \<ge> N. entry_complete r \<or>
        entry_timed_out (args c) (timestamp_to_nsec (timespec_to_timestamp (readings (clock c) n))) r)"

lemma tick_clock [simp]:
  "readings (clock (tick c)) = readings (clock c)" "ticks (clock (tick c)) = Suc (ticks (clock c))"
  by (simp_all add: tick_def)

lemma all_stats_tick [simp]: "all_stats (tick c) = all_stats c"
  by (simp add: all_stats_def)

text \<open>The list is empty, and its entries were aggregated and printed in order.\<close>

definition drained :: "'st sqa_api \<Rightarrow> raw_data list \<Rightarrow> 'st client \<Rightarrow> 'st client \<Rightarrow> bool" where
  "drained sqa rs c c' \<longleftrightarrow> rl_observations (raw_data_list c') = [] \<and>
     all_stats c' = all_stats (fold (aggregateRawData sqa) rs c) \<and>
     stdout c' = stdout c @ concat (map (retired_output (args c)) rs)"

text \<open>The collator after the end of sending, with no observations left and entries that will be ready.\<close>

definition draining :: "nat \<Rightarrow> raw_data list \<Rightarrow> 'st client \<Rightarrow> bool" where
  "draining N rs c \<longleftrightarrow> ol_observations (observation_list c) = [] \<and> sending_completed c > 0 \<and> collator_finished c = 0 \<and>
     rl_observations (raw_data_list c) = rs \<and> ready_from N c rs"

lemma drain_round:
  assumes "draining N rs c"
  shows "collator_loop sqa c = collator_loop sqa (check_if_oldest_packet_should_be_processed sqa c)"
  using assms by (subst collator_loop.simps) (simp add: draining_def collator_round_def ol_isEmpty_def)

lemma drain_retires:
  assumes "draining N (r # rs) c" and "entry_complete r \<or> entry_timed_out (args c) (next_nsec c) r"
    and "d = check_if_oldest_packet_should_be_processed sqa c"
  shows "draining N rs d" "ticks (clock d) = Suc (ticks (clock c))" "drained sqa rs d c' \<Longrightarrow> drained sqa (r # rs) c c'"
proof -
  have d: "d = (aggregateRawData sqa r (tick c))\<lparr>raw_data_list := (raw_data_list c)\<lparr>rl_observations := rs\<rparr>,
      stdout := stdout c @ retired_output (args c) r\<rparr>"
    using assms by (simp add: draining_def check_oldest_eq)
  show "draining N rs d" "ticks (clock d) = Suc (ticks (clock c))"
    using assms(1) by (simp_all add: d draining_def ready_from_def)
  have "all_stats d = all_stats (aggregateRawData sqa r (tick c))" by (simp add: d all_stats_def)
  also have "\<dots> = all_stats (aggregateRawData sqa r c)" by (rule aggregate_stats_cong) simp
  finally have "all_stats (fold (aggregateRawData sqa) rs d) = all_stats (fold (aggregateRawData sqa) (r # rs) c)"
    using fold_aggregate_stats_cong [of d "aggregateRawData sqa r c" sqa rs] by simp
  then show "drained sqa rs d c' \<Longrightarrow> drained sqa (r # rs) c c'" unfolding drained_def by (simp add: d)
qed

lemma drain_waits:
  assumes "draining N (r # rs) c" and "\<not> (entry_complete r \<or> entry_timed_out (args c) (next_nsec c) r)"
  shows "check_if_oldest_packet_should_be_processed sqa c = tick c" "ticks (clock c) < N" "draining N (r # rs) (tick c)"
    "drained sqa (r # rs) (tick c) c' \<Longrightarrow> drained sqa (r # rs) c c'"
proof -
  show "ticks (clock c) < N"
    using assms unfolding draining_def ready_from_def next_nsec_def by (meson list.set_intros(1) not_le)
  show "drained sqa (r # rs) (tick c) c' \<Longrightarrow> drained sqa (r # rs) c c'"
    using fold_aggregate_stats_cong [OF all_stats_tick, of sqa "r # rs" c] by (simp add: drained_def)
qed (use assms in \<open>simp_all add: draining_def ready_from_def check_oldest_eq\<close>)

lemma collator_loop_retires:
  assumes "draining N rs c"
  shows "\<exists>c'. collator_loop sqa c = Some c' \<and> drained sqa rs c c'"
  using assms
proof (induction "length rs + (N - ticks (clock c))" arbitrary: c rs rule: less_induct)
  case less
  note round = drain_round [OF less.prems, of sqa]
  show ?case
  proof (cases rs)
    case Nil
    with less.prems have "check_if_oldest_packet_should_be_processed sqa c = (tick c)\<lparr>collator_finished := 1\<rparr>"
      by (simp add: draining_def check_oldest_eq)
    with less.prems Nil show ?thesis
      unfolding round by (subst collator_loop.simps) (simp add: draining_def drained_def all_stats_def)
  next
    case (Cons r rs')
    note c = less.prems [unfolded Cons]
    show ?thesis
    proof (cases "entry_complete r \<or> entry_timed_out (args c) (next_nsec c) r")
      case True
      note d = drain_retires [OF c True refl, of sqa]
      have "length rs' + (N - ticks (clock (check_if_oldest_packet_should_be_processed sqa c))) <
          length rs + (N - ticks (clock c))" by (simp add: d(2) Cons)
      from less.hyps [OF this d(1)] obtain c' where
        "collator_loop sqa (check_if_oldest_packet_should_be_processed sqa c) = Some c'"
        "drained sqa rs' (check_if_oldest_packet_should_be_processed sqa c) c'" by blast
      with d(3) show ?thesis unfolding round Cons by blast
    next
      case False
      note w = drain_waits [OF c False]
      from w(2) have "length (r # rs') + (N - ticks (clock (tick c))) < length rs + (N - ticks (clock c))" by (simp add: Cons)
      from less.hyps [OF this w(3)] obtain c' where
        "collator_loop sqa (tick c) = Some c'" "drained sqa (r # rs') (tick c) c'" by blast
      with w(4) show ?thesis unfolding round Cons w(1) by blast
    qed
  qed
qed

lemma process_observation_frame [simp]:
  "observation_list (process_observation obs c) = observation_list c"
  "sending_completed (process_observation obs c) = sending_completed c"
  "collator_finished (process_observation obs c) = collator_finished c"
  "args (process_observation obs c) = args c" "stdout (process_observation obs c) = stdout c"
  "all_stats (process_observation obs c) = all_stats c"
  by (simp_all add: process_observation_def now_timestamp_eq all_stats_def Let_def split: option.splits)

lemma collator_loop_drains:
  assumes "ol_observations (observation_list c) = obss" and "collator_finished c = 0"
  shows "collator_loop sqa c =
     collator_loop sqa (fold process_observation obss (c\<lparr>observation_list := \<lparr>ol_observations = []\<rparr>\<rparr>))"
  using assms
proof (induction obss arbitrary: c)
  case Nil
  then have "c\<lparr>observation_list := \<lparr>ol_observations = []\<rparr>\<rparr> = c"
    by (intro client.equality) simp_all
  then show ?case by simp
next
  case (Cons obs obss)
  let ?d = "process_observation obs (c\<lparr>observation_list := (observation_list c)\<lparr>ol_observations := obss\<rparr>\<rparr>)"
  have comm: "process_observation obs c\<lparr>observation_list := q\<rparr> = process_observation obs (c\<lparr>observation_list := q\<rparr>)" for c :: "'a client" and q
    by (simp add: process_observation_def now_timestamp_eq tick_def Let_def split: option.splits)
  have "collator_loop sqa c = collator_loop sqa ?d"
    using Cons.prems
    by (subst collator_loop.simps)
       (simp add: collator_round_def ol_isEmpty_def ol_popObservation_def)
  also have "\<dots> = collator_loop sqa (fold process_observation obss (?d\<lparr>observation_list := \<lparr>ol_observations = []\<rparr>\<rparr>))"
    by (rule Cons.IH) (use Cons.prems in simp_all)
  finally show ?case by (simp add: comm)
qed
section \<open>An instance of the statistics interface\<close>

text \<open>The statistics that record the calls made on them, for concrete runs.\<close>

datatype sqa_call = Sample timespec | Loss

definition sqa_log :: "sqa_call list sqa_api" where
  "sqa_log =
     \<lparr>sqa_stats_add_sample = (\<lambda>s t. s @ [Sample t]), sqa_stats_count_loss = (\<lambda>s. s @ [Loss]),
      sqa_number_of_samples = (\<lambda>s. of_nat (length s)),
      sqa_number_of_lost_packets = (\<lambda>s. of_nat (length (filter (\<lambda>x. x = Loss) s)))\<rparr>"

text \<open>A clock that advances by 100 seconds with each of its first ten readings, and a client that
  uses it.\<close>

definition slow_clock :: sys_clock where
  "slow_clock = \<lparr>readings = (\<lambda>n. \<lparr>tv_sec = 100 * (1 + int (min n 9)), tv_nsec = 0\<rparr>), ticks = 0\<rparr>"

definition sample_client :: "sqa_call list client" where
  "sample_client = client_init client_args_default [] 100 [] slow_clock"

lemma slow_clock_nsec:
  "timestamp_to_nsec (timespec_to_timestamp (readings slow_clock n)) =
     word_of_int (100000000000 * (1 + int (min n 9)))"
  using clock_nsec_whole [of "100 * (1 + int (min n 9))"] by (simp add: slow_clock_def)

lemma next_nsec_slow:
  "clock c = slow_clock\<lparr>ticks := n\<rparr> \<Longrightarrow> next_nsec c = word_of_int (100000000000 * (1 + int (min n 9)))"
  using slow_clock_nsec [of n] by (simp add: next_nsec_def)

lemma sample_client_fields [simp]:
  "clock sample_client = slow_clock\<lparr>ticks := 0\<rparr>" "raw_data_list sample_client = \<lparr>rl_observations = []\<rparr>"
  "args sample_client = client_args_default" "stats_RTT sample_client = []" "ids sample_client = []"
  "collator_finished sample_client = 0" "stats_client_server sample_client = []"
  by (simp_all add: sample_client_def client_init_def slow_clock_def ids_def)

section \<open>Properties\<close>

text \<open>
  C5: \<^verbatim>\<open>process_observation\<close> implements the update of a finite map from packet identifiers to
  entries: it changes the entry of the observed packet only, makes one when there is none, and
  keeps the identifiers in the list distinct.
\<close>

theorem process_observation_refines:
  "entries (rl_observations (raw_data_list (process_observation obs c))) =
     observe obs (next_nsec c) (entries (rl_observations (raw_data_list c)))
   \<and> distinct (ids (process_observation obs c)) = distinct (ids c)"
  by (simp add: process_observation_entries process_observation_ids)

text \<open>
  C6: After any sequence of observations on an empty list there is exactly one entry per observed
  packet, and it holds for each of the four observation points the time of the last observation of
  this packet at this point (0 when there was none) and the payload length of the last observation.
\<close>

theorem observations_joined:
  "let c' = fold process_observation obss (c\<lparr>raw_data_list := \<lparr>rl_observations = []\<rparr>\<rparr>)
   in distinct (ids c') \<and> (\<forall>i. joined obss i (entries (rl_observations (raw_data_list c')) i))"
proof -
  have "distinct (ids (fold process_observation obss d)) = distinct (ids d)" for d :: "'a client"
    by (induction obss arbitrary: d) (simp_all add: process_observation_ids)
  then show ?thesis by (simp add: Let_def fold_process_joined) (simp add: ids_def)
qed

definition entry_times :: "raw_data \<Rightarrow> u64 \<times> u64 \<times> u64 \<times> u64" where
  "entry_times r =
     (client_send_epoch_nanoseconds r, server_receive_epoch_nanoseconds r,
      server_send_epoch_nanoseconds r, client_receive_epoch_nanoseconds r)"

text \<open>
  The order in which the observations of a packet reach the collator does not matter: two
  sequences with the same observations, at most one for each packet and point, give every packet
  the same four times.
\<close>

theorem observation_order_irrelevant:
  assumes "mset obss = mset obss'"
    and "distinct (map (\<lambda>x. (packet_id x, observation_point x)) obss)"
    and "rl_observations (raw_data_list c) = []"
  shows "map_option entry_times
           (entries (rl_observations (raw_data_list (fold process_observation obss c))) i) =
         map_option entry_times
           (entries (rl_observations (raw_data_list (fold process_observation obss' c))) i)"
proof -
  have "set obss = set obss'" using assms(1) by (rule mset_eq_setD)
  with fold_process_joined [OF assms(3), of obss i] fold_process_joined [OF assms(3), of obss' i]
    last_time_perm [OF assms(1,2)]
  show ?thesis
    by (auto simp: joined_def entry_times_def split: option.splits)
qed

theorem observation_order_irrelevant_witness:
  "let o1 = QEDObservation CLIENT_SEND 5 0 50; o2 = QEDObservation SERVER_SEND 7 0 50
   in map_option entry_times
        (entries (rl_observations (raw_data_list (fold process_observation [o1, o2] sample_client))) 0) =
      map_option entry_times
        (entries (rl_observations (raw_data_list (fold process_observation [o2, o1] sample_client))) 0)"
proof -
  let ?o1 = "QEDObservation CLIENT_SEND 5 0 50" and ?o2 = "QEDObservation SERVER_SEND 7 0 50"
  have "rl_observations (raw_data_list sample_client) = []"
    by (simp add: sample_client_def client_init_def)
  moreover have "mset [?o1, ?o2] = mset [?o2, ?o1]" by simp
  moreover have "distinct (map (\<lambda>x. (packet_id x, observation_point x)) [?o1, ?o2])"
    by (simp add: QEDObservation_def)
  ultimately show ?thesis unfolding Let_def by (intro observation_order_irrelevant)
qed

lemma uint_diff_ordered: "(b :: u64) \<le> a \<Longrightarrow> uint (a - b) = uint a - uint b"
  by (simp add: uint_sub_lem word_le_def)

lemma uint_diff_wrapped: "(a :: u64) < b \<Longrightarrow> uint (a - b) = uint a - uint b + 2 ^ 64"
  by (simp add: uint_sub_if' word_less_def)

lemma aggregate_ordered:
  assumes "entry_complete r" and "client_send_epoch_nanoseconds r = cs" and "server_receive_epoch_nanoseconds r = sr"
    and "server_send_epoch_nanoseconds r = ss" and "client_receive_epoch_nanoseconds r = cr"
    and "cs \<le> sr" and "sr \<le> ss" and "ss \<le> cr"
  shows "\<exists>fwd bwd inner rtt.
     all_stats (aggregateRawData sqa r c) =
       (if nsec_of rtt = 0 then stats_RTT c else sqa_stats_add_sample sqa (stats_RTT c) rtt,
        sqa_stats_add_sample sqa (stats_internal c) inner,
        sqa_stats_add_sample sqa (stats_client_server c) fwd,
        sqa_stats_add_sample sqa (stats_server_client c) bwd)
     \<and> normalised fwd \<and> normalised bwd \<and> normalised inner \<and> normalised rtt
     \<and> nsec_of fwd = uint sr - uint cs \<and> nsec_of bwd = uint cr - uint ss \<and> nsec_of inner = uint ss - uint sr
     \<and> nsec_of rtt = nsec_of fwd + nsec_of bwd"
proof -
  let ?fwd = "nanosecondsToTimespec (sr - cs)" and ?bwd = "nanosecondsToTimespec (cr - ss)"
  have n: "nsec_of ?fwd = uint sr - uint cs" "nsec_of ?bwd = uint cr - uint ss"
    "nsec_of (nanosecondsToTimespec (ss - sr)) = uint ss - uint sr"
    using assms(6-8) by (simp_all only: nanosecondsToTimespec_nsec_of uint_diff_ordered)
  have "uint cs \<le> uint sr" "uint ss \<le> uint cr" using assms(6,8) by (simp_all add: word_le_def)
  then have "sr = cs \<and> cr = ss \<longleftrightarrow> nsec_of (safe_tspecplus ?fwd ?bwd) = 0"
    by (auto simp: n word_uint_eq_iff)
  then have "all_stats (aggregateRawData sqa r c) =
       (if nsec_of (safe_tspecplus ?fwd ?bwd) = 0 then stats_RTT c
        else sqa_stats_add_sample sqa (stats_RTT c) (safe_tspecplus ?fwd ?bwd),
        sqa_stats_add_sample sqa (stats_internal c) (nanosecondsToTimespec (ss - sr)),
        sqa_stats_add_sample sqa (stats_client_server c) ?fwd,
        sqa_stats_add_sample sqa (stats_server_client c) ?bwd)"
    by (simp only: aggregate_complete [OF assms(1)] Let_def assms(2-5)) (simp add: all_stats_def)
  with n show ?thesis
    by (intro exI [of _ ?fwd] exI [of _ ?bwd] exI [of _ "nanosecondsToTimespec (ss - sr)"]
        exI [of _ "safe_tspecplus ?fwd ?bwd"]) simp
qed

text \<open>
  C7: An entry with four times in causal order gives one sample to each of the four statistics, no
  loss, and the samples are the exact differences: forward delay, backward delay, time inside the
  server, and a round-trip time that is the time from client send to client receive less the time
  inside the server. Only a round-trip time of 0 is left out.
\<close>

theorem complete_entry_delays:
  assumes "entry_complete r"
    and "client_send_epoch_nanoseconds r \<le> server_receive_epoch_nanoseconds r"
    and "server_receive_epoch_nanoseconds r \<le> server_send_epoch_nanoseconds r"
    and "server_send_epoch_nanoseconds r \<le> client_receive_epoch_nanoseconds r"
  shows "\<exists>fwd bwd inner rtt.
     all_stats (aggregateRawData sqa r c) =
       (if nsec_of rtt = 0 then stats_RTT c else sqa_stats_add_sample sqa (stats_RTT c) rtt,
        sqa_stats_add_sample sqa (stats_internal c) inner,
        sqa_stats_add_sample sqa (stats_client_server c) fwd,
        sqa_stats_add_sample sqa (stats_server_client c) bwd)
     \<and> normalised fwd \<and> normalised bwd \<and> normalised inner \<and> normalised rtt
     \<and> nsec_of fwd = uint (server_receive_epoch_nanoseconds r) - uint (client_send_epoch_nanoseconds r)
     \<and> nsec_of bwd = uint (client_receive_epoch_nanoseconds r) - uint (server_send_epoch_nanoseconds r)
     \<and> nsec_of inner = uint (server_send_epoch_nanoseconds r) - uint (server_receive_epoch_nanoseconds r)
     \<and> nsec_of rtt = (uint (client_receive_epoch_nanoseconds r) - uint (client_send_epoch_nanoseconds r))
                     - nsec_of inner"
proof -
  from aggregate_ordered [OF assms(1) refl refl refl refl assms(2-4), of sqa c] show ?thesis
    by (elim exE conjE) (intro exI conjI, assumption+, simp)
qed

definition sample_entry :: "u64 \<Rightarrow> u64 \<Rightarrow> u64 \<Rightarrow> u64 \<Rightarrow> raw_data" where
  "sample_entry cs sr ss cr =
     (RawData 1 0)\<lparr>client_send_epoch_nanoseconds := cs, server_receive_epoch_nanoseconds := sr,
       server_send_epoch_nanoseconds := ss, client_receive_epoch_nanoseconds := cr\<rparr>"

lemmas sample_client_simps = sample_client_def client_init_def sqa_log_def sample_entry_def
  entry_complete_def all_stats_def

theorem complete_entry_delays_witness:
  "\<exists>rtt. stats_RTT (aggregateRawData sqa_log (sample_entry 10 20 30 45) sample_client) = [Sample rtt]
     \<and> nsec_of rtt = 25"
proof -
  have c: "entry_complete (sample_entry 10 20 30 45)" by (simp add: sample_client_simps)
  show ?thesis
    using complete_entry_delays [OF c, of sqa_log sample_client]
    by (auto simp: sample_client_simps)
qed

text \<open>
  C17: An entry that lacks one of its four times counts one loss in each of the four statistics. The
  forward statistics also get the forward delay when both of its times are known; and, unless this
  delay is 0, so do the round-trip statistics, although the packet is counted as lost.
\<close>

theorem incomplete_entry_losses:
  assumes "\<not> entry_complete r"
  defines "forward \<equiv> client_send_epoch_nanoseconds r > 0 \<and> server_receive_epoch_nanoseconds r > 0"
  shows "\<exists>fwd rtt.
     all_stats (aggregateRawData sqa r c) =
       (let lost = sqa_stats_count_loss sqa (stats_RTT c)
        in if forward \<and> nsec_of fwd \<noteq> 0 then sqa_stats_add_sample sqa lost rtt else lost,
        sqa_stats_count_loss sqa (stats_internal c),
        sqa_stats_count_loss sqa
          (if forward then sqa_stats_add_sample sqa (stats_client_server c) fwd
           else stats_client_server c),
        sqa_stats_count_loss sqa (stats_server_client c))
     \<and> nsec_of rtt = nsec_of fwd
     \<and> nsec_of fwd = uint (server_receive_epoch_nanoseconds r - client_send_epoch_nanoseconds r)"
proof -
  let ?d = "server_receive_epoch_nanoseconds r - client_send_epoch_nanoseconds r"
  let ?fwd = "nanosecondsToTimespec ?d"
  have z: "nsec_of ?fwd \<noteq> 0 \<longleftrightarrow> server_receive_epoch_nanoseconds r \<noteq> client_send_epoch_nanoseconds r"
    by (simp add: nanosecondsToTimespec_nsec_of uint_0_iff)
  have "all_stats (aggregateRawData sqa r c) =
       (let lost = sqa_stats_count_loss sqa (stats_RTT c)
        in if forward \<and> nsec_of ?fwd \<noteq> 0
           then sqa_stats_add_sample sqa lost (safe_tspecplus ?fwd timespec_zero) else lost,
        sqa_stats_count_loss sqa (stats_internal c),
        sqa_stats_count_loss sqa
          (if forward then sqa_stats_add_sample sqa (stats_client_server c) ?fwd
           else stats_client_server c),
        sqa_stats_count_loss sqa (stats_server_client c))"
    unfolding z forward_def
    by (simp only: aggregate_incomplete [OF assms(1)] Let_def) (simp add: all_stats_def)
  then show ?thesis
    by (intro exI [of _ ?fwd] exI [of _ "safe_tspecplus ?fwd timespec_zero"])
       (simp add: nanosecondsToTimespec_nsec_of)
qed

theorem incomplete_entry_losses_witness:
  "\<exists>rtt. stats_RTT (aggregateRawData sqa_log (sample_entry 10 20 0 0) sample_client) = [Loss, Sample rtt]
     \<and> nsec_of rtt = 10"
proof -
  have c: "\<not> entry_complete (sample_entry 10 20 0 0)" by (simp add: sample_client_simps)
  show ?thesis
    using incomplete_entry_losses [OF c, of sqa_log sample_client]
    by (auto simp: sample_client_simps)
qed

text \<open>
  When the clock of the client is behind that of the server by more than the backward delay, the
  backward delay is negative and its unsigned difference wraps: the round-trip statistics get the
  true round-trip time (without the time inside the server) plus \<^verbatim>\<open>2^64\<close> nanoseconds, 584 years.
\<close>

theorem negative_delay_wraps:
  assumes "entry_complete r"
    and "client_send_epoch_nanoseconds r \<le> server_receive_epoch_nanoseconds r"
    and "server_receive_epoch_nanoseconds r \<le> server_send_epoch_nanoseconds r"
    and "client_receive_epoch_nanoseconds r < server_send_epoch_nanoseconds r"
  shows "\<exists>rtt.
     stats_RTT (aggregateRawData sqa r c) = sqa_stats_add_sample sqa (stats_RTT c) rtt
     \<and> nsec_of rtt =
         (uint (client_receive_epoch_nanoseconds r) - uint (client_send_epoch_nanoseconds r))
         - (uint (server_send_epoch_nanoseconds r) - uint (server_receive_epoch_nanoseconds r)) + 2 ^ 64"
proof -
  let ?cs = "client_send_epoch_nanoseconds r" and ?sr = "server_receive_epoch_nanoseconds r"
  let ?ss = "server_send_epoch_nanoseconds r" and ?cr = "client_receive_epoch_nanoseconds r"
  let ?rtt = "safe_tspecplus (nanosecondsToTimespec (?sr - ?cs)) (nanosecondsToTimespec (?cr - ?ss))"
  have "nsec_of ?rtt = (uint ?sr - uint ?cs) + (uint ?cr - uint ?ss + 2 ^ 64)"
    unfolding safe_tspecplus_nsec_of nanosecondsToTimespec_nsec_of
    using assms(2,4) by (simp only: uint_diff_ordered uint_diff_wrapped)
  moreover have "?cr \<noteq> ?ss" using assms(4) by auto
  ultimately show ?thesis
    by (intro exI [of _ ?rtt]) (simp add: aggregate_complete [OF assms(1)] Let_def)
qed

theorem negative_delay_wraps_witness:
  "\<exists>rtt. stats_RTT (aggregateRawData sqa_log (sample_entry 10 120 130 45) sample_client) = [Sample rtt]
     \<and> nsec_of rtt = 25 + 2 ^ 64"
proof -
  have c: "entry_complete (sample_entry 10 120 130 45)" by (simp add: sample_client_simps)
  show ?thesis
    using negative_delay_wraps [OF c, of sqa_log sample_client]
    by (auto simp: sample_client_simps)
qed

text \<open>
  C8: The collator thread ends. Once the sender has finished and nothing else adds observations, and
  provided that from some clock reading on every entry is complete or past its timeout, the loop
  stops with both lists empty; every entry that the queued observations make is aggregated exactly
  once, in list order, and printed in the raw format.
\<close>

theorem collator_thread_ends:
  assumes "sending_completed c > 0" and "collator_finished c = 0"
  defines "joined_c \<equiv> fold process_observation (ol_observations (observation_list c))
                        (c\<lparr>collator_started := 1, observation_list := \<lparr>ol_observations = []\<rparr>\<rparr>)"
  defines "rs \<equiv> rl_observations (raw_data_list joined_c)"
  assumes "ready_from N joined_c rs"
  shows "\<exists>c'. runCollatorThread sqa c = Some c' \<and> rl_observations (raw_data_list c') = []
     \<and> all_stats c' = all_stats (fold (aggregateRawData sqa) rs c)
     \<and> stdout c' = stdout c @ concat (map (retired_output (args c)) rs)"
proof -
  let ?d = "c\<lparr>collator_started := 1, observation_list := \<lparr>ol_observations = []\<rparr>\<rparr>"
  have frame: "observation_list (fold process_observation obss d) = observation_list d \<and>
      sending_completed (fold process_observation obss d) = sending_completed d \<and>
      collator_finished (fold process_observation obss d) = collator_finished d \<and>
      args (fold process_observation obss d) = args d \<and> stdout (fold process_observation obss d) = stdout d \<and>
      all_stats (fold process_observation obss d) = all_stats d" for obss and d :: "'a client"
    by (induction obss arbitrary: d) simp_all
  have j: "all_stats joined_c = all_stats c" "args joined_c = args c" "stdout joined_c = stdout c"
    using frame [of "ol_observations (observation_list c)" ?d]
    by (simp_all add: joined_c_def) (simp_all add: all_stats_def)
  have "runCollatorThread sqa c = collator_loop sqa joined_c"
    unfolding runCollatorThread_def joined_c_def
    by (subst collator_loop_drains [OF refl]) (use assms(2) in simp_all)
  moreover have "\<exists>c'. collator_loop sqa joined_c = Some c' \<and> drained sqa rs joined_c c'"
    using frame [of "ol_observations (observation_list c)" ?d] assms
    by (intro collator_loop_retires [where N = N]) (simp add: draining_def joined_c_def rs_def)
  ultimately show ?thesis
    using fold_aggregate_stats_cong [OF j(1), of sqa rs] j(2,3) by (auto simp: drained_def)
qed

theorem collator_thread_ends_witness:
  "\<exists>c'. runCollatorThread sqa_log
          (sample_client\<lparr>sending_completed := 1, observation_list :=
             \<lparr>ol_observations = [QEDObservation CLIENT_SEND 5 7 50]\<rparr>\<rparr>) = Some c'
     \<and> rl_observations (raw_data_list c') = [] \<and> stats_RTT c' = [Loss]"
proof -
  let ?c = "sample_client\<lparr>sending_completed := 1, observation_list :=
             \<lparr>ol_observations = [QEDObservation CLIENT_SEND 5 7 50]\<rparr>\<rparr>"
  let ?j = "fold process_observation (ol_observations (observation_list ?c))
              (?c\<lparr>collator_started := 1, observation_list := \<lparr>ol_observations = []\<rparr>\<rparr>)"
  let ?r = "record_observation (QEDObservation CLIENT_SEND 5 7 50) (RawData 100000000000 7)"
  let ?d = "?c\<lparr>collator_started := 1, observation_list := \<lparr>ol_observations = []\<rparr>\<rparr>"
  have "clock ?d = slow_clock\<lparr>ticks := 0\<rparr>" by simp
  from next_nsec_slow [OF this] have "next_nsec ?d = 100000000000" by simp
  moreover have "packet_id (QEDObservation CLIENT_SEND 5 7 50) \<notin> set (ids ?d)" by (simp add: ids_def)
  ultimately have j: "rl_observations (raw_data_list ?j) = [?r]" "clock ?j = slow_clock\<lparr>ticks := 1\<rparr>"
      "args ?j = client_args_default"
    by (simp_all add: process_observation_fresh rl_addObservation_def tick_def)
       (simp_all add: QEDObservation_def)
  have "ready_from 2 ?j [?r]"
    unfolding ready_from_def j
  proof (intro ballI allI impI disjI2)
    fix r n assume "r \<in> set [?r]" and n: "2 \<le> (n::nat)"
    then have "min n 9 \<in> {2, 3, 4, 5, 6, 7, 8, 9}" and r: "r = ?r" by auto
    then show "entry_timed_out client_args_default
        (timestamp_to_nsec (timespec_to_timestamp (readings (slow_clock\<lparr>ticks := 1\<rparr>) n))) r"
      using slow_clock_nsec [of n]
      by (auto simp: entry_timed_out_def client_args_default_def)
  qed
  moreover have "sending_completed ?c > 0" "collator_finished ?c = 0" by simp_all
  ultimately show ?thesis
    using collator_thread_ends [of ?c 2 sqa_log] unfolding j(1)
    by (auto simp: aggregate_incomplete Let_def QEDObservation_def sample_client_simps)
qed

text \<open>
  C36: A reply that arrives after the timeout is counted as a second loss of its packet: the timeout has
  retired the entry, the three observations of the reply make a new one, which has no send time and
  so can only be retired by the timeout, as another loss.
\<close>

theorem late_reply_counted_twice:
  assumes "rl_observations (raw_data_list c) = []"
    and "observation_point sent = CLIENT_SEND" and "packet_id sent = i"
    and "map observation_point reply = [SERVER_SEND, SERVER_RECEIVE, CLIENT_RECEIVE]"
    and "map packet_id reply = [i, i, i]"
    and "c1 = process_observation sent c"
    and "c2 = check_if_oldest_packet_should_be_processed sqa c1"
    and "c3 = fold process_observation reply c2"
    and "c4 = check_if_oldest_packet_should_be_processed sqa c3"
    and "next_nsec c1 - next_nsec c > ucast (ca_timeout (args c)) * 1000000000"
    and "next_nsec c3 - next_nsec c2 > ucast (ca_timeout (args c)) * 1000000000"
  shows "stats_RTT c4 = sqa_stats_count_loss sqa (sqa_stats_count_loss sqa (stats_RTT c))
    \<and> rl_observations (raw_data_list c4) = []"
proof -
  have c1: "rl_observations (raw_data_list c1) = [record_observation sent (RawData (next_nsec c) i)]"
    "args c1 = args c" "stats_RTT c1 = stats_RTT c"
    using assms(1,3) by (simp_all add: assms(6) process_observation_def now_timestamp_eq Let_def
        rl_addObservation_def next_nsec_def)
  have c2: "rl_observations (raw_data_list c2) = []" "args c2 = args c"
    "stats_RTT c2 = sqa_stats_count_loss sqa (stats_RTT c)"
    using c1 assms(2,10)
    by (simp_all add: assms(7) check_oldest_eq entry_timed_out_def aggregate_incomplete
        entry_complete_def Let_def)
  obtain o1 o2 o3 where r: "reply = [o1, o2, o3]" and
    pts: "observation_point o1 = SERVER_SEND" "observation_point o2 = SERVER_RECEIVE"
      "observation_point o3 = CLIENT_RECEIVE" and
    ids: "packet_id o1 = i" "packet_id o2 = i" "packet_id o3 = i"
    using assms(4,5) by (auto simp: map_eq_Cons_conv)
  define e where "e = record_observation o3 (record_observation o2 (record_observation o1 (RawData (next_nsec c2) i)))"
  have c3: "rl_observations (raw_data_list c3) = [e]" "args c3 = args c" "stats_RTT c3 = stats_RTT c2"
    using c2 ids by (simp_all add: assms(8) r process_observation_def now_timestamp_eq Let_def
        rl_addObservation_def next_nsec_def e_def)
  have e: "client_send_epoch_nanoseconds e = 0" "added_at_epoch_nanoseconds e = next_nsec c2"
    using pts by (simp_all add: e_def)
  show ?thesis
    using c3 c2 e assms(11)
    by (simp add: assms(9) check_oldest_eq entry_timed_out_def aggregate_incomplete
        entry_complete_def Let_def)
qed

definition late_reply :: "qed_observation list" where
  "late_reply = [QEDObservation SERVER_SEND 30 7 50, QEDObservation SERVER_RECEIVE 20 7 50,
     QEDObservation CLIENT_RECEIVE 45 7 50]"

theorem late_reply_counted_twice_witness:
  "\<exists>c4. stats_RTT c4 = [Loss, Loss] \<and>
     c4 = check_if_oldest_packet_should_be_processed sqa_log
            (fold process_observation late_reply
              (check_if_oldest_packet_should_be_processed sqa_log
                (process_observation (QEDObservation CLIENT_SEND 5 7 50) sample_client)))"
proof -
  let ?s = "QEDObservation CLIENT_SEND 5 7 50"
  define c1 where "c1 = process_observation ?s sample_client"
  define c2 where "c2 = check_if_oldest_packet_should_be_processed sqa_log c1"
  define c3 where "c3 = fold process_observation late_reply c2"
  define c4 where "c4 = check_if_oldest_packet_should_be_processed sqa_log c3"
  have k1: "clock c1 = slow_clock\<lparr>ticks := 1\<rparr>"
    by (simp add: c1_def process_observation_clock tick_def)
  have i1: "ids c1 = [7]" by (simp add: c1_def process_observation_ids QEDObservation_def)
  have k2: "clock c2 = slow_clock\<lparr>ticks := 2\<rparr>" by (simp add: c2_def check_oldest_clock tick_def k1)
  have n: "next_nsec sample_client = 100000000000" "next_nsec c1 = 200000000000" "next_nsec c2 = 300000000000"
    using next_nsec_slow [OF sample_client_fields(1)] next_nsec_slow [OF k1] next_nsec_slow [OF k2] by simp_all
  have "ids c2 = []"
    using i1 n by (simp add: c2_def check_oldest_eq c1_def process_observation_fresh
        rl_addObservation_def entry_timed_out_def client_args_default_def ids_def split: if_splits)
  then have "clock c3 = slow_clock\<lparr>ticks := 3\<rparr>"
    by (simp add: c3_def late_reply_def QEDObservation_def process_observation_clock
        process_observation_ids tick_def k2)
  from next_nsec_slow [OF this] have "next_nsec c3 = 400000000000" by simp
  with n late_reply_counted_twice [OF _ _ refl _ _ c1_def c2_def c3_def c4_def]
  have "stats_RTT c4 = [Loss, Loss]"
    by (simp add: late_reply_def QEDObservation_def client_args_default_def sqa_log_def)
  then show ?thesis by (auto simp: c4_def c3_def c2_def c1_def)
qed
text \<open>
  The age of an entry is an unsigned difference, so when the clock has been set back to before the
  entry was made (by less than 292 years), the entry counts as timed out at once, whatever the
  timeout is.
\<close>

theorem clock_set_back_retires:
  assumes "now < added_at_epoch_nanoseconds r"
    and "uint (added_at_epoch_nanoseconds r) - uint now < 2 ^ 63"
  shows "entry_timed_out a now r"
proof -
  have "uint (now - added_at_epoch_nanoseconds r) > 2 ^ 63"
    using uint_diff_wrapped [OF assms(1)] assms(2) by simp
  moreover have "uint (ucast (ca_timeout a) * 1000000000 :: u64) \<le> 255 * 1000000000"
  proof -
    have t: "uint (ca_timeout a) < 256" using uint_lt2p [of "ca_timeout a"] by simp
    have u: "uint (ucast (ca_timeout a) :: u64) = uint (ca_timeout a)"
      using t by (simp add: unsigned_ucast_eq take_bit_int_eq_self)
    have "uint (ucast (ca_timeout a) :: u64) * uint (1000000000 :: u64) < 2 ^ LENGTH(64)"
      using t unfolding u by simp
    then have "uint (ucast (ca_timeout a) * 1000000000 :: u64) =
        uint (ucast (ca_timeout a) :: u64) * uint (1000000000 :: u64)"
      by (rule uint_mult_lem [THEN iffD1])
    with t show ?thesis unfolding u by simp
  qed
  ultimately show ?thesis by (simp add: entry_timed_out_def word_less_def)
qed

theorem clock_set_back_retires_witness: "entry_timed_out client_args_default 1 (RawData 2 0)"
  using clock_set_back_retires [of 1 "RawData 2 0" client_args_default] by simp

end
