(* ===== verification/Receiver.thy ===== *)
theory Receiver
  imports Client_Output Collator
begin

text \<open>
  The receiver of the client (\<^verbatim>\<open>src/client/Client.cpp\<close>): \<^verbatim>\<open>handleReflectorPacket\<close>,
  \<^verbatim>\<open>awaitAndHandleResponse\<close> and \<^verbatim>\<open>runReceiverThread\<close>. As for the server, a run is driven by the list of
  what the \<^verbatim>\<open>recvmsg\<close> calls return. The kernel timestamps of the client are enabled, as the build
  leaves them.
\<close>

section \<open>Operations\<close>

text \<open>A \<^verbatim>\<open>timespec\<close> of the kernel as a 64-bit nanosecond count.\<close>

definition timespec_nanoseconds :: "timespec \<Rightarrow> u64" where
  "timespec_nanoseconds t = word_of_int (tv_sec t) * 1000000000 + word_of_int (tv_nsec t)"

definition reply_observations :: "reflector_packet \<Rightarrow> int \<Rightarrow> u64 \<Rightarrow> qed_observation list" where
  "reply_observations p n received =
     (let i = ntohl (rp_seq_number p) in
      [QEDObservation SERVER_SEND (timestamp_to_nsec (ntohts (rp_timestamp p))) i n,
       QEDObservation SERVER_RECEIVE (timestamp_to_nsec (ntohts (rp_receive_timestamp p))) i n,
       QEDObservation CLIENT_RECEIVE received i n])"

text \<open>The part of \<^verbatim>\<open>handleReflectorPacket\<close> between the arrival time and the output.\<close>

definition note_received :: "reflector_packet \<Rightarrow> int \<Rightarrow> u64 \<Rightarrow> 'st client \<Rightarrow> 'st client" where
  "note_received p n received c =
     (let c = c\<lparr>last_packet_received_epoch_nanoseconds := received\<rparr>;
          c = c\<lparr>last_received_packet_id := sint (ntohl (rp_seq_number p)), received_packets := received_packets c + 1\<rparr>
      in if collator_started c \<noteq> 0 then fold enqueue_observation (reply_observations p n received) c else c)"

definition handleReflectorPacket ::
  "(u8 \<Rightarrow> u8 list \<Rightarrow> string option) \<Rightarrow> 'st sqa_api \<Rightarrow> reflector_packet \<Rightarrow> msghdr \<Rightarrow> int \<Rightarrow> timespec \<Rightarrow>
   'st client \<Rightarrow> string + 'st client" where
  "handleReflectorPacket ntop sqa p hdr n incoming_timestamp c =
     (let (received, c) =
            (if tv_sec incoming_timestamp = 0 \<and> tv_nsec incoming_timestamp = 0
             then (case now_timestamp c of (ts, c') \<Rightarrow> (timestamp_to_nsec ts, c'))
             else (timespec_nanoseconds incoming_timestamp, c));
          c = note_received p n received c
      in if ca_print_format (args c) = ''legacy''
         then printReflectorPacket ntop sqa p hdr n received (stats_client_server c) c
         else Inr c)"

definition client_msghdr :: msghdr where
  "client_msghdr = make_msghdr [(replicate TST_PKT_SIZE 0, TST_PKT_SIZE)] 1 (replicate 28 0) 28 zero_control 2048"

definition awaitAndHandleResponse ::
  "(u8 \<Rightarrow> u8 list \<Rightarrow> string option) \<Rightarrow> 'st sqa_api \<Rightarrow> recv_result \<Rightarrow> 'st client \<Rightarrow> string + bool \<times> 'st client" where
  "awaitAndHandleResponse ntop sqa ev c =
     (let (incoming_msg, count) = recvmsg client_msghdr ev;
          incoming_timestamp = get_kernel_timestamp (msg_control incoming_msg) timespec_zero
      in if count = -1 then Inr (False, c)
         else if msg_trunc incoming_msg then Inr (False, c)
         else (case handleReflectorPacket ntop sqa (reflector_packet_of_bytes (fst (hd (msg_iov incoming_msg))))
                      incoming_msg count incoming_timestamp c of
                 Inl msg \<Rightarrow> Inl msg
               | Inr c' \<Rightarrow> Inr (True, c')))"

text \<open>The condition of the loop: the clock is read only while replies are missing.\<close>

definition receiver_goes_on :: "'st client \<Rightarrow> bool \<times> 'st client" where
  "receiver_goes_on c =
     (if sending_completed c = 0 then (True, c)
      else if received_packets c < sent_packets c
      then (case now_seconds c of (now, c') \<Rightarrow> (now - sending_completed c < ucast (ca_timeout (args c)), c'))
      else (False, c))"

datatype receiver_result = Finished | Waiting | Exited string

fun receive_from ::
  "(u8 \<Rightarrow> u8 list \<Rightarrow> string option) \<Rightarrow> 'st sqa_api \<Rightarrow> recv_result list \<Rightarrow> 'st client \<Rightarrow> receiver_result \<times> 'st client" where
  "receive_from ntop sqa [] c =
     (case receiver_goes_on c of (on, c') \<Rightarrow> (if on then Waiting else Finished, c'))"
| "receive_from ntop sqa (ev # evs) c =
     (case receiver_goes_on c of (on, c') \<Rightarrow>
        if \<not> on then (Finished, c')
        else (case awaitAndHandleResponse ntop sqa ev c' of
                Inl msg \<Rightarrow> (Exited msg, c')
              | Inr (True, c'') \<Rightarrow> receive_from ntop sqa evs c''
              | Inr (False, c'') \<Rightarrow> receive_from ntop sqa evs (check_if_oldest_packet_should_be_processed sqa c'')))"

definition runReceiverThread ::
  "(u8 \<Rightarrow> u8 list \<Rightarrow> string option) \<Rightarrow> 'st sqa_api \<Rightarrow> recv_result list \<Rightarrow> 'st client \<Rightarrow> receiver_result \<times> 'st client" where
  "runReceiverThread ntop sqa evs c = receive_from ntop sqa evs c"

section \<open>One reply\<close>

definition reply_packet :: "incoming \<Rightarrow> reflector_packet" where
  "reply_packet d = reflector_packet_of_bytes (in_payload d @ replicate (TST_PKT_SIZE - length (in_payload d)) 0)"

definition arrival :: "incoming \<Rightarrow> 'st client \<Rightarrow> u64" where
  "arrival d c =
     (let t = get_kernel_timestamp (in_control d) timespec_zero
      in if tv_sec t = 0 \<and> tv_nsec t = 0 then next_nsec c else timespec_nanoseconds t)"

lemma client_recv:
  assumes "length (in_payload d) \<le> TST_PKT_SIZE"
  shows "recvmsg client_msghdr (Recv_msg d) =
     (client_msghdr\<lparr>msg_iov := [(in_payload d @ replicate (TST_PKT_SIZE - length (in_payload d)) 0, TST_PKT_SIZE)],
        msg_name := in_name d, msg_control := in_control d, msg_trunc := False\<rparr>,
      int (length (in_payload d)))"
  using assms by (simp add: client_msghdr_def make_msghdr_def min_def)

lemma printReflectorPacket_frame:
  assumes "stoi (ca_local_port (args c)) = Inr lp"
  shows "\<exists>c' out err. printReflectorPacket ntop sqa p hdr n t stats c = Inr c' \<and>
     c' = c\<lparr>stderr := err, stdout := out\<rparr>"
  using assms
  by (auto simp: printReflectorPacket_def printMetrics_def print_def Let_def split: prod.split)

lemma fold_enqueue:
  "fold enqueue_observation obs c =
     c\<lparr>observation_list := (observation_list c)\<lparr>ol_observations := ol_observations (observation_list c) @ obs\<rparr>\<rparr>"
  by (induction obs arbitrary: c) (simp_all add: enqueue_observation_def ol_addObservation_def)

lemma note_received_fields:
  "received_packets (note_received p n t c) = received_packets c + 1" "args (note_received p n t c) = args c"
  "sent_packets (note_received p n t c) = sent_packets c" "sending_completed (note_received p n t c) = sending_completed c"
  "raw_data_list (note_received p n t c) = raw_data_list c"
  "last_received_packet_id (note_received p n t c) = sint (ntohl (rp_seq_number p))"
  "last_packet_received_epoch_nanoseconds (note_received p n t c) = t" "clock (note_received p n t c) = clock c"
  "stdout (note_received p n t c) = stdout c" "stderr (note_received p n t c) = stderr c"
  "ol_observations (observation_list (note_received p n t c)) = ol_observations (observation_list c) @
     (if collator_started c \<noteq> 0 then reply_observations p n t else [])"
  by (simp_all add: note_received_def fold_enqueue Let_def)

lemma handleReflectorPacket_frame:
  assumes "ca_print_format (args c) \<noteq> ''legacy'' \<or> (\<exists>lp. stoi (ca_local_port (args c)) = Inr lp)"
    and "received = (if tv_sec t = 0 \<and> tv_nsec t = 0 then next_nsec c else timespec_nanoseconds t)"
  shows "\<exists>c'. handleReflectorPacket ntop sqa p hdr n t c = Inr c'
     \<and> received_packets c' = received_packets c + 1 \<and> args c' = args c \<and> sent_packets c' = sent_packets c
     \<and> sending_completed c' = sending_completed c \<and> raw_data_list c' = raw_data_list c
     \<and> last_received_packet_id c' = sint (ntohl (rp_seq_number p))
     \<and> last_packet_received_epoch_nanoseconds c' = received
     \<and> readings (clock c') = readings (clock c) \<and> ticks (clock c) \<le> ticks (clock c')
     \<and> ol_observations (observation_list c') = ol_observations (observation_list c) @
         (if collator_started c \<noteq> 0 then reply_observations p n received else [])
     \<and> (ca_print_format (args c) \<noteq> ''legacy'' \<longrightarrow> stdout c' = stdout c \<and> stderr c' = stderr c)"
proof -
  define c1 where "c1 = (if tv_sec t = 0 \<and> tv_nsec t = 0 then tick c else c)"
  define c3 where "c3 = note_received p n received c1"
  have h: "handleReflectorPacket ntop sqa p hdr n t c =
     (if ca_print_format (args c3) = ''legacy''
      then printReflectorPacket ntop sqa p hdr n received (stats_client_server c3) c3 else Inr c3)"
    unfolding handleReflectorPacket_def c3_def c1_def assms(2) next_nsec_def now_timestamp_eq
    by (cases "tv_sec t = 0 \<and> tv_nsec t = 0") (simp_all only: Let_def if_True if_False prod.case simp_thms)
  have c3: "received_packets c3 = received_packets c + 1" "args c3 = args c" "sent_packets c3 = sent_packets c"
    "sending_completed c3 = sending_completed c" "raw_data_list c3 = raw_data_list c"
    "last_received_packet_id c3 = sint (ntohl (rp_seq_number p))"
    "last_packet_received_epoch_nanoseconds c3 = received"
    "readings (clock c3) = readings (clock c)" "ticks (clock c) \<le> ticks (clock c3)"
    "stdout c3 = stdout c" "stderr c3 = stderr c"
    "ol_observations (observation_list c3) = ol_observations (observation_list c) @
         (if collator_started c \<noteq> 0 then reply_observations p n received else [])"
    by (simp_all add: c3_def c1_def tick_def note_received_fields)
  show ?thesis
  proof (cases "ca_print_format (args c) = ''legacy''")
    case True
    then obtain lp where "stoi (ca_local_port (args c3)) = Inr lp" using assms(1) c3(2) by auto
    from printReflectorPacket_frame [OF this, of ntop sqa p hdr n received "stats_client_server c3"]
    obtain c' out err where "printReflectorPacket ntop sqa p hdr n received (stats_client_server c3) c3 = Inr c'"
      "c' = c3\<lparr>stderr := err, stdout := out\<rparr>" by blast
    then show ?thesis using True h c3 by auto
  next
    case False
    then show ?thesis using h c3 by auto
  qed
qed

definition can_print :: "client_args \<Rightarrow> bool" where
  "can_print a \<longleftrightarrow> ca_print_format a \<noteq> ''legacy'' \<or> (\<exists>lp. stoi (ca_local_port a) = Inr lp)"

lemma awaitAndHandleResponse_reply:
  assumes "length (in_payload d) \<le> TST_PKT_SIZE" and "can_print (args c)"
  shows "\<exists>c'. awaitAndHandleResponse ntop sqa (Recv_msg d) c = Inr (True, c')
     \<and> received_packets c' = received_packets c + 1 \<and> args c' = args c \<and> sent_packets c' = sent_packets c
     \<and> sending_completed c' = sending_completed c \<and> raw_data_list c' = raw_data_list c
     \<and> last_received_packet_id c' = sint (ntohl (rp_seq_number (reply_packet d)))
     \<and> last_packet_received_epoch_nanoseconds c' = arrival d c
     \<and> readings (clock c') = readings (clock c) \<and> ticks (clock c) \<le> ticks (clock c')
     \<and> ol_observations (observation_list c') = ol_observations (observation_list c) @
         (if collator_started c \<noteq> 0
          then reply_observations (reply_packet d) (int (length (in_payload d))) (arrival d c) else [])
     \<and> (ca_print_format (args c) \<noteq> ''legacy'' \<longrightarrow> stdout c' = stdout c \<and> stderr c' = stderr c)"
proof -
  let ?m = "client_msghdr\<lparr>msg_iov := [(in_payload d @ replicate (TST_PKT_SIZE - length (in_payload d)) 0, TST_PKT_SIZE)],
        msg_name := in_name d, msg_control := in_control d, msg_trunc := False\<rparr>"
  have "awaitAndHandleResponse ntop sqa (Recv_msg d) c =
     (case handleReflectorPacket ntop sqa (reply_packet d) ?m (int (length (in_payload d)))
             (get_kernel_timestamp (in_control d) timespec_zero) c of
        Inl msg \<Rightarrow> Inl msg | Inr c' \<Rightarrow> Inr (True, c'))"
    unfolding awaitAndHandleResponse_def client_recv [OF assms(1)] by (simp add: reply_packet_def Let_def)
  then show ?thesis
    using handleReflectorPacket_frame [of c "arrival d c" "get_kernel_timestamp (in_control d) timespec_zero"
        ntop sqa "reply_packet d" ?m "int (length (in_payload d))"] assms(2)
    by (auto simp: arrival_def can_print_def Let_def)
qed

lemma awaitAndHandleResponse_none:
  "awaitAndHandleResponse ntop sqa (Recv_error e) c = Inr (False, c)"
  "TST_PKT_SIZE < length (in_payload d) \<Longrightarrow> awaitAndHandleResponse ntop sqa (Recv_msg d) c = Inr (False, c)"
  by (simp_all add: awaitAndHandleResponse_def client_msghdr_def make_msghdr_def Let_def)

text \<open>
  C10: A datagram of at most 1472 bytes, from whatever source, is handled as the reply it contains: it
  counts as received, and with the collator running it adds exactly three observations of its
  sequence number, at the server's send and receive times and at its arrival (by the kernel's
  clock if it gave a time), in this order. A longer datagram and a receive error leave the client as
  it is. The datagram is padded with zeros when it is shorter than a packet.
\<close>

theorem reply_observed:
  assumes "can_print (args c)"
  shows "(length (in_payload d) \<le> TST_PKT_SIZE \<longrightarrow>
      (\<exists>c'. awaitAndHandleResponse ntop sqa (Recv_msg d) c = Inr (True, c')
         \<and> received_packets c' = received_packets c + 1
         \<and> last_received_packet_id c' = sint (ntohl (rp_seq_number (reply_packet d)))
         \<and> last_packet_received_epoch_nanoseconds c' = arrival d c
         \<and> ol_observations (observation_list c') = ol_observations (observation_list c) @
             (if collator_started c \<noteq> 0
              then [QEDObservation SERVER_SEND (timestamp_to_nsec (ntohts (rp_timestamp (reply_packet d))))
                      (ntohl (rp_seq_number (reply_packet d))) (int (length (in_payload d))),
                    QEDObservation SERVER_RECEIVE (timestamp_to_nsec (ntohts (rp_receive_timestamp (reply_packet d))))
                      (ntohl (rp_seq_number (reply_packet d))) (int (length (in_payload d))),
                    QEDObservation CLIENT_RECEIVE (arrival d c)
                      (ntohl (rp_seq_number (reply_packet d))) (int (length (in_payload d)))]
              else [])))
     \<and> (TST_PKT_SIZE < length (in_payload d) \<longrightarrow> awaitAndHandleResponse ntop sqa (Recv_msg d) c = Inr (False, c))
     \<and> awaitAndHandleResponse ntop sqa (Recv_error e) c = Inr (False, c)"
  using awaitAndHandleResponse_reply [OF _ assms, of d ntop sqa] awaitAndHandleResponse_none
  unfolding reply_observations_def Let_def by blast

definition sample_reply :: "nat \<Rightarrow> incoming" where
  "sample_reply n = \<lparr>in_payload = replicate n 0, in_name = [], in_control = []\<rparr>"

definition waiting_client :: "int \<Rightarrow> unit client" where
  "waiting_client sent =
     (client_init (client_args_default\<lparr>ca_print_format := ''raw''\<rparr>) [[1]] 100 ()
        \<lparr>readings = (\<lambda>k. \<lparr>tv_sec = 100 + int (min k 10), tv_nsec = 0\<rparr>), ticks = 0\<rparr>)
     \<lparr>sent_packets := sent, sending_completed := 100\<rparr>"

lemma waiting_client_simps:
  "can_print (args (waiting_client n))" "received_packets (waiting_client n) = 0" "sent_packets (waiting_client n) = n"
  "sending_completed (waiting_client n) = 100" "ca_timeout (args (waiting_client n)) = 10"
  "clock (waiting_client n) = \<lparr>readings = (\<lambda>k. \<lparr>tv_sec = 100 + int (min k 10), tv_nsec = 0\<rparr>), ticks = 0\<rparr>"
  by (simp_all add: waiting_client_def client_init_def client_args_default_def can_print_def)

theorem reply_observed_witness:
  "(\<exists>c'. awaitAndHandleResponse (\<lambda>v b. None) no_stats (Recv_msg (sample_reply 42)) (waiting_client 1) = Inr (True, c')
      \<and> received_packets c' = 1)
   \<and> awaitAndHandleResponse (\<lambda>v b. None) no_stats (Recv_msg (sample_reply 1473)) (waiting_client 1) = Inr (False, waiting_client 1)"
proof -
  have "length (in_payload (sample_reply n)) = n" for n by (simp add: sample_reply_def)
  then show ?thesis
    using reply_observed [OF waiting_client_simps(1), of "sample_reply 42" "\<lambda>v b. None" no_stats 1]
      reply_observed [OF waiting_client_simps(1), of "sample_reply 1473" "\<lambda>v b. None" no_stats 1]
    by (auto simp: TST_PKT_SIZE_def waiting_client_simps)
qed

section \<open>When the thread ends\<close>

lemma aggregate_counters [simp]:
  "sent_packets (aggregateRawData sqa r c) = sent_packets c"
  "received_packets (aggregateRawData sqa r c) = received_packets c"
  "collator_started (aggregateRawData sqa r c) = collator_started c"
  by (cases "entry_complete r"; simp add: aggregate_complete aggregate_incomplete Let_def)+

lemma check_frame [simp]:
  "args (check_if_oldest_packet_should_be_processed sqa c) = args c"
  "sent_packets (check_if_oldest_packet_should_be_processed sqa c) = sent_packets c"
  "received_packets (check_if_oldest_packet_should_be_processed sqa c) = received_packets c"
  "sending_completed (check_if_oldest_packet_should_be_processed sqa c) = sending_completed c"
  "clock (check_if_oldest_packet_should_be_processed sqa c) = clock (tick c)"
  by (auto simp: check_oldest_eq tick_def split: list.split)

text \<open>What a round does to the counters and the clock, for any event.\<close>

lemma receive_round:
  assumes "can_print (args c)"
  shows "\<exists>b c'. awaitAndHandleResponse ntop sqa ev c = Inr (b, c') \<and> args c' = args c \<and>
     sent_packets c' = sent_packets c \<and> sending_completed c' = sending_completed c \<and>
     received_packets c' = received_packets c + (if b then 1 else 0) \<and>
     readings (clock c') = readings (clock c) \<and> ticks (clock c) \<le> ticks (clock c')"
proof (cases "\<exists>d. ev = Recv_msg d \<and> length (in_payload d) \<le> TST_PKT_SIZE")
  case True
  then show ?thesis using awaitAndHandleResponse_reply [OF _ assms, of _ ntop sqa] by fastforce
next
  case False
  then have "awaitAndHandleResponse ntop sqa ev c = Inr (False, c)"
    using awaitAndHandleResponse_none by (cases ev) (auto simp: not_le)
  then show ?thesis by (intro exI [of _ False] exI [of _ c]) simp
qed

definition past_timeout :: "'st client \<Rightarrow> nat \<Rightarrow> bool" where
  "past_timeout c j \<longleftrightarrow>
     ucast (ca_timeout (args c)) \<le> word_of_int (tv_sec (readings (clock c) j)) - sending_completed c"

lemma receiver_goes_on_eq:
  assumes "sending_completed c \<noteq> 0"
  shows "receiver_goes_on c =
     (if received_packets c < sent_packets c then (\<not> past_timeout c (ticks (clock c)), tick c) else (False, c))"
  using assms by (simp add: receiver_goes_on_def now_seconds_eq past_timeout_def not_le)

lemma receive_from_ends:
  assumes "sending_completed c \<noteq> 0" and "can_print (args c)"
    and "\<forall>j \<ge> ticks (clock c) + m. past_timeout c j" and "m \<le> length evs"
  shows "fst (receive_from ntop sqa evs c) = Finished"
  using assms
proof (induction m arbitrary: evs c)
  case 0
  then show ?case by (cases evs) (simp_all add: receiver_goes_on_eq)
next
  case (Suc m)
  then obtain ev evs' where evs: "evs = ev # evs'" "m \<le> length evs'" by (cases evs) simp_all
  show ?case
  proof (cases "fst (receiver_goes_on c)")
    case False
    then show ?thesis by (cases "receiver_goes_on c") (simp add: evs)
  next
    case True
    then have on: "receiver_goes_on c = (True, tick c)"
      using Suc.prems(1) by (auto simp: receiver_goes_on_eq split: if_splits)
    obtain b c1 where c1: "awaitAndHandleResponse ntop sqa ev (tick c) = Inr (b, c1)" "args c1 = args c"
      "sending_completed c1 = sending_completed c" "readings (clock c1) = readings (clock c)"
      "Suc (ticks (clock c)) \<le> ticks (clock c1)"
      using receive_round [of "tick c" ntop sqa ev] Suc.prems(2) by (auto simp: tick_def)
    define c2 where "c2 = (if b then c1 else check_if_oldest_packet_should_be_processed sqa c1)"
    have c2: "args c2 = args c" "sending_completed c2 = sending_completed c" "readings (clock c2) = readings (clock c)"
      "Suc (ticks (clock c)) \<le> ticks (clock c2)"
      using c1 by (simp_all add: c2_def tick_def)
    have "fst (receive_from ntop sqa evs' c2) = Finished"
      using Suc.prems c2 evs(2) by (intro Suc.IH) (auto simp: past_timeout_def)
    then show ?thesis using on c1(1) by (cases b) (simp_all add: evs(1) c2_def)
  qed
qed

text \<open>
  C22: Once sending is complete, the receiver thread ends: at the latest when the clock stays the timeout
  past the end of sending, as every \<^verbatim>\<open>recvmsg\<close> call returns, with a datagram or an error, and there are
  only finitely many rounds before the clock is past it.
\<close>

theorem receiver_thread_ends:
  assumes "sending_completed c \<noteq> 0" and "can_print (args c)"
    and "\<forall>j \<ge> ticks (clock c) + m. past_timeout c j" and "m \<le> length evs"
  shows "fst (runReceiverThread ntop sqa evs c) = Finished"
  using receive_from_ends [OF assms] by (simp add: runReceiverThread_def)

theorem receiver_thread_ends_witness:
  "fst (runReceiverThread (\<lambda>v b. None) no_stats (replicate 10 (Recv_error 11)) (waiting_client 5)) = Finished"
proof -
  have "past_timeout (waiting_client 5) j" if "10 \<le> j" for j
    using that by (simp add: past_timeout_def waiting_client_simps min_def)
  then show ?thesis
    using receiver_thread_ends [of "waiting_client 5" 10 "replicate 10 (Recv_error 11)" "\<lambda>v b. None" no_stats]
    by (simp add: waiting_client_simps)
qed

text \<open>The results of \<^verbatim>\<open>recvmsg\<close> that count as a reply: datagrams that fit the buffer.\<close>

fun fits :: "recv_result \<Rightarrow> bool" where
  "fits (Recv_error e) \<longleftrightarrow> False"
| "fits (Recv_msg d) \<longleftrightarrow> length (in_payload d) \<le> TST_PKT_SIZE"

lemma receive_counts:
  assumes "can_print (args c)"
  shows "\<exists>c1. awaitAndHandleResponse ntop sqa ev c = Inr (fits ev, c1) \<and> args c1 = args c \<and>
     sending_completed c1 = sending_completed c \<and> sent_packets c1 = sent_packets c \<and>
     received_packets c1 = received_packets c + (if fits ev then 1 else 0)"
proof (cases ev)
  case (Recv_error e)
  then show ?thesis by (simp add: awaitAndHandleResponse_none)
next
  case (Recv_msg d)
  show ?thesis
    using awaitAndHandleResponse_reply [OF _ assms, of d ntop sqa] awaitAndHandleResponse_none(2) [of d ntop sqa c]
    by (cases "length (in_payload d) \<le> TST_PKT_SIZE") (auto simp: Recv_msg)
qed

lemma receive_from_counts:
  assumes "sending_completed c \<noteq> 0" and "can_print (args c)"
    and "sent_packets c - received_packets c \<le> int (length (filter fits evs))"
  shows "receive_from ntop sqa (evs @ later) c = receive_from ntop sqa evs c \<and>
     fst (receive_from ntop sqa evs c) = Finished"
  using assms
proof (induction evs arbitrary: c)
  case Nil
  then have "receiver_goes_on c = (False, c)" by (simp add: receiver_goes_on_eq)
  then show ?case by (cases later) simp_all
next
  case (Cons ev evs)
  obtain on c0 where g: "receiver_goes_on c = (on, c0)" by fastforce
  show ?case
  proof (cases on)
    case False
    with g show ?thesis by simp
  next
    case True
    then have c0: "c0 = tick c" using g Cons.prems(1) by (auto simp: receiver_goes_on_eq split: if_splits)
    obtain c1 where c1: "awaitAndHandleResponse ntop sqa ev c0 = Inr (fits ev, c1)" "args c1 = args c"
      "sending_completed c1 = sending_completed c" "sent_packets c1 = sent_packets c"
      "received_packets c1 = received_packets c + (if fits ev then 1 else 0)"
      using receive_counts [of "tick c" ntop sqa ev] Cons.prems(2) unfolding c0 by (auto simp: tick_def)
    define c2 where "c2 = (if fits ev then c1 else check_if_oldest_packet_should_be_processed sqa c1)"
    have "receive_from ntop sqa (evs @ later) c2 = receive_from ntop sqa evs c2 \<and>
        fst (receive_from ntop sqa evs c2) = Finished"
      using Cons.prems c1 by (intro Cons.IH) (simp_all add: c2_def split: if_splits)
    then show ?thesis using g True c1(1) by (cases "fits ev") (simp_all add: c2_def)
  qed
qed



end
