(* ===== verification/Step_Systems.thy ===== *)
theory Step_Systems
  imports Main
begin

text \<open>
  Labelled step relations: the runs of a relation, and the contract of an invariant, which every run keeps.
  \<^verbatim>\<open>Threads\<close> interprets the locale for the threads of the client.
\<close>

inductive run :: "('w \<Rightarrow> 'l \<Rightarrow> 'w \<Rightarrow> bool) \<Rightarrow> 'w \<Rightarrow> 'l list \<Rightarrow> 'w \<Rightarrow> bool" for step where
  run_Nil: "run step w [] w"
| run_snoc: "run step w ls w' \<Longrightarrow> step w' l w'' \<Longrightarrow> run step w (ls @ [l]) w''"

inductive_cases run_NilE [elim!]: "run step w [] w'"
inductive_cases run_snocE: "run step w (ls @ [l]) w'"

lemma run_trans:
  assumes "run step w2 ls' w3" and "run step w1 ls w2"
  shows "run step w1 (ls @ ls') w3"
  using assms by (induction rule: run.induct) (simp_all add: run_snoc flip: append_assoc)

lemma run_Cons: "step w l w' \<Longrightarrow> run step w' ls w'' \<Longrightarrow> run step w (l # ls) w''"
  using run_trans [of step w' ls w'' w "[l]"] run_snoc [OF run_Nil, of step w l w'] by simp

lemmas run_2 = run_Cons [OF _ run_Cons [OF _ run_Nil]]
lemmas run_3 = run_Cons [OF _ run_2]
lemmas run_4 = run_Cons [OF _ run_3]

text \<open>An invariant of the steps whose labels are allowed.\<close>

locale step_invariant =
  fixes step :: "'w \<Rightarrow> 'l \<Rightarrow> 'w \<Rightarrow> bool"
    and allowed :: "'l \<Rightarrow> bool"
    and inv :: "'w \<Rightarrow> bool"
  assumes preserved: "step w l w' \<Longrightarrow> allowed l \<Longrightarrow> inv w \<Longrightarrow> inv w'"
begin

lemma run_keeps:
  assumes "run step w ls w'" and "\<forall>l \<in> set ls. allowed l" and "inv w"
  shows "inv w'"
  using assms by (induction rule: run.induct) (auto intro: preserved)

lemma runs_keep:
  assumes "run step w1 ls w2" and "run step (f w2) ls' w3" and "\<forall>l \<in> set (ls @ ls'). allowed l"
    and "inv w1" and "\<And>w. inv w \<Longrightarrow> inv (f w)"
  shows "inv w3"
  using run_keeps [OF assms(2)] run_keeps [OF assms(1)] assms(3-5) by auto

end

end
