(* ===== verification/Threads.thy ===== *)
theory Threads
  imports Sender Receiver Step_Systems
begin

text \<open>
  The three threads of the client, as \<^verbatim>\<open>main\<close> of \<^verbatim>\<open>src/client/main_client.cpp\<close> starts them on one \<^verbatim>\<open>Client\<close>
  object: the sender, the receiver and the collator (the main thread). A round of the sender, the
  handling of a datagram and the processing of an observation are single steps. The routine
  \<^verbatim>\<open>check_if_oldest_packet_should_be_processed\<close>, which both the receiver and the collator call, is cut at
  its accesses to the list of entries: it takes the oldest entry and the time, aggregates and prints
  the entry, and removes the first entry of the list.

  \<^verbatim>\<open>getOldestEntry\<close> returns a pointer. Entries leave the list only at the front, so the position of an
  entry among all entries ever added serves as its address, and \<^verbatim>\<open>archive\<close> keeps the entries that were
  removed. \<^verbatim>\<open>retired\<close> records the addresses of the aggregated entries.
\<close>

section \<open>States\<close>

datatype thread = Receiver_thread | Collator_thread

datatype position =
    Unstarted
  | Looping
  | Checking
  | Holding "nat option" u64
  | Retiring nat
  | Stopped

record ('g, 'st) world =
  shared :: "'st client"
  w_env :: "'g sender_env"
  w_index :: u32
  w_sender_done :: bool
  pos :: "thread \<Rightarrow> position"
  archive :: "raw_data list"
  retired :: "nat list"
  undefined_behaviour :: bool

definition world_init :: "'g rng_api \<Rightarrow> 'g sender_env \<Rightarrow> 'st client \<Rightarrow> ('g, 'st) world" where
  "world_init rng e c =
     \<lparr>shared = c, w_env = seed_engine rng e, w_index = 0, w_sender_done = False,
      pos = (\<lambda>t. case t of Receiver_thread \<Rightarrow> Looping | Collator_thread \<Rightarrow> Unstarted), archive = [], retired = [],
      undefined_behaviour = False\<rparr>"

text \<open>The entry at an address.\<close>

definition entry_at :: "('g, 'st) world \<Rightarrow> nat \<Rightarrow> raw_data" where
  "entry_at w a = (archive w @ rl_observations (raw_data_list (shared w))) ! a"

definition oldest_address :: "('g, 'st) world \<Rightarrow> nat option" where
  "oldest_address w = (case rl_getOldestEntry (raw_data_list (shared w)) of None \<Rightarrow> None | Some _ \<Rightarrow> Some (length (archive w)))"

definition entry_ready :: "client_args \<Rightarrow> u64 \<Rightarrow> raw_data \<Rightarrow> bool" where
  "entry_ready a now r \<longleftrightarrow> entry_complete r \<or> entry_timed_out a now r"

definition retire_entry :: "'st sqa_api \<Rightarrow> raw_data \<Rightarrow> 'st client \<Rightarrow> 'st client" where
  "retire_entry sqa r c =
     (let c = aggregateRawData sqa r c
      in if ca_print_format (args c) = ''raw'' then print (raw_data_line (ca_sep (args c)) r) c else c)"

section \<open>Steps\<close>

datatype label =
    Sends | Sender_ends
  | Receives recv_result | Times_out recv_result | Receiver_ends
  | Collator_starts | Processes | Collator_checks | Collator_ends
  | Picks thread | Retires thread | Leaves thread | Finishes thread | Pops thread | Pops_empty thread

text \<open>Where a thread is after a check: both go on with their loops.\<close>

abbreviation move :: "thread \<Rightarrow> position \<Rightarrow> ('g, 'st) world \<Rightarrow> ('g, 'st) world" where
  "move t p w \<equiv> w\<lparr>pos := (pos w)(t := p)\<rparr>"

inductive step ::
  "sender_os \<Rightarrow> 'g rng_api \<Rightarrow> (u8 \<Rightarrow> u8 list \<Rightarrow> string option) \<Rightarrow> 'st sqa_api \<Rightarrow>
   ('g, 'st) world \<Rightarrow> label \<Rightarrow> ('g, 'st) world \<Rightarrow> bool"
  for os rng ntop sqa where
  Sends: "\<not> w_sender_done w \<Longrightarrow> more_to_send (args (shared w)) (w_index w) \<Longrightarrow>
     runtime_over (shared w) = (False, c) \<Longrightarrow> sender_round os rng (w_index w) (w_env w, c) = (e', c') \<Longrightarrow>
     step os rng ntop sqa w Sends (w\<lparr>shared := c', w_env := e', w_index := w_index w + 1\<rparr>)"
| Sender_ends: "\<not> w_sender_done w \<Longrightarrow>
     (\<not> more_to_send (args (shared w)) (w_index w) \<and> c = shared w) \<or>
       (more_to_send (args (shared w)) (w_index w) \<and> runtime_over (shared w) = (True, c)) \<Longrightarrow>
     now_seconds c = (now, c') \<Longrightarrow>
     step os rng ntop sqa w Sender_ends (w\<lparr>shared := c'\<lparr>sending_completed := now\<rparr>, w_sender_done := True\<rparr>)"
| Receives: "pos w Receiver_thread = Looping \<Longrightarrow> receiver_goes_on (shared w) = (True, c) \<Longrightarrow>
     awaitAndHandleResponse ntop sqa ev c = Inr (True, c') \<Longrightarrow>
     step os rng ntop sqa w (Receives ev) (w\<lparr>shared := c'\<rparr>)"
| Times_out: "pos w Receiver_thread = Looping \<Longrightarrow> receiver_goes_on (shared w) = (True, c) \<Longrightarrow>
     awaitAndHandleResponse ntop sqa ev c = Inr (False, c') \<Longrightarrow>
     step os rng ntop sqa w (Times_out ev) (move Receiver_thread Checking (w\<lparr>shared := c'\<rparr>))"
| Receiver_ends: "pos w Receiver_thread = Looping \<Longrightarrow> receiver_goes_on (shared w) = (False, c) \<Longrightarrow>
     step os rng ntop sqa w Receiver_ends (move Receiver_thread Stopped (w\<lparr>shared := c\<rparr>))"
| Collator_starts: "pos w Collator_thread = Unstarted \<Longrightarrow>
     step os rng ntop sqa w Collator_starts (move Collator_thread Looping (w\<lparr>shared := (shared w)\<lparr>collator_started := 1\<rparr>\<rparr>))"
| Processes: "pos w Collator_thread = Looping \<Longrightarrow> collator_finished (shared w) = 0 \<Longrightarrow>
     ol_popObservation (observation_list (shared w)) = Some (obs, q) \<Longrightarrow>
     step os rng ntop sqa w Processes (w\<lparr>shared := process_observation obs ((shared w)\<lparr>observation_list := q\<rparr>)\<rparr>)"
| Collator_checks: "pos w Collator_thread = Looping \<Longrightarrow> collator_finished (shared w) = 0 \<Longrightarrow>
     ol_isEmpty (observation_list (shared w)) \<Longrightarrow>
     step os rng ntop sqa w Collator_checks (move Collator_thread Checking w)"
| Collator_ends: "pos w Collator_thread = Looping \<Longrightarrow> collator_finished (shared w) \<noteq> 0 \<Longrightarrow>
     step os rng ntop sqa w Collator_ends (move Collator_thread Stopped w)"
| Picks: "pos w t = Checking \<Longrightarrow> now_timestamp (shared w) = (ts, c) \<Longrightarrow>
     step os rng ntop sqa w (Picks t) (move t (Holding (oldest_address w) (timestamp_to_nsec ts)) (w\<lparr>shared := c\<rparr>))"
| Retires: "pos w t = Holding (Some a) now \<Longrightarrow> entry_ready (args (shared w)) now (entry_at w a) \<Longrightarrow>
     step os rng ntop sqa w (Retires t)
       (move t (Retiring a) (w\<lparr>shared := retire_entry sqa (entry_at w a) (shared w), retired := retired w @ [a]\<rparr>))"
| Leaves: "pos w t = Holding (Some a) now \<Longrightarrow> \<not> entry_ready (args (shared w)) now (entry_at w a) \<Longrightarrow>
     step os rng ntop sqa w (Leaves t) (move t Looping w)"
| Finishes: "pos w t = Holding None now \<Longrightarrow>
     step os rng ntop sqa w (Finishes t)
       (move t Looping (w\<lparr>shared := (if sending_completed (shared w) > 0
                                     then (shared w)\<lparr>collator_finished := 1\<rparr> else shared w)\<rparr>))"
| Pops: "pos w t = Retiring a \<Longrightarrow> rl_popObservation (raw_data_list (shared w)) = Some (r, q) \<Longrightarrow>
     step os rng ntop sqa w (Pops t)
       (move t Looping (w\<lparr>shared := (shared w)\<lparr>raw_data_list := q\<rparr>, archive := archive w @ [r]\<rparr>))"
| Pops_empty: "pos w t = Retiring a \<Longrightarrow> rl_popObservation (raw_data_list (shared w)) = None \<Longrightarrow>
     step os rng ntop sqa w (Pops_empty t) (move t Stopped (w\<lparr>undefined_behaviour := True\<rparr>))"

abbreviation steps ::
  "sender_os \<Rightarrow> 'g rng_api \<Rightarrow> (u8 \<Rightarrow> u8 list \<Rightarrow> string option) \<Rightarrow> 'st sqa_api \<Rightarrow>
   ('g, 'st) world \<Rightarrow> label list \<Rightarrow> ('g, 'st) world \<Rightarrow> bool" where
  "steps os rng ntop sqa \<equiv> run (step os rng ntop sqa)"

lemmas steps_Nil = run_Nil [where step = "step os rng ntop sqa"] for os rng ntop sqa
lemmas steps_snoc = run_snoc [where step = "step os rng ntop sqa"] for os rng ntop sqa
lemmas steps_trans = run_trans [where step = "step os rng ntop sqa"] for os rng ntop sqa
lemmas steps_Cons = run_Cons [where step = "step os rng ntop sqa"] for os rng ntop sqa
lemmas steps_2 = run_2 [where step = "step os rng ntop sqa"] for os rng ntop sqa
lemmas steps_3 = run_3 [where step = "step os rng ntop sqa"] for os rng ntop sqa
lemmas steps_4 = run_4 [where step = "step os rng ntop sqa"] for os rng ntop sqa

text \<open>The class of finite types makes the sets of threads finite.\<close>

lemma UNIV_thread: "UNIV = {Receiver_thread, Collator_thread}"
  using thread.exhaust by auto

instantiation thread :: enum
begin

definition "enum_thread = [Receiver_thread, Collator_thread]"
definition "enum_all_thread P \<longleftrightarrow> P Receiver_thread \<and> P Collator_thread"
definition "enum_ex_thread P \<longleftrightarrow> P Receiver_thread \<or> P Collator_thread"

instance
  by standard (simp_all add: enum_thread_def enum_all_thread_def enum_ex_thread_def UNIV_thread)

end

section \<open>What the steps leave alone\<close>

text \<open>The part of the client object that only the collator's routines change.\<close>

definition keeps :: "'st client \<Rightarrow> 'st client \<Rightarrow> bool" where
  "keeps c c' \<longleftrightarrow> raw_data_list c' = raw_data_list c \<and> collator_finished c' = collator_finished c \<and>
     sending_completed c' = sending_completed c \<and> args c' = args c \<and> all_stats c' = all_stats c"

lemma all_stats_update [simp]:
  "all_stats (c\<lparr>sent_packets := n\<rparr>) = all_stats c" "all_stats (c\<lparr>network := net\<rparr>) = all_stats c"
  "all_stats (c\<lparr>stderr := err\<rparr>) = all_stats c" "all_stats (c\<lparr>stdout := out\<rparr>) = all_stats c"
  "all_stats (c\<lparr>clock := k\<rparr>) = all_stats c" "all_stats (tick c) = all_stats c"
  "all_stats (c\<lparr>first_packet_sent_epoch_nanoseconds := t\<rparr>) = all_stats c"
  "all_stats (c\<lparr>last_packet_sent_epoch_nanoseconds := t\<rparr>) = all_stats c"
  "all_stats (c\<lparr>observation_list := q\<rparr>) = all_stats c" "all_stats (c\<lparr>raw_data_list := rs\<rparr>) = all_stats c"
  "all_stats (c\<lparr>last_packet_received_epoch_nanoseconds := t\<rparr>) = all_stats c"
  "all_stats (c\<lparr>last_received_packet_id := i\<rparr>) = all_stats c" "all_stats (c\<lparr>received_packets := n\<rparr>) = all_stats c"
  "all_stats (c\<lparr>collator_started := b\<rparr>) = all_stats c" "all_stats (c\<lparr>collator_finished := b\<rparr>) = all_stats c"
  "all_stats (c\<lparr>sending_completed := t\<rparr>) = all_stats c"
  by (simp_all add: all_stats_def tick_def)

lemma keeps_refl [simp]: "keeps c c"
  by (simp add: keeps_def)

lemma keeps_trans [trans]: "keeps c c' \<Longrightarrow> keeps c' c'' \<Longrightarrow> keeps c c''"
  by (simp add: keeps_def)

lemma keeps_tick [simp]: "keeps c (tick c)"
  by (simp add: keeps_def)

lemma keeps_now:
  "now_seconds c = (t, c') \<Longrightarrow> keeps c c'" "now_timestamp c = (ts, c') \<Longrightarrow> keeps c c'"
  by (auto simp: now_seconds_eq now_timestamp_eq)

lemma keeps_runtime_over: "runtime_over c = (b, c') \<Longrightarrow> keeps c c'"
  by (auto simp: runtime_over_def now_seconds_eq split: if_splits)

lemma keeps_note_sent [simp]: "keeps c (note_sent i len ts c)"
  by (simp add: keeps_def note_sent_def enqueue_observation_def Let_def)

lemma keeps_sender_round:
  assumes "sender_round os rng i (e, c) = (e', c')"
  shows "keeps c c'"
proof -
  obtain n e1 where n: "select_randomly rng (ca_payload_lens (args c)) (ca_seed (args c)) e = (n, e1)" by fastforce
  obtain d e2 where d: "next_delay rng (args c) e1 = (d, e2)" by fastforce
  obtain r e3 c3 where l: "send_loop os (remote_address_info c) (iov_read (os_beyond os)
      (client_packet_bytes (sender_packet i (next_reading c))) (unat (word_of_int n :: u64)))
      (e2\<lparr>se_slept := se_slept e2 @ [d]\<rparr>, tick c) = (r, e3, c3)" by (metis prod.exhaust)
  from send_loop_frame [OF this] have "keeps (tick c) c3" by (auto simp: keeps_def)
  with keeps_tick have c3: "keeps c c3" by (rule keeps_trans)
  show ?thesis
  proof (cases r)
    case None
    then have "c' = note_sent i (word_of_int n) (timespec_to_timestamp (next_reading c)) c3"
      using assms l by (simp add: sender_round_def n d sendPacket_def craftSenderPacket_eq Let_def)
    with c3 keeps_note_sent show ?thesis by (metis keeps_trans)
  next
    case (Some x)
    then have "c' = c3\<lparr>stderr := stderr c3 @ [what x]\<rparr>"
      using assms l by (simp add: sender_round_def n d sendPacket_def craftSenderPacket_eq Let_def)
    with c3 show ?thesis by (simp add: keeps_def)
  qed
qed

lemma keeps_print_packet:
  assumes "printReflectorPacket ntop sqa p hdr n t stats c = Inr c'"
  shows "keeps c c'"
proof (cases "stoi (ca_local_port (args c))")
  case (Inl x)
  then have False using assms by (cases x) (auto simp: printReflectorPacket_def Let_def split: prod.splits)
  then show ?thesis ..
next
  case (Inr lp)
  from printReflectorPacket_frame [OF this, of ntop sqa p hdr n t stats] assms
  obtain out err where "c' = c\<lparr>stderr := err, stdout := out\<rparr>" by auto
  then show ?thesis by (simp add: keeps_def)
qed

lemma keeps_note_received: "keeps c (note_received p n t c)"
  by (simp add: keeps_def note_received_def fold_enqueue Let_def)

lemma keeps_handle:
  assumes "handleReflectorPacket ntop sqa p hdr n t c = Inr c'"
  shows "keeps c c'"
proof -
  let ?c1 = "if tv_sec t = 0 \<and> tv_nsec t = 0 then tick c else c"
  obtain r where "handleReflectorPacket ntop sqa p hdr n t c =
     (let c3 = note_received p n r ?c1 in
      if ca_print_format (args c3) = ''legacy''
      then printReflectorPacket ntop sqa p hdr n r (stats_client_server c3) c3 else Inr c3)"
    unfolding handleReflectorPacket_def now_timestamp_eq
    by (cases "tv_sec t = 0 \<and> tv_nsec t = 0") (simp_all only: Let_def if_True if_False prod.case simp_thms)
  with assms have "keeps (note_received p n r ?c1) c'"
    by (auto simp: Let_def keeps_print_packet split: if_splits)
  moreover have "keeps c ?c1" by simp
  ultimately show ?thesis using keeps_note_received by (blast intro: keeps_trans)
qed

lemma keeps_await:
  assumes "awaitAndHandleResponse ntop sqa ev c = Inr (b, c')"
  shows "keeps c c'"
  using assms by (auto simp: awaitAndHandleResponse_def Let_def dest: keeps_handle split: prod.splits if_splits sum.splits)

lemma keeps_goes_on: "receiver_goes_on c = (b, c') \<Longrightarrow> keeps c c'"
  by (auto simp: receiver_goes_on_def now_seconds_eq split: if_splits)

lemma process_observation_keeps [simp]:
  "collator_finished (process_observation obs c) = collator_finished c"
  "sending_completed (process_observation obs c) = sending_completed c"
  "args (process_observation obs c) = args c" "sent_packets (process_observation obs c) = sent_packets c"
  "received_packets (process_observation obs c) = received_packets c"
  "readings (clock (process_observation obs c)) = readings (clock c)"
  by (auto simp: process_observation_def now_timestamp_eq tick_def Let_def split: option.splits)

lemma process_observation_length:
  "length (rl_observations (raw_data_list c)) \<le> length (rl_observations (raw_data_list (process_observation obs c)))"
proof -
  have "length (ids c) \<le> length (ids (process_observation obs c))" by (simp add: process_observation_ids)
  then show ?thesis by (simp add: ids_def)
qed

lemma retire_entry_frame [simp]:
  "raw_data_list (retire_entry sqa r c) = raw_data_list c" "args (retire_entry sqa r c) = args c"
  "collator_finished (retire_entry sqa r c) = collator_finished c"
  "sending_completed (retire_entry sqa r c) = sending_completed c"
  "all_stats (retire_entry sqa r c) = all_stats (aggregateRawData sqa r c)"
  by (simp_all add: retire_entry_def print_def all_stats_def Let_def)

section \<open>The collator alone\<close>

text \<open>The entries of the list, oldest first.\<close>

abbreviation entry_list :: "('g, 'st) world \<Rightarrow> raw_data list" where
  "entry_list w \<equiv> rl_observations (raw_data_list (shared w))"

definition in_progress :: "position \<Rightarrow> nat list" where
  "in_progress p = (case p of Retiring a \<Rightarrow> [a] | _ \<Rightarrow> [])"

definition alone :: "('g, 'st) world \<Rightarrow> bool" where
  "alone w \<longleftrightarrow> pos w Receiver_thread \<in> {Looping, Stopped} \<and> \<not> undefined_behaviour w \<and>
     retired w = [0..<length (archive w)] @ in_progress (pos w Collator_thread) \<and>
     (\<forall>a now. pos w Collator_thread = Holding (Some a) now \<longrightarrow> a = length (archive w) \<and> entry_list w \<noteq> []) \<and>
     (\<forall>a. pos w Collator_thread = Retiring a \<longrightarrow> a = length (archive w) \<and> entry_list w \<noteq> [])"

lemma alone_shared:
  assumes "alone w" and "entry_list w \<noteq> [] \<longrightarrow> rl_observations (raw_data_list c) \<noteq> []"
  shows "alone (w\<lparr>shared := c\<rparr>)"
  using assms by (auto simp: alone_def)

fun times_out :: "label \<Rightarrow> bool" where
  "times_out (Times_out ev) = True"
| "times_out _ = False"

text \<open>
  The steps of the sender, and those of the receiver outside of a check: they leave the entries, what was
  aggregated and the collator alone.
\<close>

fun quiet :: "label \<Rightarrow> bool" where
  "quiet Sends = True"
| "quiet Sender_ends = True"
| "quiet (Receives ev) = True"
| "quiet (Times_out ev) = True"
| "quiet Receiver_ends = True"
| "quiet _ = False"

definition quiet_change :: "label \<Rightarrow> ('g, 'st) world \<Rightarrow> ('g, 'st) world \<Rightarrow> bool" where
  "quiet_change l w w' \<longleftrightarrow>
     archive w' = archive w \<and> retired w' = retired w \<and> undefined_behaviour w' = undefined_behaviour w \<and>
     pos w' Collator_thread = pos w Collator_thread \<and>
     raw_data_list (shared w') = raw_data_list (shared w) \<and> args (shared w') = args (shared w) \<and>
     all_stats (shared w') = all_stats (shared w) \<and> collator_finished (shared w') = collator_finished (shared w) \<and>
     (w_sender_done w' \<or> w_sender_done w' = w_sender_done w \<and> sending_completed (shared w') = sending_completed (shared w)) \<and>
     (w_sender_done w \<longrightarrow> w_sender_done w' \<and> sending_completed (shared w') = sending_completed (shared w)) \<and>
     (pos w' Receiver_thread = pos w Receiver_thread \<or>
      pos w Receiver_thread = Looping \<and> pos w' Receiver_thread = (if times_out l then Checking else Stopped))"

lemma quiet_step:
  assumes "step os rng ntop sqa w l w'" and "quiet l"
  shows "quiet_change l w w'"
  using assms(1)
proof (cases rule: step.cases)
  case (Sends c e' c')
  then have "keeps (shared w) c'" using keeps_runtime_over keeps_sender_round keeps_trans by blast
  with Sends show ?thesis by (simp add: quiet_change_def keeps_def)
next
  case (Sender_ends c now c')
  then have "keeps (shared w) c'" using keeps_runtime_over keeps_now(1) keeps_trans by (metis keeps_refl)
  with Sender_ends show ?thesis by (simp add: quiet_change_def keeps_def)
next
  case (Receives c ev c')
  then have "keeps (shared w) c'" using keeps_goes_on keeps_await keeps_trans by blast
  with Receives show ?thesis by (simp add: quiet_change_def keeps_def)
next
  case (Times_out c ev c')
  then have "keeps (shared w) c'" using keeps_goes_on keeps_await keeps_trans by blast
  with Times_out show ?thesis by (simp add: quiet_change_def keeps_def)
next
  case (Receiver_ends c)
  then have "keeps (shared w) c" using keeps_goes_on by blast
  with Receiver_ends show ?thesis by (simp add: quiet_change_def keeps_def)
qed (use assms(2) in auto)

lemma alone_collator: "alone w \<Longrightarrow> pos w t \<notin> {Looping, Stopped} \<Longrightarrow> t = Collator_thread"
  by (cases t) (auto simp: alone_def)

lemma step_alone:
  assumes "step os rng ntop sqa w l w'" and "\<not> times_out l" and "alone w"
  shows "alone w'"
proof (cases "quiet l")
  case True
  from quiet_step [OF assms(1) this] assms(2,3) show ?thesis by (auto simp: quiet_change_def alone_def)
next
  case False
  note c = alone_collator [OF assms(3)]
  from assms(1) show ?thesis
  proof (cases rule: step.cases)
    case (Picks t ts c)
    then have "t = Collator_thread" "keeps (shared w) c" using c [of t] keeps_now(2) by auto
    with assms(3) Picks show ?thesis
      by (auto simp: alone_def keeps_def in_progress_def oldest_address_def rl_getOldestEntry_def split: list.splits)
  next
    case (Retires t a now)
    with c [of t] assms(3) show ?thesis by (auto simp: alone_def in_progress_def)
  next
    case (Pops t a r q)
    with c [of t] assms(3) show ?thesis by (auto simp: alone_def in_progress_def)
  next
    case (Pops_empty t a)
    with c [of t] assms(3) show ?thesis by (auto simp: alone_def rl_popObservation_def split: list.splits)
  qed (use False assms(3) in \<open>auto simp: alone_def in_progress_def\<close>)
qed

lemma world_init_alone: "alone (world_init rng e c)"
  by (simp add: alone_def world_init_def in_progress_def)

interpretation alone: step_invariant "step os rng ntop sqa" "\<lambda>l. \<not> times_out l" alone for os rng ntop sqa
  by unfold_locales (rule step_alone)

text \<open>
  As long as no receive times out, so that only the collator checks for the oldest entry, every
  interleaving of the three threads aggregates each entry exactly once, in the order in which the
  entries were made, and removes just the entry it aggregated; no empty list is popped.
\<close>

theorem collator_retires_once:
  assumes "steps os rng ntop sqa (world_init rng e c) ls w" and "\<forall>l \<in> set ls. \<not> times_out l"
  shows "\<not> undefined_behaviour w
     \<and> retired w = [0..<length (archive w)] @
         (case pos w Collator_thread of Retiring a \<Rightarrow> [length (archive w)] | _ \<Rightarrow> [])"
proof -
  have "alone w" using alone.run_keeps [OF assms world_init_alone] .
  then show ?thesis by (auto simp: alone_def in_progress_def split: position.splits)
qed

section \<open>Two threads at the same entry\<close>

text \<open>What a check of a thread changes outside of the client object: it removes some entries.\<close>

definition after_check :: "thread \<Rightarrow> ('g, 'st) world \<Rightarrow> ('g, 'st) world \<Rightarrow> raw_data list \<Rightarrow> bool" where
  "after_check t w w' rs \<longleftrightarrow> pos w' = (pos w)(t := Looping) \<and> archive w' = archive w @ rs \<and>
     w_sender_done w' = w_sender_done w \<and> undefined_behaviour w' = undefined_behaviour w"

lemma check_steps_empty:
  assumes "pos w t = Checking" and Nil: "entry_list w = []"
  shows "\<exists>w'. steps os rng ntop sqa w [Picks t, Finishes t] w' \<and> after_check t w w' [] \<and>
     shared w' = check_if_oldest_packet_should_be_processed sqa (shared w)"
proof -
  let ?w1 = "move t (Holding None (next_nsec (shared w))) (w\<lparr>shared := tick (shared w)\<rparr>)"
  have "step os rng ntop sqa w (Picks t) ?w1"
    using step.Picks [OF assms(1) now_timestamp_eq, of os rng ntop sqa] Nil
    by (simp add: oldest_address_def rl_getOldestEntry_def next_nsec_def)
  moreover have "step os rng ntop sqa ?w1 (Finishes t)
      (move t Looping (?w1\<lparr>shared := (if sending_completed (shared ?w1) > 0
          then (shared ?w1)\<lparr>collator_finished := 1\<rparr> else shared ?w1)\<rparr>))"
    by (rule step.Finishes) simp
  ultimately have "steps os rng ntop sqa w [Picks t, Finishes t]
      (move t Looping (?w1\<lparr>shared := (if sending_completed (shared ?w1) > 0
          then (shared ?w1)\<lparr>collator_finished := 1\<rparr> else shared ?w1)\<rparr>))"
    by (rule steps_2)
  then show ?thesis using Nil by (intro exI conjI) (assumption, simp_all add: check_oldest_eq after_check_def)
qed

lemma check_steps_kept:
  assumes "pos w t = Checking" and Cons: "entry_list w = r # rs"
    and False: "\<not> entry_ready (args (shared w)) (next_nsec (shared w)) r"
  shows "\<exists>w'. steps os rng ntop sqa w [Picks t, Leaves t] w' \<and> after_check t w w' [] \<and>
     shared w' = check_if_oldest_packet_should_be_processed sqa (shared w)"
proof -
  let ?a = "length (archive w)" and ?c = "tick (shared w)"
  let ?w1 = "move t (Holding (Some ?a) (next_nsec (shared w))) (w\<lparr>shared := ?c\<rparr>)"
  have 1: "step os rng ntop sqa w (Picks t) ?w1"
    using step.Picks [OF assms(1) now_timestamp_eq, of os rng ntop sqa] Cons
    by (simp add: oldest_address_def rl_getOldestEntry_def next_nsec_def)
  have r: "entry_at ?w1 ?a = r" using Cons by (simp add: entry_at_def nth_append)
  have "step os rng ntop sqa ?w1 (Leaves t) (move t Looping ?w1)"
    using False r by (intro step.Leaves [of _ _ ?a "next_nsec (shared w)"]) simp_all
  then have "steps os rng ntop sqa w [Picks t, Leaves t] (move t Looping ?w1)"
    using 1 by (intro steps_2)
  then show ?thesis
    using Cons False by (intro exI conjI) (assumption, simp_all add: check_oldest_eq entry_ready_def after_check_def)
qed

lemma check_steps_retired:
  assumes "pos w t = Checking" and Cons: "entry_list w = r # rs"
    and True: "entry_ready (args (shared w)) (next_nsec (shared w)) r"
  shows "\<exists>w'. steps os rng ntop sqa w [Picks t, Retires t, Pops t] w' \<and> after_check t w w' [r] \<and>
     shared w' = check_if_oldest_packet_should_be_processed sqa (shared w)"
proof -
  let ?a = "length (archive w)" and ?c = "tick (shared w)"
  let ?w1 = "move t (Holding (Some ?a) (next_nsec (shared w))) (w\<lparr>shared := ?c\<rparr>)"
  have 1: "step os rng ntop sqa w (Picks t) ?w1"
    using step.Picks [OF assms(1) now_timestamp_eq, of os rng ntop sqa] Cons
    by (simp add: oldest_address_def rl_getOldestEntry_def next_nsec_def)
  have r: "entry_at ?w1 ?a = r" using Cons by (simp add: entry_at_def nth_append)
  let ?w2 = "move t (Retiring ?a) (?w1\<lparr>shared := retire_entry sqa (entry_at ?w1 ?a) (shared ?w1), retired := retired ?w1 @ [?a]\<rparr>)"
  have 2: "step os rng ntop sqa ?w1 (Retires t) ?w2"
    using True r by (intro step.Retires [where now = "next_nsec (shared w)"]) simp_all
  have q: "raw_data_list (shared ?w2) = raw_data_list (shared w)"
    by simp
  let ?w3 = "move t Looping (?w2\<lparr>shared := (shared ?w2)\<lparr>raw_data_list := (raw_data_list (shared w))\<lparr>rl_observations := rs\<rparr>\<rparr>,
      archive := archive ?w2 @ [r]\<rparr>)"
  have 3: "step os rng ntop sqa ?w2 (Pops t) ?w3"
    by (rule step.Pops [of _ _ ?a]) (simp, simp add: rl_popObservation_def q [simplified] Cons)
  from 1 2 3 have s: "steps os rng ntop sqa w [Picks t, Retires t, Pops t] ?w3" by (rule steps_3)
  have "(retire_entry sqa r ?c)\<lparr>raw_data_list := x\<rparr> =
      (aggregateRawData sqa r ?c)\<lparr>raw_data_list := x, stdout := stdout (shared w) @ retired_output (args (shared w)) r\<rparr>" for x
    by (rule client.equality) (simp_all add: retire_entry_def print_def retired_output_def Let_def)
  with True Cons have "shared ?w3 = check_if_oldest_packet_should_be_processed sqa (shared w)"
    by (simp add: check_oldest_eq entry_ready_def r [simplified])
  moreover have "after_check t w ?w3 [r]" by (simp add: after_check_def)
  ultimately show ?thesis using s by blast
qed

text \<open>
  The steps of a check, taken by one thread with no other thread in between, are the sequential routine: they
  lead back to the loop with the client as \<^verbatim>\<open>check_if_oldest_packet_should_be_processed\<close> leaves it.
\<close>

lemma check_steps:
  assumes "pos w t = Checking"
  shows "\<exists>ls w' rs. steps os rng ntop sqa w ls w' \<and> after_check t w w' rs \<and>
     shared w' = check_if_oldest_packet_should_be_processed sqa (shared w)"
proof (cases "entry_list w")
  case Nil
  from check_steps_empty [OF assms this] show ?thesis by blast
next
  case (Cons r rs)
  show ?thesis
    using check_steps_retired [OF assms Cons] check_steps_kept [OF assms Cons]
    by (cases "entry_ready (args (shared w)) (next_nsec (shared w)) r") blast+
qed

text \<open>Both threads pick the oldest entry and aggregate it before either removes it.\<close>

lemma both_retire:
  assumes "pos w Receiver_thread = Checking" and "pos w Collator_thread = Checking"
    and "entry_list w = r # rs" and "entry_complete r"
  shows "\<exists>w'. steps os rng ntop sqa w
       [Picks Receiver_thread, Picks Collator_thread, Retires Receiver_thread, Retires Collator_thread] w' \<and>
     pos w' Receiver_thread = Retiring (length (archive w)) \<and> pos w' Collator_thread = Retiring (length (archive w)) \<and>
     retired w' = retired w @ [length (archive w), length (archive w)] \<and> archive w' = archive w \<and>
     raw_data_list (shared w') = raw_data_list (shared w) \<and> undefined_behaviour w' = undefined_behaviour w"
proof -
  let ?a = "length (archive w)" and ?R = Receiver_thread and ?C = Collator_thread
  have o: "oldest_address v = Some ?a" if "archive v = archive w" "raw_data_list (shared v) = raw_data_list (shared w)"
    for v :: "('g, 'st) world"
    using that assms(3) by (simp add: oldest_address_def rl_getOldestEntry_def)
  have r: "entry_at v ?a = r" if "archive v = archive w" "raw_data_list (shared v) = raw_data_list (shared w)"
    for v :: "('g, 'st) world"
    using that assms(3) by (simp add: entry_at_def nth_append)
  let ?w1 = "move ?R (Holding (Some ?a) (next_nsec (shared w))) (w\<lparr>shared := tick (shared w)\<rparr>)"
  have 1: "step os rng ntop sqa w (Picks ?R) ?w1"
    using step.Picks [OF assms(1) now_timestamp_eq, of os rng ntop sqa] o [of w] by (simp add: next_nsec_def)
  let ?w2 = "move ?C (Holding (Some ?a) (next_nsec (shared ?w1))) (?w1\<lparr>shared := tick (shared ?w1)\<rparr>)"
  have 2: "step os rng ntop sqa ?w1 (Picks ?C) ?w2"
    using step.Picks [of ?w1 ?C, OF _ now_timestamp_eq, of os rng ntop sqa] assms(2) o [of ?w1] by (simp add: next_nsec_def)
  have ready: "entry_ready x y r" for x y using assms(4) by (simp add: entry_ready_def)
  let ?w3 = "move ?R (Retiring ?a) (?w2\<lparr>shared := retire_entry sqa r (shared ?w2), retired := retired ?w2 @ [?a]\<rparr>)"
  have 3: "step os rng ntop sqa ?w2 (Retires ?R) ?w3"
    using step.Retires [of ?w2 ?R ?a "next_nsec (shared w)" os rng ntop sqa] r [of ?w2] ready by simp
  let ?w4 = "move ?C (Retiring ?a) (?w3\<lparr>shared := retire_entry sqa r (shared ?w3), retired := retired ?w3 @ [?a]\<rparr>)"
  have 4: "step os rng ntop sqa ?w3 (Retires ?C) ?w4"
    using step.Retires [of ?w3 ?C ?a "next_nsec (shared ?w1)" os rng ntop sqa] r [of ?w3] ready by simp
  have "steps os rng ntop sqa w [Picks ?R, Picks ?C, Retires ?R, Retires ?C] ?w4"
    using 1 2 3 4 by (rule steps_4)
  then show ?thesis by (intro exI conjI) (assumption, simp_all)
qed

text \<open>
  C39: When the receiver (after a receive that timed out) and the collator check at the same time, they can
  both take the same complete entry before either removes it: its delays are then added to the
  statistics twice, and the second removal takes the next entry, which is lost without having been
  aggregated, or pops an empty list, which is undefined behaviour.
\<close>

theorem two_threads_retire_same_entry:
  assumes "pos w Receiver_thread = Checking" and "pos w Collator_thread = Checking"
    and "entry_list w = r # rs" and "entry_complete r"
  shows "\<exists>ls w'. steps os rng ntop sqa w ls w'
     \<and> retired w' = retired w @ [length (archive w), length (archive w)]
     \<and> (case rs of
          [] \<Rightarrow> undefined_behaviour w'
        | r2 # rs' \<Rightarrow> archive w' = archive w @ [r, r2] \<and> entry_list w' = rs')"
proof -
  let ?R = Receiver_thread and ?C = Collator_thread and ?a = "length (archive w)"
  obtain w4 where w4: "steps os rng ntop sqa w [Picks ?R, Picks ?C, Retires ?R, Retires ?C] w4"
    "pos w4 ?R = Retiring ?a" "pos w4 ?C = Retiring ?a" "retired w4 = retired w @ [?a, ?a]" "archive w4 = archive w"
    "raw_data_list (shared w4) = raw_data_list (shared w)"
    using both_retire [OF assms, of os rng ntop sqa] by blast
  let ?q = "(raw_data_list (shared w))\<lparr>rl_observations := rs\<rparr>"
  let ?w5 = "move ?R Looping (w4\<lparr>shared := (shared w4)\<lparr>raw_data_list := ?q\<rparr>, archive := archive w4 @ [r]\<rparr>)"
  have 5: "step os rng ntop sqa w4 (Pops ?R) ?w5"
    using step.Pops [of w4 ?R ?a r ?q os rng ntop sqa] w4 assms(3) by (simp add: rl_popObservation_def)
  show ?thesis
  proof (cases rs)
    case Nil
    have 6: "step os rng ntop sqa ?w5 (Pops_empty ?C) (move ?C Stopped (?w5\<lparr>undefined_behaviour := True\<rparr>))"
      using step.Pops_empty [of ?w5 ?C ?a os rng ntop sqa] w4(3) Nil by (simp add: rl_popObservation_def)
    from steps_snoc [OF steps_snoc [OF w4(1) 5] 6] show ?thesis
      using w4(4) Nil by (intro exI conjI) (assumption, simp_all)
  next
    case (Cons r2 rs')
    let ?w6 = "move ?C Looping (?w5\<lparr>shared := (shared ?w5)\<lparr>raw_data_list := ?q\<lparr>rl_observations := rs'\<rparr>\<rparr>,
        archive := archive ?w5 @ [r2]\<rparr>)"
    have 6: "step os rng ntop sqa ?w5 (Pops ?C) ?w6"
      using step.Pops [of ?w5 ?C ?a r2 "?q\<lparr>rl_observations := rs'\<rparr>" os rng ntop sqa] w4(3) Cons
      by (simp add: rl_popObservation_def)
    from steps_snoc [OF steps_snoc [OF w4(1) 5] 6] show ?thesis
      using w4(4,5) Cons by (intro exI conjI) (assumption, simp_all)
  qed
qed

section \<open>All interleavings\<close>

definition threads_inv :: "('g, 'st) world \<Rightarrow> bool" where
  "threads_inv w \<longleftrightarrow>
     (\<not> w_sender_done w \<longrightarrow> sending_completed (shared w) = 0) \<and>
     (collator_finished (shared w) \<noteq> 0 \<longrightarrow> sending_completed (shared w) \<noteq> 0) \<and>
     distinct (ids (shared w)) \<and>
     (\<forall>a \<in> set (retired w). a < length (archive w) + length (entry_list w)) \<and>
     (\<forall>t a now. pos w t = Holding (Some a) now \<longrightarrow> a < length (archive w) + length (entry_list w)) \<and>
     (\<not> undefined_behaviour w \<longrightarrow>
        length (retired w) = length (archive w) +
          length (in_progress (pos w Receiver_thread) @ in_progress (pos w Collator_thread)))"

lemma keeps_inv_move:
  assumes "threads_inv w" and "keeps (shared w) c" and "in_progress p = []" and "in_progress (pos w t) = []"
    and "\<forall>a now. p = Holding (Some a) now \<longrightarrow> a < length (archive w) + length (entry_list w)"
  shows "threads_inv (move t p (w\<lparr>shared := c\<rparr>))"
  using assms by (cases t) (auto simp: threads_inv_def keeps_def ids_def)

lemma distinct_process: "distinct (ids c) \<Longrightarrow> distinct (ids (process_observation obs c))"
  by (simp add: process_observation_ids)

lemma ids_with_queue [simp]: "ids (c\<lparr>observation_list := q\<rparr>) = ids c" "ids (c\<lparr>collator_started := s\<rparr>) = ids c"
    "ids (c\<lparr>collator_finished := s\<rparr>) = ids c"
  by (simp_all add: ids_def)

lemma oldest_address_bound: "oldest_address w = Some a \<Longrightarrow> a < length (archive w) + length (entry_list w)"
  by (auto simp: oldest_address_def rl_getOldestEntry_def split: option.splits list.splits)

lemma quiet_threads_inv:
  assumes "quiet_change l w w'" and "threads_inv w"
  shows "threads_inv w'"
proof -
  have receiver: "pos w' Receiver_thread = pos w Receiver_thread \<or>
      pos w Receiver_thread = Looping \<and> pos w' Receiver_thread \<in> {Checking, Stopped}"
    and collator: "pos w' Collator_thread = pos w Collator_thread"
    using assms(1) by (auto simp: quiet_change_def split: if_splits)
  then have "pos w t = Holding (Some a) now" if "pos w' t = Holding (Some a) now" for t a now
    using that by (cases t) auto
  moreover have "in_progress (pos w' Receiver_thread) = in_progress (pos w Receiver_thread)"
    using receiver by (auto simp: in_progress_def)
  moreover have "\<not> w_sender_done w' \<longrightarrow> sending_completed (shared w') = 0"
    "collator_finished (shared w') \<noteq> 0 \<longrightarrow> sending_completed (shared w') \<noteq> 0"
    using assms unfolding quiet_change_def threads_inv_def by metis+
  ultimately show ?thesis
    using assms unfolding quiet_change_def threads_inv_def ids_def by (metis length_append)
qed

lemma step_threads_inv:
  assumes "step os rng ntop sqa w l w'" and "threads_inv w"
  shows "threads_inv w'"
proof (cases "quiet l")
  case True
  from quiet_step [OF assms(1) this] assms(2) show ?thesis by (rule quiet_threads_inv)
next
  case False
  from assms(1) show ?thesis
  proof (cases rule: step.cases)
    case (Processes obs q)
    let ?c = "process_observation obs ((shared w)\<lparr>observation_list := q\<rparr>)"
    have "length (entry_list w) \<le> length (rl_observations (raw_data_list ?c))"
      using process_observation_length [of "(shared w)\<lparr>observation_list := q\<rparr>" obs] by simp
    moreover have "distinct (ids ?c)" using assms(2) by (intro distinct_process) (simp add: threads_inv_def)
    ultimately show ?thesis using assms(2) Processes by (fastforce simp: threads_inv_def)
  next
    case (Picks t ts c)
    then show ?thesis
      using assms(2) keeps_inv_move [of w c "Holding (oldest_address w) (timestamp_to_nsec ts)" t]
        keeps_now(2) [of "shared w"] oldest_address_bound [of w]
      by (simp add: in_progress_def)
  next
    case (Retires t a now)
    then have "a < length (archive w) + length (entry_list w)" using assms(2) by (auto simp: threads_inv_def)
    then show ?thesis
      using assms(2) Retires by (cases t) (auto simp: threads_inv_def ids_def in_progress_def)
  next
    case (Pops t a r q)
    then have "entry_list w = r # rl_observations q"
      by (auto simp: rl_popObservation_def split: list.splits)
    then show ?thesis
      using assms(2) Pops by (cases t) (auto simp: threads_inv_def ids_def in_progress_def)
  next
    case (Finishes t now)
    then show ?thesis using assms(2) by (cases t) (auto simp: threads_inv_def in_progress_def)
  next
    case (Leaves t a now)
    then show ?thesis using assms(2) by (cases t) (auto simp: threads_inv_def in_progress_def)
  qed (use False assms(2) in \<open>auto simp: threads_inv_def in_progress_def\<close>)
qed

interpretation threads: step_invariant "step os rng ntop sqa" "\<lambda>l. True" threads_inv for os rng ntop sqa
  by unfold_locales (rule step_threads_inv)

text \<open>
  C14: In every interleaving of the threads, from a fresh client: the list never holds two entries with
  the same identifier; the collator is told to finish only after the end of sending; and, as long as
  no empty list was popped, there are as many aggregations as removals, but for those in progress,
  and only entries that exist are aggregated.
\<close>

theorem thread_invariants:
  assumes "steps os rng ntop sqa (world_init rng e c) ls w" and "sending_completed c = 0"
    and "collator_finished c = 0" and "rl_observations (raw_data_list c) = []"
  shows "distinct (ids (shared w))
     \<and> (collator_finished (shared w) \<noteq> 0 \<longrightarrow> sending_completed (shared w) \<noteq> 0 \<and> w_sender_done w)
     \<and> (\<not> undefined_behaviour w \<longrightarrow>
          length (retired w) = length (archive w) +
            card {t. \<exists>a. pos w t = Retiring a})
     \<and> (\<forall>a \<in> set (retired w). a < length (archive w) + length (entry_list w))"
proof -
  have "threads_inv (world_init rng e c)"
    using assms(2-4) by (auto simp: threads_inv_def world_init_def in_progress_def ids_def split: thread.splits)
  with assms(1) have inv: "threads_inv w" using threads.run_keeps by blast
  have all: "{t. \<exists>a. pos w t = Retiring a} =
      (if \<exists>a. pos w Receiver_thread = Retiring a then {Receiver_thread} else {}) \<union>
      (if \<exists>a. pos w Collator_thread = Retiring a then {Collator_thread} else {})"
    by (auto intro: thread.exhaust) (metis thread.exhaust)+
  have "card {t. \<exists>a. pos w t = Retiring a} =
      length (in_progress (pos w Receiver_thread) @ in_progress (pos w Collator_thread))"
    unfolding all by (auto simp: in_progress_def split: position.splits)
  with inv show ?thesis by (auto simp: threads_inv_def)
qed

section \<open>Runs of the program\<close>

lemma process_observation_queue:
  "process_observation obs (c\<lparr>observation_list := q\<rparr>) = (process_observation obs c)\<lparr>observation_list := q\<rparr>"
  by (simp add: process_observation_def now_timestamp_eq tick_def Let_def split: option.split)

lemma drain_queue:
  assumes "pos w Collator_thread = Looping" and "collator_finished (shared w) = 0"
    and "ol_observations (observation_list (shared w)) = obss"
  shows "\<exists>w'. steps os rng ntop sqa w (replicate (length obss) Processes) w' \<and> pos w' = pos w \<and>
     archive w' = archive w \<and> retired w' = retired w \<and> w_sender_done w' = w_sender_done w \<and>
     w_index w' = w_index w \<and> undefined_behaviour w' = undefined_behaviour w \<and>
     shared w' = (fold process_observation obss (shared w))\<lparr>observation_list := \<lparr>ol_observations = []\<rparr>\<rparr>"
  using assms
proof (induction obss arbitrary: w)
  case Nil
  then have "observation_list (shared w) = \<lparr>ol_observations = []\<rparr>" by (cases "observation_list (shared w)") simp
  then have "shared w = (shared w)\<lparr>observation_list := \<lparr>ol_observations = []\<rparr>\<rparr>" by (metis client.surjective client.update_convs(8))
  then show ?case by (intro exI [of _ w]) (simp add: steps_Nil)
next
  case (Cons obs obss)
  let ?q = "(observation_list (shared w))\<lparr>ol_observations := obss\<rparr>"
  let ?w1 = "w\<lparr>shared := process_observation obs ((shared w)\<lparr>observation_list := ?q\<rparr>)\<rparr>"
  have 1: "step os rng ntop sqa w Processes ?w1"
    using step.Processes [of w obs ?q os rng ntop sqa] Cons.prems by (simp add: ol_popObservation_def)
  have f: "fold process_observation obss (c\<lparr>observation_list := q\<rparr>) = (fold process_observation obss c)\<lparr>observation_list := q\<rparr>"
    for c :: "'b client" and q
    by (induction obss arbitrary: c) (simp_all add: process_observation_queue)
  have "ol_observations (observation_list (shared ?w1)) = obss" by (simp add: process_observation_queue)
  from Cons.IH [OF _ _ this] Cons.prems obtain w' where w':
    "steps os rng ntop sqa ?w1 (replicate (length obss) Processes) w'" "pos w' = pos w" "archive w' = archive w"
    "retired w' = retired w" "w_sender_done w' = w_sender_done w" "w_index w' = w_index w"
    "undefined_behaviour w' = undefined_behaviour w"
    "shared w' = (fold process_observation obss (shared ?w1))\<lparr>observation_list := \<lparr>ol_observations = []\<rparr>\<rparr>"
    by auto
  with steps_Cons [OF 1 w'(1)] show ?case
    by (intro exI [of _ w']) (simp add: process_observation_queue f)
qed

definition demo_args :: client_args where
  "demo_args = client_args_default\<lparr>ca_num_samples := 1, ca_payload_lens := [42], ca_print_format := ''raw''\<rparr>"

definition demo_client :: "unit client" where
  "demo_client = client_init demo_args [[1]] 0 () \<lparr>readings = (\<lambda>n. \<lparr>tv_sec = 1700000000, tv_nsec = 0\<rparr>), ticks = 0\<rparr>"

definition demo_os :: sender_os where
  "demo_os = \<lparr>os_sendmsg = (\<lambda>k. None), os_strerror = (\<lambda>e. []), os_beyond = (\<lambda>k. 0)\<rparr>"

abbreviation demo_steps :: "(unit, unit) world \<Rightarrow> label list \<Rightarrow> (unit, unit) world \<Rightarrow> bool" where
  "demo_steps \<equiv> steps demo_os sample_rng (\<lambda>v b. None) no_stats"

lemma demo_args_simps [simp]:
  "ca_num_samples demo_args = 1" "ca_runtime demo_args = 0" "ca_print_format demo_args = ''raw''"
  "payload_lens_ok demo_args" "can_print demo_args" "ca_timeout demo_args = 10"
  by (simp_all add: demo_args_def client_args_default_def payload_lens_ok_def can_print_def)

lemma demo_time: "timestamp_to_nsec (timespec_to_timestamp \<lparr>tv_sec = 1700000000, tv_nsec = 0\<rparr>) = 1700000000000000000"
  using clock_nsec_whole [of 1700000000] by simp

text \<open>A client that has done nothing yet, is to send one packet to one host and has a clock that stands still.\<close>

definition demo_ready :: "'st client \<Rightarrow> bool" where
  "demo_ready c \<longleftrightarrow> ca_num_samples (args c) = 1 \<and> ca_runtime (args c) = 0 \<and> payload_lens_ok (args c) \<and>
     can_print (args c) \<and> length (remote_address_info c) = 1 \<and> sent_packets c = 0 \<and> received_packets c = 0 \<and>
     sending_completed c = 0 \<and> collator_finished c = 0 \<and> ol_observations (observation_list c) = [] \<and>
     rl_observations (raw_data_list c) = [] \<and> readings (clock c) = (\<lambda>n. \<lparr>tv_sec = 1700000000, tv_nsec = 0\<rparr>)"

lemma demo_client_ready [simp]: "demo_ready demo_client"
  by (simp add: demo_ready_def demo_client_def client_init_def)

abbreviation demo_start :: "unit client \<Rightarrow> (unit, unit) world" where
  "demo_start c \<equiv> world_init sample_rng sample_sender_env c"

text \<open>The collator starts, and the only packet is sent.\<close>

lemma demo_sent:
  assumes "demo_ready c"
  shows "\<exists>w len. demo_steps (demo_start c) [Collator_starts, Sends] w \<and>
     w_index w = 1 \<and> \<not> w_sender_done w \<and> \<not> undefined_behaviour w \<and> archive w = [] \<and> retired w = [] \<and>
     pos w Receiver_thread = Looping \<and> pos w Collator_thread = Looping \<and> args (shared w) = args c \<and>
     collator_started (shared w) = 1 \<and> collator_finished (shared w) = 0 \<and> sending_completed (shared w) = 0 \<and>
     received_packets (shared w) = 0 \<and> sent_packets (shared w) = 1 \<and>
     entry_list w = [] \<and> readings (clock (shared w)) = (\<lambda>n. \<lparr>tv_sec = 1700000000, tv_nsec = 0\<rparr>) \<and>
     ol_observations (observation_list (shared w)) = [QEDObservation CLIENT_SEND 1700000000000000000 0 len]"
proof -
  let ?w0 = "demo_start c" and ?c = "c\<lparr>collator_started := 1\<rparr>"
  let ?w1 = "move Collator_thread Looping (?w0\<lparr>shared := ?c\<rparr>)"
  have 1: "step demo_os sample_rng (\<lambda>v b. None) no_stats ?w0 Collator_starts ?w1"
    using step.Collator_starts [of ?w0 demo_os sample_rng "\<lambda>v b. None" no_stats] by (simp add: world_init_def)
  have c: "next_reading ?c = \<lparr>tv_sec = 1700000000, tv_nsec = 0\<rparr>"
    using assms by (simp add: demo_ready_def next_reading_def)
  obtain e' len bytes c' where r: "sender_round demo_os sample_rng 0 (w_env ?w0, ?c) = (e', c')" and
    c': "c' = note_sent 0 len (timespec_to_timestamp (next_reading ?c))
        ((tick ?c)\<lparr>sent_packets := sent_packets ?c + int (length (remote_address_info ?c)),
           network := network ?c @ map (\<lambda>rai. (rai, bytes)) (remote_address_info ?c)\<rparr>)"
    using sender_round_ok [of demo_os sample_rng ?c 0 "w_env ?w0"] sample_rng_ok assms
    by (auto simp: demo_os_def demo_ready_def)
  let ?w2 = "?w1\<lparr>shared := c', w_env := e', w_index := w_index ?w1 + 1\<rparr>"
  have 2: "step demo_os sample_rng (\<lambda>v b. None) no_stats ?w1 Sends ?w2"
    by (rule step.Sends [of _ ?c])
      (use r assms in \<open>simp_all add: world_init_def more_to_send_def runtime_over_def demo_ready_def\<close>)
  have k: "keeps ?c c'" using r keeps_sender_round by blast
  have "demo_steps ?w0 [Collator_starts, Sends] ?w2" using 1 2 by (rule steps_2)
  moreover have "ol_observations (observation_list c') = [QEDObservation CLIENT_SEND 1700000000000000000 0 (uint len)]"
    using assms unfolding c' c by (simp add: demo_time demo_ready_def)
  moreover have "collator_started c' = 1" "received_packets c' = 0" "sent_packets c' = 1"
    "readings (clock c') = (\<lambda>n. \<lparr>tv_sec = 1700000000, tv_nsec = 0\<rparr>)"
    using assms unfolding c' by (simp_all add: demo_ready_def note_sent_def enqueue_observation_def tick_def Let_def)
  ultimately show ?thesis
    using k assms by (intro exI [of _ ?w2] exI [of _ "uint len"]) (simp add: world_init_def keeps_def demo_ready_def)
qed

theorem collator_retires_once_witness:
  "\<exists>w. demo_steps (world_init sample_rng sample_sender_env demo_client) [Collator_starts, Sends] w \<and>
     \<not> undefined_behaviour w"
  using demo_sent [OF demo_client_ready] collator_retires_once [of demo_os sample_rng "\<lambda>v b. None" no_stats sample_sender_env demo_client
      "[Collator_starts, Sends]"] by auto

lemma demo_client_fresh:
  "sending_completed demo_client = 0" "collator_finished demo_client = 0" "rl_observations (raw_data_list demo_client) = []"
  by (simp_all add: demo_client_def client_init_def)

theorem thread_invariants_witness:
  "\<exists>w. demo_steps (world_init sample_rng sample_sender_env demo_client) [Collator_starts, Sends] w \<and>
     distinct (ids (shared w))"
  using demo_sent [OF demo_client_ready] thread_invariants [OF _ demo_client_fresh, of demo_os sample_rng "\<lambda>v b. None" no_stats sample_sender_env
      "[Collator_starts, Sends]"] by blast

lemma htonl_0 [simp]: "htonl 0 = 0"
  by (simp add: htonl_def to_le_def upt_conv_Cons numeral_eq_Suc)

lemma zero_reply_time: "timestamp_to_nsec (ntohts timestamp_zero) = 2085978496000000000"
  by (simp add: timestamp_to_nsec_def timestamp_to_timespec_def ntohts_def ntohl_def timestamp_zero_def
      d_of_int_def d_mul_def d_div_def d_trunc_def NTP_EPOCH_OFFSET_def)

lemma from_le_zeros [simp]: "from_le (replicate n 0) = (0 :: 'a::len word)"
  by (induction n) simp_all

lemma zero_reply: "reply_packet (sample_reply 42) = reflector_packet_zero"
proof -
  have "in_payload (sample_reply 42) @ replicate (TST_PKT_SIZE - length (in_payload (sample_reply 42))) 0 = replicate 1472 0"
    by (simp add: sample_reply_def TST_PKT_SIZE_def flip: replicate_add)
  then show ?thesis
    by (simp add: reply_packet_def reflector_packet_of_bytes_def reflector_packet_zero_def timestamp_of_bytes_def
        timestamp_zero_def TST_PKT_SIZE_def REFLECTOR_HEADER_SIZE_def)
qed

lemma complete_after:
  assumes "rl_observations (raw_data_list c) = []"
    and "obss = [QEDObservation CLIENT_SEND t1 i n1, QEDObservation SERVER_SEND t3 i n2,
           QEDObservation SERVER_RECEIVE t2 i n2, QEDObservation CLIENT_RECEIVE t4 i n2]"
    and "t1 \<noteq> 0" "t2 \<noteq> 0" "t3 \<noteq> 0" "t4 \<noteq> 0"
  shows "\<exists>r. rl_observations (raw_data_list (fold process_observation obss c)) = [r] \<and> entry_complete r"
proof -
  have "ids (fold process_observation obss c) = [i]"
    using assms(1) by (simp add: assms(2) process_observation_ids QEDObservation_def) (simp add: ids_def)
  then obtain r where r: "rl_observations (raw_data_list (fold process_observation obss c)) = [r]" "rd_packet_id r = i"
    by (auto simp: ids_def)
  have "joined obss i (Some r)"
    using fold_process_joined [OF assms(1), of obss i] r by (simp add: entries_def)
  then have "entry_complete r"
    using assms(3-6) by (simp add: joined_def entry_complete_def last_time_def assms(2) QEDObservation_def word_neq_0_conv)
  with r(1) show ?thesis by blast
qed

text \<open>What the observations of the collator leave alone.\<close>

lemma fold_process_frame [simp]:
  "collator_finished (fold process_observation obss c) = collator_finished c"
  "sending_completed (fold process_observation obss c) = sending_completed c"
  "sent_packets (fold process_observation obss c) = sent_packets c"
  "received_packets (fold process_observation obss c) = received_packets c"
  "args (fold process_observation obss c) = args c"
  "readings (clock (fold process_observation obss c)) = readings (clock c)"
  by (induction obss arbitrary: c) simp_all

text \<open>The reply arrives and is collated before the sender ends.\<close>

lemma demo_replied:
  assumes "demo_ready c"
  shows "\<exists>w len n. demo_steps (demo_start c) [Collator_starts, Sends, Receives (Recv_msg (sample_reply 42))] w \<and>
     w_index w = 1 \<and> \<not> w_sender_done w \<and> \<not> undefined_behaviour w \<and> archive w = [] \<and>
     pos w Receiver_thread = Looping \<and> pos w Collator_thread = Looping \<and> args (shared w) = args c \<and>
     collator_finished (shared w) = 0 \<and> sending_completed (shared w) = 0 \<and>
     received_packets (shared w) = 1 \<and> sent_packets (shared w) = 1 \<and>
     entry_list w = [] \<and> readings (clock (shared w)) = (\<lambda>n. \<lparr>tv_sec = 1700000000, tv_nsec = 0\<rparr>) \<and>
     ol_observations (observation_list (shared w)) =
       [QEDObservation CLIENT_SEND 1700000000000000000 0 len,
        QEDObservation SERVER_SEND 2085978496000000000 0 n, QEDObservation SERVER_RECEIVE 2085978496000000000 0 n,
        QEDObservation CLIENT_RECEIVE 1700000000000000000 0 n]"
proof -
  let ?d = "sample_reply 42"
  obtain w len where w: "demo_steps (demo_start c) [Collator_starts, Sends] w" "w_index w = 1" "\<not> w_sender_done w"
    "\<not> undefined_behaviour w" "archive w = []" "pos w Receiver_thread = Looping" "pos w Collator_thread = Looping"
    "args (shared w) = args c" "collator_started (shared w) = 1" "collator_finished (shared w) = 0"
    "sending_completed (shared w) = 0" "received_packets (shared w) = 0" "sent_packets (shared w) = 1" "entry_list w = []"
    "readings (clock (shared w)) = (\<lambda>n. \<lparr>tv_sec = 1700000000, tv_nsec = 0\<rparr>)"
    "ol_observations (observation_list (shared w)) = [QEDObservation CLIENT_SEND 1700000000000000000 0 len]"
    using demo_sent [OF assms] by blast
  have a: "arrival ?d (shared w) = 1700000000000000000"
    using w(15) by (simp add: arrival_def sample_reply_def get_kernel_timestamp_def timespec_zero_def next_nsec_def demo_time)
  have l: "length (in_payload ?d) \<le> TST_PKT_SIZE" by (simp add: sample_reply_def TST_PKT_SIZE_def)
  have "can_print (args (shared w))" using assms w(8) by (simp add: demo_ready_def)
  from awaitAndHandleResponse_reply [OF l this, of "\<lambda>v b. None" no_stats] obtain c2 where
    c2: "awaitAndHandleResponse (\<lambda>v b. None) no_stats (Recv_msg ?d) (shared w) = Inr (True, c2)"
    "received_packets c2 = 1" "sent_packets c2 = 1" "readings (clock c2) = readings (clock (shared w))"
    "ol_observations (observation_list c2) = ol_observations (observation_list (shared w)) @
       reply_observations reflector_packet_zero (int (length (in_payload ?d))) 1700000000000000000"
    using w(9,12,13) by (auto simp: a zero_reply)
  have k: "keeps (shared w) c2" using c2(1) keeps_await by blast
  have "receiver_goes_on (shared w) = (True, shared w)" using w(11) by (simp add: receiver_goes_on_def)
  from steps_snoc [OF w(1) step.Receives [OF w(6) this c2(1)]]
  have "demo_steps (demo_start c) [Collator_starts, Sends, Receives (Recv_msg ?d)] (w\<lparr>shared := c2\<rparr>)" by simp
  then show ?thesis
    using w c2 k
    by (intro exI [of _ "w\<lparr>shared := c2\<rparr>"] exI [of _ len] exI [of _ "int (length (in_payload ?d))"])
      (simp add: keeps_def reply_observations_def reflector_packet_zero_def zero_reply_time ntohl_def Let_def)
qed

lemma demo_collated:
  assumes "demo_ready c"
  shows "\<exists>w r. demo_steps (demo_start c)
       ([Collator_starts, Sends, Receives (Recv_msg (sample_reply 42))] @ replicate 4 Processes) w \<and>
     w_index w = 1 \<and> \<not> w_sender_done w \<and> \<not> undefined_behaviour w \<and> archive w = [] \<and>
     pos w Receiver_thread = Looping \<and> pos w Collator_thread = Looping \<and> args (shared w) = args c \<and>
     collator_finished (shared w) = 0 \<and> sending_completed (shared w) = 0 \<and>
     received_packets (shared w) = 1 \<and> sent_packets (shared w) = 1 \<and>
     readings (clock (shared w)) = (\<lambda>n. \<lparr>tv_sec = 1700000000, tv_nsec = 0\<rparr>) \<and>
     observation_list (shared w) = \<lparr>ol_observations = []\<rparr> \<and> entry_list w = [r] \<and> entry_complete r"
proof -
  obtain w len n where w: "demo_steps (demo_start c) [Collator_starts, Sends, Receives (Recv_msg (sample_reply 42))] w"
    "w_index w = 1" "\<not> w_sender_done w" "\<not> undefined_behaviour w" "archive w = []"
    "pos w Receiver_thread = Looping" "pos w Collator_thread = Looping" "args (shared w) = args c"
    "collator_finished (shared w) = 0" "sending_completed (shared w) = 0"
    "received_packets (shared w) = 1" "sent_packets (shared w) = 1" "entry_list w = []"
    "readings (clock (shared w)) = (\<lambda>n. \<lparr>tv_sec = 1700000000, tv_nsec = 0\<rparr>)"
    "ol_observations (observation_list (shared w)) =
       [QEDObservation CLIENT_SEND 1700000000000000000 0 len,
        QEDObservation SERVER_SEND 2085978496000000000 0 n, QEDObservation SERVER_RECEIVE 2085978496000000000 0 n,
        QEDObservation CLIENT_RECEIVE 1700000000000000000 0 n]"
    using demo_replied [OF assms] by blast
  obtain obss where obss: "ol_observations (observation_list (shared w)) = obss" by blast
  then have four: "length obss = 4" using w(15) by auto
  from complete_after [OF w(13) w(15) [unfolded obss]]
  obtain r where r: "rl_observations (raw_data_list (fold process_observation obss (shared w))) = [r]" "entry_complete r"
    by auto
  obtain w3 where w3: "demo_steps w (replicate 4 Processes) w3" "pos w3 = pos w" "archive w3 = archive w"
    "w_sender_done w3 = w_sender_done w" "w_index w3 = w_index w" "undefined_behaviour w3 = undefined_behaviour w"
    "shared w3 = (fold process_observation obss (shared w))\<lparr>observation_list := \<lparr>ol_observations = []\<rparr>\<rparr>"
    using drain_queue [OF w(7,9) obss, of demo_os sample_rng "\<lambda>v b. None" no_stats] four by auto
  from steps_trans [OF w3(1) w(1)] show ?thesis
    using w w3 r by (intro exI conjI) (assumption, simp_all)
qed

text \<open>Then a receive times out.\<close>

lemma demo_both_checking:
  "\<exists>ls w r. demo_steps (demo_start demo_client) ls w \<and>
     pos w Receiver_thread = Checking \<and> pos w Collator_thread = Checking \<and> entry_list w = [r] \<and> entry_complete r"
proof -
  obtain ls w r where w: "demo_steps (demo_start demo_client) ls w"
    "pos w Receiver_thread = Looping" "pos w Collator_thread = Looping" "collator_finished (shared w) = 0"
    "sending_completed (shared w) = 0" "observation_list (shared w) = \<lparr>ol_observations = []\<rparr>"
    "entry_list w = [r]" "entry_complete r"
    using demo_collated [OF demo_client_ready] by blast
  let ?w4 = "move Receiver_thread Checking (w\<lparr>shared := shared w\<rparr>)"
  have 4: "step demo_os sample_rng (\<lambda>v b. None) no_stats w (Times_out (Recv_error 11)) ?w4"
    using w(2,5) by (intro step.Times_out [of _ "shared w"]) (simp_all add: receiver_goes_on_def awaitAndHandleResponse_none)
  have "step demo_os sample_rng (\<lambda>v b. None) no_stats ?w4 Collator_checks (move Collator_thread Checking ?w4)"
    using w(3,4,6) by (intro step.Collator_checks) (simp_all add: ol_isEmpty_def)
  from steps_snoc [OF steps_snoc [OF w(1) 4] this] w(7,8) show ?thesis
    by (intro exI conjI) (assumption, simp_all)
qed

theorem two_threads_retire_same_entry_witness:
  "\<exists>ls w'. demo_steps (world_init sample_rng sample_sender_env demo_client) ls w' \<and> undefined_behaviour w'"
proof -
  obtain ls w r where w: "demo_steps (world_init sample_rng sample_sender_env demo_client) ls w"
    "pos w Receiver_thread = Checking" "pos w Collator_thread = Checking" "entry_list w = [r]" "entry_complete r"
    using demo_both_checking by blast
  obtain ls' w' where "demo_steps w ls' w'" "undefined_behaviour w'"
    using two_threads_retire_same_entry [OF w(2-5), of demo_os sample_rng "\<lambda>v b. None" no_stats] by auto
  then show ?thesis using steps_trans w(1) by blast
qed

text \<open>
  C40: A receive that times out after the end of sending, while the observations of the last packets are
  still queued and the list is empty, makes the receiver tell the collator to finish: the collator then
  stops and leaves the queued observations unprocessed, so that these packets are neither measured nor
  counted as lost.
\<close>

theorem collator_stops_early:
  assumes "pos w Receiver_thread = Looping" and "pos w Collator_thread = Looping"
    and "receiver_goes_on (shared w) = (True, c)" and "sending_completed (shared w) > 0" and "entry_list w = []"
  shows "\<exists>w'. steps os rng ntop sqa w
       [Times_out (Recv_error 11), Picks Receiver_thread, Finishes Receiver_thread, Collator_ends] w'
     \<and> pos w' Collator_thread = Stopped
     \<and> ol_observations (observation_list (shared w')) = ol_observations (observation_list (shared w))
     \<and> entry_list w' = [] \<and> retired w' = retired w"
proof -
  have k: "keeps (shared w) c" "observation_list c = observation_list (shared w)"
    using keeps_goes_on [OF assms(3)] assms(3) by (auto simp: receiver_goes_on_def now_seconds_eq split: if_splits)
  let ?R = Receiver_thread
  let ?w1 = "move ?R Checking (w\<lparr>shared := c\<rparr>)"
  have 1: "step os rng ntop sqa w (Times_out (Recv_error 11)) ?w1"
    by (rule step.Times_out [OF assms(1,3)]) (rule awaitAndHandleResponse_none)
  let ?w2 = "move ?R (Holding None (next_nsec c)) (?w1\<lparr>shared := tick c\<rparr>)"
  have 2: "step os rng ntop sqa ?w1 (Picks ?R) ?w2"
    using step.Picks [of ?w1 ?R, OF _ now_timestamp_eq, of os rng ntop sqa] assms(5) k
    by (simp add: oldest_address_def rl_getOldestEntry_def next_nsec_def keeps_def)
  let ?w3 = "move ?R Looping (?w2\<lparr>shared := (tick c)\<lparr>collator_finished := 1\<rparr>\<rparr>)"
  have 3: "step os rng ntop sqa ?w2 (Finishes ?R) ?w3"
    using step.Finishes [of ?w2 ?R "next_nsec c" os rng ntop sqa] assms(4) k by (simp add: keeps_def)
  have 4: "step os rng ntop sqa ?w3 Collator_ends (move Collator_thread Stopped ?w3)"
    using step.Collator_ends [of ?w3 os rng ntop sqa] assms(2) by simp
  have "steps os rng ntop sqa w [Times_out (Recv_error 11), Picks ?R, Finishes ?R, Collator_ends] (move Collator_thread Stopped ?w3)"
    using 1 2 3 4 by (rule steps_4)
  then show ?thesis using k assms(5) by (intro exI conjI) (assumption, simp_all add: keeps_def)
qed

theorem collator_stops_early_witness:
  "\<exists>ls w'. demo_steps (world_init sample_rng sample_sender_env demo_client) ls w' \<and>
     pos w' Collator_thread = Stopped \<and> ol_observations (observation_list (shared w')) \<noteq> []"
proof -
  obtain w len where w: "demo_steps (world_init sample_rng sample_sender_env demo_client) [Collator_starts, Sends] w"
    "pos w Receiver_thread = Looping" "pos w Collator_thread = Looping" "args (shared w) = demo_args" "w_index w = 1"
    "\<not> w_sender_done w" "entry_list w = []" "received_packets (shared w) = 0" "sent_packets (shared w) = 1"
    "readings (clock (shared w)) = (\<lambda>n. \<lparr>tv_sec = 1700000000, tv_nsec = 0\<rparr>)"
    "ol_observations (observation_list (shared w)) = [QEDObservation CLIENT_SEND 1700000000000000000 0 len]"
    using demo_sent [OF demo_client_ready] by (auto simp: demo_client_def client_init_def)
  let ?c2 = "(tick (shared w))\<lparr>sending_completed := 1700000000\<rparr>"
  let ?w2 = "w\<lparr>shared := ?c2, w_sender_done := True\<rparr>"
  have 2: "step demo_os sample_rng (\<lambda>v b. None) no_stats w Sender_ends ?w2"
    by (rule step.Sender_ends [of _ "shared w"]) (use w in \<open>simp_all add: more_to_send_def now_seconds_eq\<close>)
  have on: "receiver_goes_on (shared ?w2) = (True, tick ?c2)"
    using w by (simp add: receiver_goes_on_def now_seconds_eq) (simp add: tick_def)
  obtain w' where w': "demo_steps ?w2 [Times_out (Recv_error 11), Picks Receiver_thread, Finishes Receiver_thread, Collator_ends] w'"
    "pos w' Collator_thread = Stopped"
    "ol_observations (observation_list (shared w')) = ol_observations (observation_list (shared ?w2))"
    using collator_stops_early [OF _ _ on, of demo_os sample_rng "\<lambda>v b. None" no_stats] w by auto
  from steps_trans [OF w'(1) steps_snoc [OF w(1) 2]] w'(2,3) w(11) show ?thesis
    by (intro exI conjI) (assumption, simp_all)
qed

end
