(* ===== verification/Setup.thy ===== *)
theory Setup
  imports Server Client_State Client_Output
begin

text \<open>
  From the command line to the running objects: \<^verbatim>\<open>parse_args\<close> and \<^verbatim>\<open>main\<close> of \<^verbatim>\<open>src/client/main_client.cpp\<close>
  and \<^verbatim>\<open>src/server/main_server.cpp\<close>, the constructor \<^verbatim>\<open>Client::Client\<close>, and \<^verbatim>\<open>vectorToString\<close> of
  \<^verbatim>\<open>include/utils.hpp\<close>. The CLI11 library is a parameter: its outcome is either the exit code of a parse
  error with what it prints, such as the help, or the value of each option that was given. The options are bound to the members of the
  arguments in the order of the declarations, so that the addresses are checked when the IP version is known.
\<close>

section \<open>Options\<close>

text \<open>The \<^verbatim>\<open>ostream_iterator\<close> writes the separator after each element; the last character is cut.\<close>

definition vectorToString :: "string list \<Rightarrow> string \<Rightarrow> string" where
  "vectorToString vec sep =
     (let result = concat (map (\<lambda>x. x @ sep) vec) in take (length result - 1) result)"

text \<open>The traffic class with both ECN bits set is decremented: at most one of the two stays set.\<close>

definition adjust_tos :: "u8 \<Rightarrow> u8" where
  "adjust_tos t = t - (drop_bit 1 (t AND 2) AND (t AND 1))"

definition MIN_PAYLOAD_LEN :: int where "MIN_PAYLOAD_LEN = 42"
definition MAX_PAYLOAD_LEN :: int where "MAX_PAYLOAD_LEN = 1473"

text \<open>The check of a payload length (\<^verbatim>\<open>CLI::Range\<close> includes its bounds).\<close>

definition payload_len_check :: "int \<Rightarrow> bool" where
  "payload_len_check n \<longleftrightarrow> MIN_PAYLOAD_LEN \<le> n \<and> n \<le> MAX_PAYLOAD_LEN"

text \<open>The check of an address: the error text, empty on success, and the arguments it extends.\<close>

definition check_address :: "string \<Rightarrow> client_args \<Rightarrow> string \<times> client_args" where
  "check_address str a =
     (let (ok, ip, port) =
            (if ca_ip_version a = 6 then parseIPv6Port str [] 0
             else if ca_ip_version a = 4 then parseIPPort str [] 0
             else (True, [], 0))
      in if \<not> ok then (''Address must be in the format IP:Port'', a)
         else ([], a\<lparr>ca_remote_hosts := ca_remote_hosts a @ [ip], ca_remote_ports := ca_remote_ports a @ [port]\<rparr>))"

fun check_addresses :: "string list \<Rightarrow> client_args \<Rightarrow> string + client_args" where
  "check_addresses [] a = Inr a"
| "check_addresses (str # strs) a =
     (case check_address str a of
        (err, a') \<Rightarrow> if err \<noteq> [] then Inl err else check_addresses strs a')"

text \<open>
  The values that the command line gives to the options of the client, in the order of their
  declarations: \<^const>\<open>None\<close> for an option that is not given, \<^const>\<open>False\<close> for a flag that is not given.
\<close>

record client_options =
  co_local_address :: "string option"
  co_local_port :: "string option"
  co_payload_lens :: "int list option"
  co_num_samples :: "u32 option"
  co_timeout :: "u8 option"
  co_seed :: "u32 option"
  co_print_digest :: bool
  co_json_output :: "string option"
  co_print_lost_packets :: bool
  co_print_RTT_only :: "bool option"
  co_print_format :: "string option"
  co_sep :: "char option"
  co_ip :: "u8 option"
  co_runtime :: "u32 option"
  co_mean_inter_packet_delay :: "u32 option"
  co_constant_inter_packet_delay :: bool
  co_tos :: "u8 option"
  co_version :: bool
  co_addresses :: "string list"

text \<open>An option that is given overwrites the member it is bound to.\<close>

definition given :: "'a \<Rightarrow> 'a option \<Rightarrow> 'a" where
  "given def v = (case v of None \<Rightarrow> def | Some x \<Rightarrow> x)"

lemma given_simps [simp]: "given def None = def" "given def (Some x) = x"
  by (simp_all add: given_def)

definition bind_client_options :: "client_options \<Rightarrow> client_args" where
  "bind_client_options p =
     (let a = client_args_default
      in a\<lparr>ca_local_host := given (ca_local_host a) (co_local_address p),
           ca_local_port := given (ca_local_port a) (co_local_port p),
           ca_payload_lens := given (ca_payload_lens a) (co_payload_lens p),
           ca_num_samples := given (ca_num_samples a) (co_num_samples p),
           ca_timeout := given (ca_timeout a) (co_timeout p),
           ca_seed := given (ca_seed a) (co_seed p),
           ca_print_digest := co_print_digest p,
           ca_json_output_file := given (ca_json_output_file a) (co_json_output p),
           ca_print_lost_packets := co_print_lost_packets p,
           ca_print_RTT_only := given (ca_print_RTT_only a) (co_print_RTT_only p),
           ca_print_format := given (ca_print_format a) (co_print_format p),
           ca_sep := given (ca_sep a) (co_sep p),
           ca_ip_version := given (ca_ip_version a) (co_ip p),
           ca_runtime := given (ca_runtime a) (co_runtime p),
           ca_mean_inter_packet_delay_ms := given (ca_mean_inter_packet_delay_ms a) (co_mean_inter_packet_delay p),
           ca_constant_inter_packet_delay := co_constant_inter_packet_delay p\<rparr>)"

record build_info =
  TWAMP_VERSION_TXT :: string
  TWAMP_GIT_COMMIT_ID :: string
  TWAMP_GIT_DESCRIBE :: string
  QOO_GIT_DESCRIBE :: string
  TDIGEST_GIT_DESCRIBE :: string

definition version_text :: "build_info \<Rightarrow> string" where
  "version_text b =
     ''Twamp Light Version '' @ TWAMP_VERSION_TXT b @ [CHR 0x0A] @ ''Commit ID '' @ TWAMP_GIT_COMMIT_ID b @
     '', git describe: '' @ TWAMP_GIT_DESCRIBE b @ '',  submodules: qoo-c ('' @ QOO_GIT_DESCRIBE b @ '') '' @
     ''t-digest-c ('' @ TDIGEST_GIT_DESCRIBE b @ '')'' @ [CHR 0x0A]"

text \<open>
  The client's \<^verbatim>\<open>parse_args\<close>: an exit code with what was printed, or the arguments. \<^verbatim>\<open>check_exit\<close> gives
  the code and the output with which CLI11 ends on a failed check.
\<close>

definition client_parse_args ::
  "build_info \<Rightarrow> (string \<Rightarrow> int \<times> string) \<Rightarrow> (int \<times> string) + client_options \<Rightarrow> (int \<times> string) + client_args" where
  "client_parse_args b check_exit cli =
     (case cli of
        Inl exit \<Rightarrow> Inl exit
      | Inr p \<Rightarrow>
          if \<not> list_all payload_len_check (ca_payload_lens (bind_client_options p)) then Inl (check_exit ''payload_lens'')
          else (case check_addresses (co_addresses p) (bind_client_options p) of
                  Inl err \<Rightarrow> Inl (check_exit err)
                | Inr a \<Rightarrow>
                    if co_version p then Inl (0, version_text b)
                    else if co_addresses p = [] then Inl (0, ''Address must be in the format IP:Port'' @ [CHR 0x0A])
                    else Inr (case co_tos p of None \<Rightarrow> a | Some t \<Rightarrow> a\<lparr>ca_snd_tos := adjust_tos t\<rparr>)))"

text \<open>The start of the client's \<^verbatim>\<open>main\<close>: a runtime overrides the number of samples.\<close>

definition override_samples :: "client_args \<Rightarrow> string \<times> client_args" where
  "override_samples a =
     (if ca_runtime a > 0 \<and> ca_num_samples a > 0
      then (''Both --runtime and --num_samples options are set. Ignoring --num_samples and using --runtime instead.'' @ [CHR 0x0A],
            a\<lparr>ca_num_samples := 0\<rparr>)
      else ([], a))"

text \<open>Which of the optional parts of \<^verbatim>\<open>main\<close> run.\<close>

definition runs_collator :: "client_args \<Rightarrow> bool" where
  "runs_collator a \<longleftrightarrow> ca_print_format a \<noteq> ''legacy'' \<or> ca_print_lost_packets a"

definition prints_stats :: "client_args \<Rightarrow> bool" where
  "prints_stats a \<longleftrightarrow> ca_print_digest a \<and> ca_print_format a \<noteq> ''legacy''"

definition writes_json :: "client_args \<Rightarrow> bool" where
  "writes_json a \<longleftrightarrow> ca_json_output_file a \<noteq> [] \<and> ca_print_format a \<noteq> ''legacy''"

record server_options =
  vo_local_address :: "string option"
  vo_local_port :: "string option"
  vo_num_samples :: "u32 option"
  vo_timeout :: "u8 option"
  vo_sep :: "char option"
  vo_ip :: "u8 option"
  vo_tos :: "u8 option"

definition bind_server_options :: "server_options \<Rightarrow> server_args" where
  "bind_server_options p =
     (let a = server_args_default
      in a\<lparr>sa_local_host := given (sa_local_host a) (vo_local_address p),
           sa_local_port := given (sa_local_port a) (vo_local_port p),
           sa_num_samples := given (sa_num_samples a) (vo_num_samples p),
           sa_timeout := given (sa_timeout a) (vo_timeout p),
           sa_sep := given (sa_sep a) (vo_sep p),
           sa_ip_version := given (sa_ip_version a) (vo_ip p)\<rparr>)"

definition server_parse_args :: "int + server_options \<Rightarrow> int + server_args" where
  "server_parse_args cli =
     (case cli of
        Inl code \<Rightarrow> Inl code
      | Inr p \<Rightarrow>
          let a = bind_server_options p
          in Inr (case vo_tos p of None \<Rightarrow> a | Some t \<Rightarrow> a\<lparr>sa_snd_tos := adjust_tos t\<rparr>))"

text \<open>
  The server's \<^verbatim>\<open>main\<close>: the exit code, or \<^const>\<open>None\<close> while it waits for a datagram. An exception of
  \<^verbatim>\<open>listen\<close> is caught and reported.
\<close>

fun server_exit :: "listen_result \<Rightarrow> int option" where
  "server_exit (Returned n) = Some n"
| "server_exit Blocked = None"
| "server_exit (Threw e) = Some 1"

definition server_main ::
  "server_env \<Rightarrow> int + server_options \<Rightarrow> sys_clock \<Rightarrow> socket \<Rightarrow> server_event list \<Rightarrow>
   int option \<times> server option" where
  "server_main env cli clk fresh evs =
     (case server_parse_args cli of
        Inl code \<Rightarrow> (Some code, None)
      | Inr a \<Rightarrow>
          (case Server env a clk fresh of
             Inl msg \<Rightarrow> (Some 1, None)
           | Inr (s, fd) \<Rightarrow> (case listen env evs s of (r, s') \<Rightarrow> (server_exit r, Some s'))))"

section \<open>Construction of the client\<close>

text \<open>The result of \<^verbatim>\<open>getaddrinfo\<close>: the first element of the list it allocates.\<close>

record addrinfo =
  ai_family :: int
  ai_socktype :: int
  ai_protocol :: int
  ai_addr :: "u8 list"

text \<open>
  The operating system and the statistics library, as the constructor sees them: \<^verbatim>\<open>ce_create k\<close> is the
  result of the \<open>k\<close>-th \<^verbatim>\<open>sqa_stats_create\<close>, \<^verbatim>\<open>ce_getsockname\<close> the address the socket is bound to.
\<close>

record 'st client_env =
  ce_getaddrinfo :: "string option \<Rightarrow> string \<Rightarrow> int \<Rightarrow> int + addrinfo"
  ce_socket :: "int \<Rightarrow> int \<Rightarrow> int \<Rightarrow> int option"
  ce_setsockopt :: "sockopt \<Rightarrow> bool"
  ce_bind :: "u8 list \<Rightarrow> int option"
  ce_getsockname :: "u8 list option"
  ce_strerror :: "int \<Rightarrow> string"
  ce_create :: "nat \<Rightarrow> 'st option"

text \<open>A failure ends the process with a message or throws; the access to an element that is missing is undefined.\<close>

datatype construct_error = Exits string | Throws cxx_exn | Undefined_behaviour

fun resolve_hosts ::
  "'st client_env \<Rightarrow> int \<Rightarrow> string list \<Rightarrow> u16 list \<Rightarrow> construct_error + addrinfo list" where
  "resolve_hosts env family [] ports = Inr []"
| "resolve_hosts env family (host # hosts) [] = Inl (Exits ''Not enough remote ports provided'')"
| "resolve_hosts env family (host # hosts) (port # ports) =
     (case ce_getaddrinfo env (Some host) (dec (unat port)) family of
        Inl err \<Rightarrow> Inl (Exits (''failed to resolve remote socket address: '' @ dec_int err))
      | Inr addr \<Rightarrow>
          (case resolve_hosts env family hosts ports of
             Inl e \<Rightarrow> Inl e
           | Inr addrs \<Rightarrow> Inr (addr # addrs)))"

fun create_stats :: "'st client_env \<Rightarrow> nat \<Rightarrow> string list \<Rightarrow> construct_error + 'st list" where
  "create_stats env k [] = Inr []"
| "create_stats env k (name # names) =
     (case ce_create env k of
        None \<Rightarrow> Inl (Throws (Runtime_error (''Failed to allocate memory for '' @ name)))
      | Some st \<Rightarrow>
          (case create_stats env (Suc k) names of
             Inl e \<Rightarrow> Inl e
           | Inr sts \<Rightarrow> Inr (st # sts)))"

text \<open>The port of a bound address, at offset 2 in both address families.\<close>

definition bound_port :: "u8 list \<Rightarrow> u16" where
  "bound_port addr = ntohs (from_le (take 2 (drop 2 addr)))"

definition client_family :: "client_args \<Rightarrow> int" where
  "client_family a = (if ca_ip_version a = 4 then AF_INET else AF_INET6)"

text \<open>
  The constructor after the choice of the address family. The socket takes the family, type and protocol of
  the first remote address; without hosts there is none, and reading it is undefined.
\<close>

definition open_client ::
  "'st client_env \<Rightarrow> client_args \<Rightarrow> int \<Rightarrow> u64 \<Rightarrow> sys_clock \<Rightarrow> socket \<Rightarrow> construct_error + 'st client \<times> socket" where
  "open_client env a family start clk fresh =
     (case resolve_hosts env family (ca_remote_hosts a) (ca_remote_ports a) of
        Inl e \<Rightarrow> Inl e
      | Inr addrs \<Rightarrow>
          (case ce_getaddrinfo env (if ca_local_host a = [] then None else Some (ca_local_host a)) (ca_local_port a) family of
             Inl err \<Rightarrow> Inl (Exits (''failed to resolve local socket address: '' @ dec_int err))
           | Inr local \<Rightarrow>
               if addrs = [] then Inl Undefined_behaviour
               else (case ce_socket env (ai_family (hd addrs)) (ai_socktype (hd addrs)) (ai_protocol (hd addrs)) of
                  Some e \<Rightarrow> Inl (Throws (Runtime_error (''Failed to create socket: '' @ ce_strerror env e)))
                | None \<Rightarrow>
                    let (fd1, err1) = set_socket_options (ce_setsockopt env) HDR_TTL (ca_timeout a) fresh;
                        (fd2, err2) = set_socket_tos (ce_setsockopt env) (ca_snd_tos a) fd1
                    in case ce_bind env (ai_addr local) of
                         Some e \<Rightarrow> Inl (Throws (Runtime_error (''Failed to bind socket: '' @ ce_strerror env e)))
                       | None \<Rightarrow>
                           let a' = (case ce_getsockname env of
                                       None \<Rightarrow> a
                                     | Some addr \<Rightarrow> a\<lparr>ca_local_port := dec (unat (bound_port addr))\<rparr>)
                           in case create_stats env 0 [''stats_RTT'', ''stats_internal'', ''stats_client_server'', ''stats_server_client''] of
                                Inr [rtt, internal, client_server, server_client] \<Rightarrow>
                                  Inr ((client_init a' (map ai_addr addrs) start rtt clk)\<lparr>stats_internal := internal,
                                         stats_client_server := client_server, stats_server_client := server_client,
                                         stderr := err1 @ err2\<rparr>, fd2)
                              | Inl e \<Rightarrow> Inl e)))"

definition construct_client ::
  "'st client_env \<Rightarrow> client_args \<Rightarrow> sys_clock \<Rightarrow> socket \<Rightarrow> construct_error + 'st client \<times> socket" where
  "construct_client env a clk fresh =
     (case time_null clk of (start, clk') \<Rightarrow>
        if ca_ip_version a \<noteq> 4 \<and> ca_ip_version a \<noteq> 6 then Inl (Exits ''Invalid IP version.'')
        else open_client env a (client_family a) start clk' fresh)"

section \<open>Lists as text\<close>

text \<open>With a separator of one character, the text is the elements with the separator between them.\<close>

lemma vectorToString_sep: "vectorToString vec [sep] = sep_join sep vec"
proof (induction vec rule: induct_list012)
  case (3 x y zs)
  have ne: "concat (map (\<lambda>x. x @ [sep]) (y # zs)) \<noteq> []" by simp
  have t: "take (length (u @ v) - 1) (u @ v) = u @ take (length v - 1) v" if "v \<noteq> []" for u v :: string
    using that by (cases v) simp_all
  show ?case
    using 3(2) t [OF ne, of "x @ [sep]"] by (simp add: vectorToString_def Let_def)
qed (simp_all add: vectorToString_def)

section \<open>The traffic class\<close>

lemma u8_3: "(3 :: u8) = mask 2"
  by (simp add: mask_eq_exp_minus_1)

lemma unat_and_3: "unat (t AND 3 :: u8) = unat t mod 4"
proof -
  have "t AND 3 = take_bit 2 t" unfolding u8_3 by (rule take_bit_eq_mask [symmetric])
  then show ?thesis by (simp add: take_bit_eq_mod unat_mod)
qed

lemma ecn_bits: "drop_bit 1 (t AND 2) AND (t AND 1) = (if t AND 3 = 3 then 1 else (0 :: u8))"
proof -
  have b: "t AND 3 = 3 \<longleftrightarrow> bit t 0 \<and> bit t 1"
  proof
    assume "t AND 3 = 3"
    then have "bit (t AND mask 2) 0" "bit (t AND mask 2) 1" by (simp_all add: u8_3 bit_mask_iff)
    then show "bit t 0 \<and> bit t 1" by (simp add: bit_simps)
  next
    assume h: "bit t 0 \<and> bit t 1"
    show "t AND 3 = 3"
      unfolding u8_3
    proof (rule bit_word_eqI)
      fix m assume "m < LENGTH(8)"
      show "bit (t AND mask 2) m \<longleftrightarrow> bit (mask 2 :: u8) m"
        using h by (auto simp: bit_and_iff bit_mask_iff less_2_cases_iff)
    qed
  qed
  show ?thesis
  proof (rule bit_word_eqI)
    fix n assume "n < LENGTH(8)"
    show "bit (drop_bit 1 (t AND 2) AND (t AND 1)) n \<longleftrightarrow> bit (if t AND 3 = 3 then 1 else (0 :: u8)) n"
      unfolding b by (cases n) (auto simp: bit_simps bit_numeral_rec)
  qed
qed

text \<open>
  The traffic class the options set is the given one, except that a value with both ECN bits set
  (congestion experienced) loses the lower one: the upper six bits always stay, and the result never has
  both ECN bits set.
\<close>

theorem adjust_tos_ecn:
  "unat (adjust_tos t) = (if unat t mod 4 = 3 then unat t - 1 else unat t)
   \<and> unat (adjust_tos t) div 4 = unat t div 4 \<and> unat (adjust_tos t) mod 4 \<noteq> 3"
proof -
  have e: "t AND 3 = 3 \<longleftrightarrow> unat t mod 4 = 3"
    by (simp add: word_unat_eq_iff unat_and_3)
  have u: "unat (adjust_tos t) = (if unat t mod 4 = 3 then unat t - 1 else unat t)"
  proof (cases "unat t mod 4 = 3")
    case True
    then have "1 \<le> t" by (auto simp: word_le_nat_alt intro: Suc_leI gr0I)
    with True e show ?thesis unfolding adjust_tos_def ecn_bits by (simp add: unat_sub)
  next
    case False
    with e show ?thesis unfolding adjust_tos_def ecn_bits by simp
  qed
  have "(n - 1) div 4 = n div 4 \<and> (n - 1) mod 4 \<noteq> 3" if "n mod 4 = 3" for n :: nat
  proof -
    define k where "k = n div 4"
    have "n = 4 * k + 3" using that mult_div_mod_eq [of 4 n] by (simp add: k_def)
    then have "n - 1 = 2 + 4 * k" "n div 4 = k" by simp_all
    then show ?thesis by (simp only: div_mult_self2 mod_mult_self2) simp
  qed
  with u show ?thesis by simp
qed

lemma adjust_tos_word:
  "adjust_tos t = (if t AND 3 = 3 then t - 1 else t)" "adjust_tos t AND 3 \<noteq> 3"
proof -
  show "adjust_tos t = (if t AND 3 = 3 then t - 1 else t)" unfolding adjust_tos_def ecn_bits by simp
  have "unat (adjust_tos t AND 3) \<noteq> 3" unfolding unat_and_3 using adjust_tos_ecn [of t] by blast
  then show "adjust_tos t AND 3 \<noteq> 3" by auto
qed

section \<open>Arguments\<close>

lemma check_address_ok:
  assumes "check_address str a = ([], a')"
  shows "\<exists>ip port. a' = a\<lparr>ca_remote_hosts := ca_remote_hosts a @ [ip], ca_remote_ports := ca_remote_ports a @ [port]\<rparr> \<and>
     (ca_ip_version a = 4 \<longrightarrow> parseIPPort str [] 0 = (True, ip, port)) \<and>
     (ca_ip_version a = 6 \<longrightarrow> parseIPv6Port str [] 0 = (True, ip, port))"
  using assms by (auto simp: check_address_def Let_def split: if_splits prod.splits)

lemma check_addresses_ok:
  assumes "check_addresses strs a = Inr a'"
  shows "\<exists>hs ps. a' = a\<lparr>ca_remote_hosts := ca_remote_hosts a @ hs, ca_remote_ports := ca_remote_ports a @ ps\<rparr> \<and>
     length hs = length strs \<and> length ps = length strs \<and>
     (ca_ip_version a = 4 \<longrightarrow> (\<forall>i < length strs. parseIPPort (strs ! i) [] 0 = (True, hs ! i, ps ! i))) \<and>
     (ca_ip_version a = 6 \<longrightarrow> (\<forall>i < length strs. parseIPv6Port (strs ! i) [] 0 = (True, hs ! i, ps ! i)))"
  using assms
proof (induction strs arbitrary: a)
  case Nil
  then show ?case by (intro exI [of _ "[]"]) simp
next
  case (Cons str strs)
  obtain a1 where a1: "check_address str a = ([], a1)" "check_addresses strs a1 = Inr a'"
    using Cons.prems by (auto split: prod.splits if_splits)
  from check_address_ok [OF a1(1)] obtain ip port where p:
    "a1 = a\<lparr>ca_remote_hosts := ca_remote_hosts a @ [ip], ca_remote_ports := ca_remote_ports a @ [port]\<rparr>"
    "ca_ip_version a = 4 \<longrightarrow> parseIPPort str [] 0 = (True, ip, port)"
    "ca_ip_version a = 6 \<longrightarrow> parseIPv6Port str [] 0 = (True, ip, port)" by blast
  from Cons.IH [OF a1(2)] obtain hs ps where q:
    "a' = a1\<lparr>ca_remote_hosts := ca_remote_hosts a1 @ hs, ca_remote_ports := ca_remote_ports a1 @ ps\<rparr>"
    "length hs = length strs" "length ps = length strs"
    "ca_ip_version a1 = 4 \<longrightarrow> (\<forall>i < length strs. parseIPPort (strs ! i) [] 0 = (True, hs ! i, ps ! i))"
    "ca_ip_version a1 = 6 \<longrightarrow> (\<forall>i < length strs. parseIPv6Port (strs ! i) [] 0 = (True, hs ! i, ps ! i))" by blast
  show ?case
    using p q by (intro exI [of _ "ip # hs"] exI [of _ "port # ps"]) (auto simp: nth_Cons split: nat.split)
qed

text \<open>What an accepted command line makes of the bound options.\<close>

lemma client_parse_args_Inr:
  assumes "client_parse_args b ec (Inr p) = Inr a"
  shows "\<exists>hs ps. a = (bind_client_options p)\<lparr>ca_remote_hosts := hs, ca_remote_ports := ps,
      ca_snd_tos := (case co_tos p of None \<Rightarrow> 0 | Some t \<Rightarrow> adjust_tos t)\<rparr> \<and>
    co_addresses p \<noteq> [] \<and> length hs = length (co_addresses p) \<and> length ps = length (co_addresses p) \<and>
    (ca_ip_version (bind_client_options p) = 4 \<longrightarrow>
       (\<forall>i < length (co_addresses p). parseIPPort (co_addresses p ! i) [] 0 = (True, hs ! i, ps ! i))) \<and>
    (ca_ip_version (bind_client_options p) = 6 \<longrightarrow>
       (\<forall>i < length (co_addresses p). parseIPv6Port (co_addresses p ! i) [] 0 = (True, hs ! i, ps ! i))) \<and>
    (\<forall>n \<in> set (ca_payload_lens (bind_client_options p)). 42 \<le> n \<and> n \<le> 1473)"
proof -
  let ?b = "bind_client_options p"
  have fresh: "ca_remote_hosts ?b = []" "ca_remote_ports ?b = []" "ca_snd_tos ?b = 0"
    by (simp_all add: bind_client_options_def client_args_default_def Let_def)
  from assms obtain a0 where a0: "check_addresses (co_addresses p) ?b = Inr a0"
    "list_all payload_len_check (ca_payload_lens ?b)" "co_addresses p \<noteq> []"
    "a = (case co_tos p of None \<Rightarrow> a0 | Some t \<Rightarrow> a0\<lparr>ca_snd_tos := adjust_tos t\<rparr>)"
    by (auto simp: client_parse_args_def split: if_splits sum.splits)
  from check_addresses_ok [OF a0(1)] obtain hs ps where
    "a0 = ?b\<lparr>ca_remote_hosts := hs, ca_remote_ports := ps\<rparr>"
    "length hs = length (co_addresses p)" "length ps = length (co_addresses p)"
    "ca_ip_version ?b = 4 \<longrightarrow> (\<forall>i < length (co_addresses p). parseIPPort (co_addresses p ! i) [] 0 = (True, hs ! i, ps ! i))"
    "ca_ip_version ?b = 6 \<longrightarrow> (\<forall>i < length (co_addresses p). parseIPv6Port (co_addresses p ! i) [] 0 = (True, hs ! i, ps ! i))"
    using fresh by auto
  moreover have "x\<lparr>ca_snd_tos := 0\<rparr> = x" if "ca_snd_tos x = 0" for x :: client_args
    using that by (metis client_args.surjective client_args.update_convs(7))
  ultimately show ?thesis
    using a0(2-4) fresh by (intro exI [of _ hs] exI [of _ ps])
      (auto simp: list_all_iff payload_len_check_def MIN_PAYLOAD_LEN_def MAX_PAYLOAD_LEN_def split: option.splits)
qed

lemma bind_client_options_fields:
  "ca_dscp_snd (bind_client_options p) = 0"
  "ca_local_host (bind_client_options p) = (case co_local_address p of None \<Rightarrow> [] | Some x \<Rightarrow> x)"
  "ca_local_port (bind_client_options p) = (case co_local_port p of None \<Rightarrow> ''0'' | Some x \<Rightarrow> x)"
  "ca_payload_lens (bind_client_options p) =
     (case co_payload_lens p of None \<Rightarrow> [50, 250, 450, 650, 850, 1050, 1250, 1400] | Some x \<Rightarrow> x)"
  "ca_num_samples (bind_client_options p) = (case co_num_samples p of None \<Rightarrow> 10 | Some x \<Rightarrow> x)"
  "ca_timeout (bind_client_options p) = (case co_timeout p of None \<Rightarrow> 10 | Some x \<Rightarrow> x)"
  "ca_seed (bind_client_options p) = (case co_seed p of None \<Rightarrow> 0 | Some x \<Rightarrow> x)"
  "ca_print_digest (bind_client_options p) = co_print_digest p"
  "ca_json_output_file (bind_client_options p) = (case co_json_output p of None \<Rightarrow> [] | Some x \<Rightarrow> x)"
  "ca_print_lost_packets (bind_client_options p) = co_print_lost_packets p"
  "ca_print_RTT_only (bind_client_options p) = (case co_print_RTT_only p of None \<Rightarrow> False | Some x \<Rightarrow> x)"
  "ca_print_format (bind_client_options p) = (case co_print_format p of None \<Rightarrow> ''legacy'' | Some x \<Rightarrow> x)"
  "ca_sep (bind_client_options p) = (case co_sep p of None \<Rightarrow> CHR '','' | Some x \<Rightarrow> x)"
  "ca_ip_version (bind_client_options p) = (case co_ip p of None \<Rightarrow> 4 | Some x \<Rightarrow> x)"
  "ca_runtime (bind_client_options p) = (case co_runtime p of None \<Rightarrow> 0 | Some x \<Rightarrow> x)"
  "ca_mean_inter_packet_delay_ms (bind_client_options p) = (case co_mean_inter_packet_delay p of None \<Rightarrow> 200 | Some x \<Rightarrow> x)"
  "ca_constant_inter_packet_delay (bind_client_options p) = co_constant_inter_packet_delay p"
  by (simp_all add: bind_client_options_def client_args_default_def Let_def given_def split: option.split)

text \<open>
  C30: When the client's command line is accepted, there is at least one host, every address given has
  become a host and a port, in the order given and as the parser for the IP version reads them, and every
  payload length is between 42 and 1473. The traffic class is the one given, less one if both its ECN bits
  are set, so that they never both are, and 0 if none is given. Every other argument is that of its
  option, and without it the default.
\<close>

theorem client_parse_args_sound:
  assumes "client_parse_args b ec (Inr p) = Inr a"
  shows "ca_remote_hosts a \<noteq> [] \<and> length (ca_remote_hosts a) = length (co_addresses p)
     \<and> length (ca_remote_ports a) = length (co_addresses p)
     \<and> (\<forall>i < length (co_addresses p).
          (ca_ip_version a = 4 \<longrightarrow>
             parseIPPort (co_addresses p ! i) [] 0 = (True, ca_remote_hosts a ! i, ca_remote_ports a ! i)) \<and>
          (ca_ip_version a = 6 \<longrightarrow>
             parseIPv6Port (co_addresses p ! i) [] 0 = (True, ca_remote_hosts a ! i, ca_remote_ports a ! i)))
     \<and> (\<forall>n \<in> set (ca_payload_lens a). 42 \<le> n \<and> n \<le> 1473)
     \<and> ca_snd_tos a AND 3 \<noteq> 3
     \<and> ca_snd_tos a = (case co_tos p of None \<Rightarrow> 0 | Some t \<Rightarrow> if t AND 3 = 3 then t - 1 else t)
     \<and> ca_dscp_snd a = 0
     \<and> ca_local_host a = (case co_local_address p of None \<Rightarrow> [] | Some x \<Rightarrow> x)
     \<and> ca_local_port a = (case co_local_port p of None \<Rightarrow> ''0'' | Some x \<Rightarrow> x)
     \<and> ca_payload_lens a = (case co_payload_lens p of None \<Rightarrow> [50, 250, 450, 650, 850, 1050, 1250, 1400] | Some x \<Rightarrow> x)
     \<and> ca_num_samples a = (case co_num_samples p of None \<Rightarrow> 10 | Some x \<Rightarrow> x)
     \<and> ca_timeout a = (case co_timeout p of None \<Rightarrow> 10 | Some x \<Rightarrow> x)
     \<and> ca_seed a = (case co_seed p of None \<Rightarrow> 0 | Some x \<Rightarrow> x)
     \<and> ca_print_digest a = co_print_digest p
     \<and> ca_json_output_file a = (case co_json_output p of None \<Rightarrow> [] | Some x \<Rightarrow> x)
     \<and> ca_print_lost_packets a = co_print_lost_packets p
     \<and> ca_print_RTT_only a = (case co_print_RTT_only p of None \<Rightarrow> False | Some x \<Rightarrow> x)
     \<and> ca_print_format a = (case co_print_format p of None \<Rightarrow> ''legacy'' | Some x \<Rightarrow> x)
     \<and> ca_sep a = (case co_sep p of None \<Rightarrow> CHR '','' | Some x \<Rightarrow> x)
     \<and> ca_ip_version a = (case co_ip p of None \<Rightarrow> 4 | Some x \<Rightarrow> x)
     \<and> ca_runtime a = (case co_runtime p of None \<Rightarrow> 0 | Some x \<Rightarrow> x)
     \<and> ca_mean_inter_packet_delay_ms a = (case co_mean_inter_packet_delay p of None \<Rightarrow> 200 | Some x \<Rightarrow> x)
     \<and> ca_constant_inter_packet_delay a = co_constant_inter_packet_delay p"
proof -
  let ?b = "bind_client_options p"
  obtain hs ps where a: "a = ?b\<lparr>ca_remote_hosts := hs, ca_remote_ports := ps,
      ca_snd_tos := (case co_tos p of None \<Rightarrow> 0 | Some t \<Rightarrow> adjust_tos t)\<rparr>"
    and len: "co_addresses p \<noteq> []" "length hs = length (co_addresses p)" "length ps = length (co_addresses p)"
    and addrs: "ca_ip_version ?b = 4 \<longrightarrow> (\<forall>i < length (co_addresses p). parseIPPort (co_addresses p ! i) [] 0 = (True, hs ! i, ps ! i))"
      "ca_ip_version ?b = 6 \<longrightarrow> (\<forall>i < length (co_addresses p). parseIPv6Port (co_addresses p ! i) [] 0 = (True, hs ! i, ps ! i))"
    and lens: "\<forall>n \<in> set (ca_payload_lens ?b). 42 \<le> n \<and> n \<le> 1473"
    using client_parse_args_Inr [OF assms] by blast
  have "hs \<noteq> []" using len by auto
  moreover have "ca_snd_tos a = (case co_tos p of None \<Rightarrow> 0 | Some t \<Rightarrow> if t AND 3 = 3 then t - 1 else t)"
    "ca_snd_tos a AND 3 \<noteq> 3"
    using adjust_tos_word by (simp_all add: a split: option.split)
  moreover have "ca_ip_version a = ca_ip_version ?b" "ca_payload_lens a = ca_payload_lens ?b" "ca_remote_hosts a = hs"
    "ca_remote_ports a = ps" by (simp_all add: a)
  ultimately show ?thesis
    using addrs lens len(2,3) by (intro conjI) (simp_all add: a bind_client_options_fields del: split_paired_All)
qed

definition sample_build :: build_info where
  "sample_build = \<lparr>TWAMP_VERSION_TXT = ''1.0'', TWAMP_GIT_COMMIT_ID = ''c'', TWAMP_GIT_DESCRIBE = ''d'',
     QOO_GIT_DESCRIBE = ''q'', TDIGEST_GIT_DESCRIBE = ''t''\<rparr>"

definition sample_cli :: client_options where
  "sample_cli = \<lparr>co_local_address = None, co_local_port = None, co_payload_lens = None, co_num_samples = None,
     co_timeout = None, co_seed = None, co_print_digest = False, co_json_output = None, co_print_lost_packets = False,
     co_print_RTT_only = None, co_print_format = None, co_sep = None, co_ip = None, co_runtime = None,
     co_mean_inter_packet_delay = None, co_constant_inter_packet_delay = False, co_tos = Some 3, co_version = False,
     co_addresses = [''10.0.0.1:862'', ''10.0.0.2:4200'']\<rparr>"

theorem client_parse_args_sound_witness:
  "\<exists>a. client_parse_args sample_build (\<lambda>e. (105, [])) (Inr sample_cli) = Inr a \<and> length (ca_remote_hosts a) = 2
     \<and> ca_snd_tos a = 2 \<and> ca_seed a = 0 \<and> ca_mean_inter_packet_delay_ms a = 200"
proof -
  have p: "parseIPPort ''10.0.0.1:862'' [] 0 = (True, ''10.0.0.1'', 862)" "parseIPPort ''10.0.0.2:4200'' [] 0 = (True, ''10.0.0.2'', 4200)"
    by code_simp+
  have "\<exists>a. client_parse_args sample_build (\<lambda>e. (105, [])) (Inr sample_cli) = Inr a"
    by (simp add: client_parse_args_def sample_cli_def bind_client_options_def check_address_def client_args_default_def p
        payload_len_check_def MIN_PAYLOAD_LEN_def MAX_PAYLOAD_LEN_def Let_def)
  then obtain a where a: "client_parse_args sample_build (\<lambda>e. (105, [])) (Inr sample_cli) = Inr a" by blast
  have "length (co_addresses sample_cli) = 2" "co_tos sample_cli = Some 3" "co_seed sample_cli = None"
    "co_mean_inter_packet_delay sample_cli = None" by (simp_all add: sample_cli_def)
  with client_parse_args_sound [OF a] a show ?thesis by auto
qed

section \<open>The constructed client\<close>

lemma resolve_hosts_Inr:
  "resolve_hosts env family hosts ports = Inr addrs \<longleftrightarrow>
     length hosts \<le> length ports \<and>
     map (\<lambda>(host, port). ce_getaddrinfo env (Some host) (dec (unat port)) family) (zip hosts ports) = map Inr addrs"
proof (induction env family hosts ports arbitrary: addrs rule: resolve_hosts.induct)
  case (3 env family host hosts port ports)
  show ?case
  proof (cases "ce_getaddrinfo env (Some host) (dec (unat port)) family")
    case (Inl e)
    then show ?thesis by (cases addrs) auto
  next
    case (Inr addr)
    show ?thesis
      using "3.IH" [OF Inr]
      by (cases addrs; cases "resolve_hosts env family hosts ports") (auto simp: Inr)
  qed
qed auto

lemma create_stats_Inr:
  "create_stats env k names = Inr sts \<longleftrightarrow>
     length sts = length names \<and> (\<forall>i < length names. ce_create env (k + i) = Some (sts ! i))"
proof (induction names arbitrary: k sts)
  case (Cons name names)
  show ?case
    using Cons.IH [of "Suc k"]
    by (cases sts; cases "ce_create env k"; cases "create_stats env (Suc k) names") (auto simp: All_less_Suc2)
qed auto

text \<open>The constructed client, for the statistics that were created.\<close>

definition constructed ::
  "'st client_env \<Rightarrow> client_args \<Rightarrow> sys_clock \<Rightarrow> addrinfo list \<Rightarrow> string list \<Rightarrow> 'st client \<Rightarrow> bool" where
  "constructed env a clk addrs errs c \<longleftrightarrow>
     (\<exists>rtt internal client_server server_client.
        ce_create env 0 = Some rtt \<and> ce_create env 1 = Some internal \<and>
        ce_create env 2 = Some client_server \<and> ce_create env 3 = Some server_client \<and>
        c = (client_init
              (case ce_getsockname env of None \<Rightarrow> a | Some addr \<Rightarrow> a\<lparr>ca_local_port := dec (unat (bound_port addr))\<rparr>)
              (map ai_addr addrs) (fst (time_null clk)) rtt (snd (time_null clk)))
            \<lparr>stats_internal := internal, stats_client_server := client_server, stats_server_client := server_client,
             stderr := errs\<rparr>)"

text \<open>What the constructor needs from the system: names that resolve, and a socket that is created and bound.\<close>

definition resolves :: "'st client_env \<Rightarrow> client_args \<Rightarrow> int \<Rightarrow> addrinfo list \<Rightarrow> addrinfo \<Rightarrow> bool" where
  "resolves env a family addrs local \<longleftrightarrow>
     resolve_hosts env family (ca_remote_hosts a) (ca_remote_ports a) = Inr addrs \<and>
     ce_getaddrinfo env (if ca_local_host a = [] then None else Some (ca_local_host a)) (ca_local_port a) family = Inr local"

definition socket_fails :: "'st client_env \<Rightarrow> addrinfo list \<Rightarrow> addrinfo \<Rightarrow> bool" where
  "socket_fails env addrs local \<longleftrightarrow>
     ce_socket env (ai_family (hd addrs)) (ai_socktype (hd addrs)) (ai_protocol (hd addrs)) \<noteq> None \<or>
     ce_bind env (ai_addr local) \<noteq> None"

lemma create_four:
  "create_stats env 0 [n1, n2, n3, n4] = Inr sts \<longleftrightarrow>
     (\<exists>a b c d. sts = [a, b, c, d] \<and> ce_create env 0 = Some a \<and> ce_create env 1 = Some b \<and>
        ce_create env 2 = Some c \<and> ce_create env 3 = Some d)"
  by (auto simp: numeral_2_eq_2 numeral_3_eq_3 split: option.splits sum.splits)

lemma constructed_unique: "constructed env a clk addrs errs c \<Longrightarrow> constructed env a clk addrs errs c' \<Longrightarrow> c = c'"
  by (auto simp: constructed_def)

lemma constructed_tail:
  assumes "time_null clk = (start, clk')"
    and "names = [''stats_RTT'', ''stats_internal'', ''stats_client_server'', ''stats_server_client'']"
  shows "(case create_stats env 0 names of
        Inr [rtt, internal, client_server, server_client] \<Rightarrow>
          Inr ((client_init
                 (case ce_getsockname env of None \<Rightarrow> a | Some addr \<Rightarrow> a\<lparr>ca_local_port := dec (unat (bound_port addr))\<rparr>)
                 (map ai_addr addrs) start rtt clk')\<lparr>stats_internal := internal, stats_client_server := client_server,
                   stats_server_client := server_client, stderr := errs\<rparr>, fd2)
      | Inl e \<Rightarrow> Inl e) = Inr (c, fd) \<longleftrightarrow> fd = fd2 \<and> constructed env a clk addrs errs c"
proof -
  define stats where "stats = create_stats env 0 names"
  have four: "stats = Inr sts \<longleftrightarrow> (\<exists>x y z u. sts = [x, y, z, u] \<and> ce_create env 0 = Some x \<and> ce_create env 1 = Some y \<and>
        ce_create env 2 = Some z \<and> ce_create env 3 = Some u)" for sts
    unfolding stats_def assms(2) by (rule create_four)
  show ?thesis
  proof (cases stats)
    case (Inl e)
    then have "\<not> constructed env a clk addrs errs c"
      using four unfolding constructed_def by (metis sum.distinct(1))
    with Inl show ?thesis by (simp add: stats_def [symmetric])
  next
    case (Inr sts)
    then obtain x y z u where "sts = [x, y, z, u]" "ce_create env 0 = Some x" "ce_create env 1 = Some y"
      "ce_create env 2 = Some z" "ce_create env 3 = Some u" using four by blast
    with Inr show ?thesis by (auto simp: constructed_def assms(1) stats_def [symmetric])
  qed
qed

lemma open_client_Inr:
  assumes "time_null clk = (start, clk')"
  shows "open_client env a family start clk' fresh = Inr (c, fd) \<longleftrightarrow>
     (\<exists>addrs local fd1 err1 err2. resolves env a family addrs local \<and> addrs \<noteq> [] \<and> \<not> socket_fails env addrs local \<and>
        set_socket_options (ce_setsockopt env) 255 (ca_timeout a) fresh = (fd1, err1) \<and>
        set_socket_tos (ce_setsockopt env) (ca_snd_tos a) fd1 = (fd, err2) \<and>
        constructed env a clk addrs (err1 @ err2) c)"
proof -
  obtain fd1 err1 where o1: "set_socket_options (ce_setsockopt env) 255 (ca_timeout a) fresh = (fd1, err1)" by fastforce
  obtain fd2 err2 where o2: "set_socket_tos (ce_setsockopt env) (ca_snd_tos a) fd1 = (fd2, err2)" by fastforce
  define host where "host = (if ca_local_host a = [] then None else Some (ca_local_host a))"
  have "open_client env a family start clk' fresh = Inr (c, fd) \<longleftrightarrow>
     (\<exists>addrs local. resolve_hosts env family (ca_remote_hosts a) (ca_remote_ports a) = Inr addrs \<and>
        ce_getaddrinfo env host (ca_local_port a) family = Inr local \<and> addrs \<noteq> [] \<and> \<not> socket_fails env addrs local \<and>
        fd = fd2 \<and> constructed env a clk addrs (err1 @ err2) c)"
  proof (cases "resolve_hosts env family (ca_remote_hosts a) (ca_remote_ports a)")
    case (Inr addrs)
    show ?thesis
    proof (cases "ce_getaddrinfo env host (ca_local_port a) family")
      case local: (Inr local)
      show ?thesis
        using constructed_tail [OF assms refl, where env = env and a = a and addrs = addrs and errs = "err1 @ err2" and
            ?fd2.0 = fd2 and c = c and fd = fd]
        by (cases "ce_socket env (ai_family (hd addrs)) (ai_socktype (hd addrs)) (ai_protocol (hd addrs))";
            cases "ce_bind env (ai_addr local)")
          (simp_all only: open_client_def HDR_TTL_def o1 o2 Let_def prod.case sum.case option.case host_def [symmetric] Inr local,
           simp_all add: socket_fails_def)
    qed (simp add: open_client_def host_def [symmetric] Inr)
  qed (simp add: open_client_def)
  then show ?thesis unfolding resolves_def host_def by (auto simp: o1 o2)
qed

lemma constructed_iff:
  "constructed env a clk addrs errs c \<longleftrightarrow>
     (\<exists>rtt internal client_server server_client.
        ce_create env 0 = Some rtt \<and> ce_create env 1 = Some internal \<and>
        ce_create env 2 = Some client_server \<and> ce_create env 3 = Some server_client \<and>
        c = \<lparr>sent_packets = 0, received_packets = 0, last_received_packet_id = -1, sending_completed = 0,
             start_time = word_of_int (tv_sec (readings clk (ticks clk))), collator_started = 0, collator_finished = 0,
             observation_list = \<lparr>ol_observations = []\<rparr>, remote_address_info = map ai_addr addrs,
             stats_RTT = rtt, stats_internal = internal, stats_client_server = client_server, stats_server_client = server_client,
             raw_data_list = \<lparr>rl_observations = []\<rparr>, first_packet_sent_epoch_nanoseconds = 0,
             last_packet_sent_epoch_nanoseconds = 0, last_packet_received_epoch_nanoseconds = 0,
             args = (case ce_getsockname env of None \<Rightarrow> a | Some addr \<Rightarrow> a\<lparr>ca_local_port := dec (unat (bound_port addr))\<rparr>),
             clock = clk\<lparr>ticks := Suc (ticks clk)\<rparr>, stdout = [], stderr = errs, network = []\<rparr>)"
  by (simp add: constructed_def client_init_def time_null_def clock_gettime_def)

lemma resolves_iff:
  "resolves env a family addrs local \<and> addrs \<noteq> [] \<longleftrightarrow>
      ca_remote_hosts a \<noteq> [] \<and> length (ca_remote_hosts a) \<le> length (ca_remote_ports a) \<and>
        map (\<lambda>(host, port). ce_getaddrinfo env (Some host) (dec (unat port)) family)
          (zip (ca_remote_hosts a) (ca_remote_ports a)) = map Inr addrs \<and>
        ce_getaddrinfo env (if ca_local_host a = [] then None else Some (ca_local_host a)) (ca_local_port a) family = Inr local"
proof -
  have "addrs \<noteq> [] \<longleftrightarrow> ca_remote_hosts a \<noteq> []"
    if "resolve_hosts env family (ca_remote_hosts a) (ca_remote_ports a) = Inr addrs"
    using that by (auto simp: resolve_hosts_Inr dest: map_eq_imp_length_eq)
  then show ?thesis unfolding resolves_def resolve_hosts_Inr by blast
qed

lemma construct_client_eq:
  assumes "time_null clk = (start, clk')"
  shows "construct_client env a clk fresh =
     (if ca_ip_version a \<noteq> 4 \<and> ca_ip_version a \<noteq> 6 then Inl (Exits ''Invalid IP version.'')
      else open_client env a (client_family a) start clk' fresh)"
  by (simp add: construct_client_def assms)

text \<open>
  C28: The constructor of the client succeeds exactly when the IP version is 4 or 6, there is a remote host and a port
  for every one, each host and the local address resolve in the family of the version, the socket is
  created, with the family of the first address, and bound, and the four statistics are allocated. The client then has the
  resolved addresses in the order of the hosts, the port the socket is really bound to as its local
  port, the time of its start and its four statistics; its counters and flags are 0, the last identifier is -1, both queues are empty
  and nothing was printed or sent but the messages of the socket options. The socket has the options for TTL 255, the
  receive timeout and the traffic class.
\<close>

theorem client_construction:
  "construct_client env a clk fresh = Inr (c, fd) \<longleftrightarrow>
     (ca_ip_version a = 4 \<or> ca_ip_version a = 6) \<and>
     (\<exists>family addrs local fd1 err1 err2 rtt internal client_server server_client.
        family = (if ca_ip_version a = 4 then 2 else 10) \<and>
        ca_remote_hosts a \<noteq> [] \<and> length (ca_remote_hosts a) \<le> length (ca_remote_ports a) \<and>
        map (\<lambda>(host, port). ce_getaddrinfo env (Some host) (dec (unat port)) family)
          (zip (ca_remote_hosts a) (ca_remote_ports a)) = map Inr addrs \<and>
        ce_getaddrinfo env (if ca_local_host a = [] then None else Some (ca_local_host a)) (ca_local_port a) family = Inr local \<and>
        ce_socket env (ai_family (hd addrs)) (ai_socktype (hd addrs)) (ai_protocol (hd addrs)) = None \<and>
        ce_bind env (ai_addr local) = None \<and>
        set_socket_options (ce_setsockopt env) 255 (ca_timeout a) fresh = (fd1, err1) \<and>
        set_socket_tos (ce_setsockopt env) (ca_snd_tos a) fd1 = (fd, err2) \<and>
        ce_create env 0 = Some rtt \<and> ce_create env 1 = Some internal \<and>
        ce_create env 2 = Some client_server \<and> ce_create env 3 = Some server_client \<and>
        c = \<lparr>sent_packets = 0, received_packets = 0, last_received_packet_id = -1, sending_completed = 0,
             start_time = word_of_int (tv_sec (readings clk (ticks clk))), collator_started = 0, collator_finished = 0,
             observation_list = \<lparr>ol_observations = []\<rparr>, remote_address_info = map ai_addr addrs,
             stats_RTT = rtt, stats_internal = internal, stats_client_server = client_server, stats_server_client = server_client,
             raw_data_list = \<lparr>rl_observations = []\<rparr>, first_packet_sent_epoch_nanoseconds = 0,
             last_packet_sent_epoch_nanoseconds = 0, last_packet_received_epoch_nanoseconds = 0,
             args = (case ce_getsockname env of None \<Rightarrow> a | Some addr \<Rightarrow> a\<lparr>ca_local_port := dec (unat (bound_port addr))\<rparr>),
             clock = clk\<lparr>ticks := Suc (ticks clk)\<rparr>, stdout = [], stderr = err1 @ err2, network = []\<rparr>)"
proof -
  obtain start clk' where t: "time_null clk = (start, clk')" by fastforce
  have f: "client_family a = (if ca_ip_version a = 4 then 2 else 10)"
    by (simp add: client_family_def AF_INET_def AF_INET6_def)
  have main: "construct_client env a clk fresh = Inr (c, fd) \<longleftrightarrow> (ca_ip_version a = 4 \<or> ca_ip_version a = 6) \<and>
     (\<exists>addrs local fd1 err1 err2. (resolves env a (client_family a) addrs local \<and> addrs \<noteq> []) \<and> \<not> socket_fails env addrs local \<and>
        set_socket_options (ce_setsockopt env) 255 (ca_timeout a) fresh = (fd1, err1) \<and>
        set_socket_tos (ce_setsockopt env) (ca_snd_tos a) fd1 = (fd, err2) \<and>
        constructed env a clk addrs (err1 @ err2) c)"
    unfolding construct_client_eq [OF t] open_client_Inr [OF t, symmetric, simplified conj_assoc [symmetric]]
    using open_client_Inr [OF t, of env a "client_family a" fresh c fd] by auto
  show ?thesis
    unfolding main resolves_iff unfolding constructed_iff f socket_fails_def de_Morgan_disj not_not
    by (rule iffI; elim conjE exE; hypsubst; intro conjI exI) (assumption | rule refl)+
qed

end
