(* ===== verification/Round_Trip.thy ===== *)
theory Round_Trip
  imports Server Threads Setup
begin

text \<open>
  Client and server together. The locale \<^verbatim>\<open>reflector\<close> is what the client relies on: a service that
  answers a test packet with a packet of the same length that carries the request's sequence number and
  time and the times of its own receive and send. The client's measurements are derived from it, and
  the server of this repository is shown to be such a service.
\<close>

section \<open>Nanosecond counts as signed numbers\<close>

lemma sint_small:
  fixes x :: u64
  assumes "x \<le> MAXINT64" shows "sint x = uint x"
proof -
  have "uint x < 2 ^ 63" using assms by (simp add: MAXINT64_def word_le_def)
  moreover have "- (2 ^ 63) \<le> uint x" by (rule order_trans [OF _ uint_ge_0]) simp
  ultimately show ?thesis using signed_take_bit_int_eq_self [of 63 "uint x"] by (simp add: sint_uint)
qed

lemma timestamp_small: "timestamp_to_nsec ts \<le> MAXINT64"
proof -
  have "nsec_of (timestamp_to_timespec ts) < 2 ^ 63"
    using timestamp_to_timespec_sec [of ts] timestamp_to_timespec_normalised [of ts]
    by (simp add: nsec_of_def normalised_def)
  then show ?thesis by (simp add: MAXINT64_def word_le_def uint_timestamp_to_nsec)
qed

section \<open>The contract of a reflector\<close>

locale reflector =
  fixes reflect :: "'s \<Rightarrow> incoming \<Rightarrow> u8 list"
    and received_at :: "'s \<Rightarrow> incoming \<Rightarrow> timespec"
    and sent_at :: "'s \<Rightarrow> incoming \<Rightarrow> timespec"
  assumes same_length:
      "42 \<le> length (in_payload d) \<Longrightarrow> length (in_payload d) \<le> TST_PKT_SIZE \<Longrightarrow>
       length (reflect s d) = length (in_payload d)"
    and sequence_number:
      "42 \<le> length (in_payload d) \<Longrightarrow> length (in_payload d) \<le> TST_PKT_SIZE \<Longrightarrow>
       take 4 (reflect s d) = take 4 (in_payload d)"
    and send_stamp:
      "42 \<le> length (in_payload d) \<Longrightarrow> length (in_payload d) \<le> TST_PKT_SIZE \<Longrightarrow>
       take 8 (drop 4 (reflect s d)) = timestamp_bytes (htonts (timespec_to_timestamp (sent_at s d)))"
    and receive_stamp:
      "42 \<le> length (in_payload d) \<Longrightarrow> length (in_payload d) \<le> TST_PKT_SIZE \<Longrightarrow>
       take 8 (drop 16 (reflect s d)) = timestamp_bytes (htonts (timespec_to_timestamp (received_at s d)))"
    and sender_stamp:
      "42 \<le> length (in_payload d) \<Longrightarrow> length (in_payload d) \<le> TST_PKT_SIZE \<Longrightarrow>
       take 8 (drop 28 (reflect s d)) = take 8 (drop 4 (in_payload d))"
begin

lemma padded_slices:
  fixes xs :: "u8 list"
  assumes "42 \<le> length xs"
  shows "take 4 (xs @ ys) = take 4 xs" "take 8 (drop 4 (xs @ ys)) = take 8 (drop 4 xs)"
    "take 8 (drop 16 (xs @ ys)) = take 8 (drop 16 xs)" "take 8 (drop 28 (xs @ ys)) = take 8 (drop 28 xs)"
  using assms by simp_all

text \<open>What the client reads in the answer to one of its packets.\<close>

lemma reply_fields:
  assumes "42 \<le> n" and "n \<le> TST_PKT_SIZE"
    and "in_payload d = take n (client_packet_bytes (sender_packet idx t))"
    and "in_payload r = reflect s d"
  shows "ntohl (rp_seq_number (reply_packet r)) = idx"
    and "ntohts (rp_timestamp (reply_packet r)) = timespec_to_timestamp (sent_at s d)"
    and "ntohts (rp_receive_timestamp (reply_packet r)) = timespec_to_timestamp (received_at s d)"
    and "ntohts (rp_sender_timestamp (reply_packet r)) = timespec_to_timestamp t"
    and "length (in_payload r) = n"
proof -
  have l: "length (in_payload d) = n"
    using assms(2) length_client_packet_bytes [OF sender_packet_wf, of idx t] by (simp add: assms(3))
  have n: "42 \<le> length (in_payload d)" "length (in_payload d) \<le> TST_PKT_SIZE" using assms(1,2) l by simp_all
  show r: "length (in_payload r) = n" using same_length [OF n] by (simp add: assms(4) l)
  have r42: "42 \<le> length (in_payload r)" using r assms(1) by simp
  have req: "take 4 (in_payload d) = to_le 4 (htonl idx)"
    "take 8 (drop 4 (in_payload d)) = timestamp_bytes (htonts (timespec_to_timestamp t))"
    using assms(1) by (simp_all add: assms(3) sender_packet_bytes drop_take min_def)
  note fields = reply_packet_def reflector_packet_of_bytes_def padded_slices [OF r42 [unfolded assms(4)]]
  show "ntohl (rp_seq_number (reply_packet r)) = idx"
    using sequence_number [OF n] by (simp add: fields assms(4) req(1) del: take_append)
  show "ntohts (rp_timestamp (reply_packet r)) = timespec_to_timestamp (sent_at s d)"
    using send_stamp [OF n] by (simp add: fields assms(4) del: take_append drop_append)
  show "ntohts (rp_receive_timestamp (reply_packet r)) = timespec_to_timestamp (received_at s d)"
    using receive_stamp [OF n] by (simp add: fields assms(4) del: take_append drop_append)
  show "ntohts (rp_sender_timestamp (reply_packet r)) = timespec_to_timestamp t"
    using sender_stamp [OF n] by (simp add: fields assms(4) req(2) del: take_append drop_append)
qed

text \<open>The printed delays of a reply that arrives at \<^term>\<open>now\<close>, a 64-bit nanosecond count.\<close>

lemma reply_delays:
  assumes "42 \<le> n" and "n \<le> TST_PKT_SIZE"
    and "in_payload d = take n (client_packet_bytes (sender_packet idx t))"
    and "in_payload r = reflect s d"
    and "clock_ok t" and "clock_ok (received_at s d)" and "clock_ok (sent_at s d)" and "now \<le> MAXINT64"
  shows "\<bar>td_client_server_delay (fst (computeTimeData now (reply_packet r))) - (nsec_of (received_at s d) - nsec_of t)\<bar> \<le> 1"
    and "\<bar>td_internal_delay (fst (computeTimeData now (reply_packet r))) - (nsec_of (sent_at s d) - nsec_of (received_at s d))\<bar> \<le> 1"
    and "\<bar>td_server_client_delay (fst (computeTimeData now (reply_packet r))) - (uint now - nsec_of (sent_at s d))\<bar> \<le> 1"
    and "snd (computeTimeData now (reply_packet r)) = []"
proof -
  have s: "sint (timestamp_to_nsec (timespec_to_timestamp x)) \<in> {nsec_of x - 1, nsec_of x}
      \<and> \<not> timestamp_to_nsec (timespec_to_timestamp x) > MAXINT64" if "clock_ok x" for x
    using clock_nsec [OF that] sint_small [OF timestamp_small] timestamp_small by (metis linorder_not_less)
  have now: "sint now = uint now" using assms(8) by (rule sint_small)
  note f = reply_fields [OF assms(1-4)]
  show "\<bar>td_client_server_delay (fst (computeTimeData now (reply_packet r))) - (nsec_of (received_at s d) - nsec_of t)\<bar> \<le> 1"
    using s [OF assms(5)] s [OF assms(6)] by (auto simp: computeTimeData_def f Let_def)
  show "\<bar>td_internal_delay (fst (computeTimeData now (reply_packet r))) - (nsec_of (sent_at s d) - nsec_of (received_at s d))\<bar> \<le> 1"
    using s [OF assms(6)] s [OF assms(7)] by (auto simp: computeTimeData_def f Let_def)
  show "\<bar>td_server_client_delay (fst (computeTimeData now (reply_packet r))) - (uint now - nsec_of (sent_at s d))\<bar> \<le> 1"
    using s [OF assms(7)] now by (auto simp: computeTimeData_def f Let_def)
  show "snd (computeTimeData now (reply_packet r)) = []"
    using s [OF assms(5)] s [OF assms(6)] s [OF assms(7)] assms(8)
    by (simp add: computeTimeData_def f too_large_def Let_def)
qed

end

section \<open>The server is a reflector\<close>

definition kernel_time :: "incoming \<Rightarrow> timespec" where
  "kernel_time d = get_kernel_timestamp (in_control d) \<lparr>tv_sec = 0, tv_nsec = 0\<rparr>"

definition server_received_at :: "server \<Rightarrow> incoming \<Rightarrow> timespec" where
  "server_received_at s d = receive_time (kernel_time d) (sv_clock s)"

definition server_sent_at :: "server \<Rightarrow> incoming \<Rightarrow> timespec" where
  "server_sent_at s d = send_time (kernel_time d) (sv_clock s)"

lemma answer_slices:
  assumes "42 \<le> length (in_payload d)" and "length (in_payload d) \<le> TST_PKT_SIZE"
  shows "take 4 (answer s d) = take 4 (in_payload d)"
    and "take 8 (drop 4 (answer s d)) = timestamp_bytes (htonts (timespec_to_timestamp (server_sent_at s d)))"
    and "take 8 (drop 16 (answer s d)) = timestamp_bytes (htonts (timespec_to_timestamp (server_received_at s d)))"
    and "take 8 (drop 28 (answer s d)) = take 8 (drop 4 (in_payload d))"
proof -
  note a = answer_bytes [OF assms(2), of s, folded kernel_time_def, folded server_sent_at_def server_received_at_def]
  have b: "take 4 (request_buffer d) = take 4 (in_payload d)" "take 14 (request_buffer d) = take 14 (in_payload d)"
    using assms(1) by (simp_all add: request_buffer_def)
  show "take 4 (answer s d) = take 4 (in_payload d)" using assms by (simp add: a b min_def)
  show "take 8 (drop 4 (answer s d)) = timestamp_bytes (htonts (timespec_to_timestamp (server_sent_at s d)))"
    using assms by (simp add: a b drop_take min_def)
  show "take 8 (drop 16 (answer s d)) = timestamp_bytes (htonts (timespec_to_timestamp (server_received_at s d)))"
    using assms by (simp add: a b drop_take min_def)
  show "take 8 (drop 28 (answer s d)) = take 8 (drop 4 (in_payload d))"
    using assms by (simp add: a b drop_take min_def)
qed

interpretation server_reflects: reflector answer server_received_at server_sent_at
  by unfold_locales (simp_all add: length_answer answer_slices)

section \<open>A round trip\<close>

lemma sendPacket_one:
  assumes "remote_address_info c = [host]" and "os_sendmsg os (se_sends e) = None" and "unat len \<le> TST_PKT_SIZE"
    and "sendPacket os idx len (e, c) = (sent, e', c')"
  shows "sent = Inr (timespec_to_timestamp (next_reading c))"
    and "network c' = network c @ [(host, take (unat len) (client_packet_bytes (sender_packet idx (next_reading c))))]"
proof -
  have "length (client_packet_bytes (sender_packet idx (next_reading c))) = TST_PKT_SIZE"
    by (simp add: length_client_packet_bytes)
  then have "iov_read (os_beyond os) (client_packet_bytes (sender_packet idx (next_reading c))) (unat len) =
      take (unat len) (client_packet_bytes (sender_packet idx (next_reading c)))"
    using assms(3) by (simp add: iov_read_def)
  then show "sent = Inr (timespec_to_timestamp (next_reading c))"
    "network c' = network c @ [(host, take (unat len) (client_packet_bytes (sender_packet idx (next_reading c))))]"
    using assms by (auto simp: sendPacket_def craftSenderPacket_eq Let_def)
qed

text \<open>
  C2: A packet of 42 to 1472 bytes that travels from the client to the server and back: the server answers
  its source with as many bytes, and the client, when the answer arrives, queues three observations
  under the packet's own sequence number. Their times are those of the server's send and receive,
  to the nanosecond below, and of the arrival; the time the sender recorded is that of the clock reading
  before the send, likewise.
\<close>

theorem round_trip_observed:
  assumes "remote_address_info c = [host]" and "os_sendmsg os (se_sends e) = None"
    and "42 \<le> unat len" and "unat len \<le> TST_PKT_SIZE"
    and "sendPacket os idx len (e, c) = (sent, e', c')" and "network c' = network c @ [(host, bytes)]"
    and "ev_recv ev = Recv_msg d" and "in_payload d = bytes" and "ev_send_error ev = None"
    and "stoi (sa_local_port (sv_args s)) = Inr lp"
    and "listen_body env ev s = (stop, s')" and "sv_network s' = sv_network s @ [(dst, answered)]"
    and "in_payload r = answered" and "can_print (args c2)" and "collator_started c2 \<noteq> 0"
    and "awaitAndHandleResponse ntop sqa (Recv_msg r) c2 = Inr (got, c3)"
    and "clock_ok (next_reading c)" and "clock_ok (server_received_at s d)" and "clock_ok (server_sent_at s d)"
  shows "dst = in_name d \<and> length answered = unat len \<and> stop = None \<and> got
     \<and> (\<exists>ts. sent = Inr ts \<and> uint (timestamp_to_nsec ts) \<in> {nsec_of (next_reading c) - 1, nsec_of (next_reading c)})
     \<and> (\<exists>out sin cin. ol_observations (observation_list c3) = ol_observations (observation_list c2) @ [out, sin, cin]
         \<and> map observation_point [out, sin, cin] = [SERVER_SEND, SERVER_RECEIVE, CLIENT_RECEIVE]
         \<and> map packet_id [out, sin, cin] = [idx, idx, idx]
         \<and> uint (epoch_nanoseconds out) \<in> {nsec_of (server_sent_at s d) - 1, nsec_of (server_sent_at s d)}
         \<and> uint (epoch_nanoseconds sin) \<in> {nsec_of (server_received_at s d) - 1, nsec_of (server_received_at s d)}
         \<and> epoch_nanoseconds cin = arrival r c2)"
proof -
  note sent = sendPacket_one [OF assms(1,2,4,5)]
  have d: "in_payload d = take (unat len) (client_packet_bytes (sender_packet idx (next_reading c)))"
    using sent(2) assms(6,8) by simp
  have ld: "length (in_payload d) = unat len"
    using d assms(4) by (simp add: length_client_packet_bytes)
  have fit: "length (in_payload d) \<le> TST_PKT_SIZE" using ld assms(4) by simp
  have ans: "stop = None" "dst = in_name d" "answered = answer s d"
    using listen_body_reflects [OF assms(7) fit assms(10), of env] assms(9,11,12) by auto
  have r: "in_payload r = answer s d" using assms(13) ans(3) by simp
  note f = server_reflects.reply_fields [OF assms(3,4) d r]
  have "length (in_payload r) \<le> TST_PKT_SIZE" using f(5) assms(4) by simp
  from awaitAndHandleResponse_reply [OF this assms(14), of ntop sqa] assms(15,16)
  have got: "got" "ol_observations (observation_list c3) = ol_observations (observation_list c2) @
      reply_observations (reply_packet r) (int (length (in_payload r))) (arrival r c2)" by auto
  let ?q = "\<lambda>pt t. QEDObservation pt t idx (int (length (in_payload r)))"
  have "reply_observations (reply_packet r) (int (length (in_payload r))) (arrival r c2) =
     [?q SERVER_SEND (timestamp_to_nsec (timespec_to_timestamp (server_sent_at s d))),
      ?q SERVER_RECEIVE (timestamp_to_nsec (timespec_to_timestamp (server_received_at s d))),
      ?q CLIENT_RECEIVE (arrival r c2)]"
    by (simp add: reply_observations_def f Let_def)
  with got(2) have "\<exists>out sin cin. ol_observations (observation_list c3) = ol_observations (observation_list c2) @ [out, sin, cin]
         \<and> map observation_point [out, sin, cin] = [SERVER_SEND, SERVER_RECEIVE, CLIENT_RECEIVE]
         \<and> map packet_id [out, sin, cin] = [idx, idx, idx]
         \<and> uint (epoch_nanoseconds out) \<in> {nsec_of (server_sent_at s d) - 1, nsec_of (server_sent_at s d)}
         \<and> uint (epoch_nanoseconds sin) \<in> {nsec_of (server_received_at s d) - 1, nsec_of (server_received_at s d)}
         \<and> epoch_nanoseconds cin = arrival r c2"
    using clock_nsec [OF assms(18)] clock_nsec [OF assms(19)] by (auto simp: QEDObservation_def)
  with sent(1) ans got(1) f(5) r clock_nsec [OF assms(17)] show ?thesis by auto
qed

definition one_host :: "unit client" where
  "one_host = demo_client\<lparr>collator_started := 1\<rparr>"

definition test_datagram :: "u32 \<Rightarrow> nat \<Rightarrow> incoming" where
  "test_datagram idx n =
     \<lparr>in_payload = take n (client_packet_bytes (sender_packet idx (next_reading one_host))), in_name = replicate 28 1,
      in_control = []\<rparr>"

definition reply_datagram :: "incoming \<Rightarrow> incoming" where
  "reply_datagram d = \<lparr>in_payload = answer sample_server d, in_name = replicate 28 2, in_control = []\<rparr>"

lemma one_host_simps:
  "remote_address_info one_host = [[1]]" "collator_started one_host = 1" "can_print (args one_host)"
  "ol_observations (observation_list one_host) = []" "next_reading one_host = \<lparr>tv_sec = 1700000000, tv_nsec = 0\<rparr>"
  by (simp_all add: one_host_def demo_client_def client_init_def next_reading_def)

lemma sample_clock_ok: "clock_ok (server_received_at sample_server (test_datagram i n))"
    "clock_ok (server_sent_at sample_server (test_datagram i n))" "clock_ok (next_reading one_host)"
  by (simp_all add: one_host_simps clock_ok_def normalised_def server_received_at_def server_sent_at_def kernel_time_def
      test_datagram_def get_kernel_timestamp_def receive_time_def send_time_def no_kernel_time_def sample_server_def)

theorem round_trip_observed_witness:
  "\<exists>c3. awaitAndHandleResponse (\<lambda>v b. None) no_stats (Recv_msg (reply_datagram (test_datagram 7 42))) one_host = Inr (True, c3)
     \<and> map packet_id (ol_observations (observation_list c3)) = [7, 7, 7]"
proof -
  let ?d = "test_datagram 7 42" and ?ev = "\<lparr>ev_recv = Recv_msg (test_datagram 7 42), ev_send_error = None\<rparr>"
  obtain sent e' c' where s: "sendPacket demo_os 7 42 (sample_sender_env, one_host) = (sent, e', c')" by (metis prod.exhaust)
  have ok: "os_sendmsg demo_os k = None" for k by (simp add: demo_os_def)
  have n: "unat (42 :: u64) \<le> TST_PKT_SIZE" "42 \<le> unat (42 :: u64)" by (simp_all add: TST_PKT_SIZE_def)
  have net: "network c' = network one_host @ [([1], in_payload ?d)]"
    using sendPacket_one(2) [OF one_host_simps(1) ok n(1) s] by (simp add: test_datagram_def)
  have fit: "length (in_payload ?d) \<le> TST_PKT_SIZE" by (simp add: test_datagram_def TST_PKT_SIZE_def)
  obtain s' where s': "listen_body sample_env ?ev sample_server = (None, s')"
    "sv_network s' = sv_network sample_server @ [(in_name ?d, answer sample_server ?d)]"
    using listen_body_reflects [of ?ev ?d sample_server 443 sample_env] fit sample_stoi by auto
  have r: "in_payload (reply_datagram ?d) = answer sample_server ?d" by (simp add: reply_datagram_def)
  have "length (in_payload (reply_datagram ?d)) \<le> TST_PKT_SIZE" using fit by (simp add: r length_answer)
  then obtain c3 where c3: "awaitAndHandleResponse (\<lambda>v b. None) no_stats (Recv_msg (reply_datagram ?d)) one_host = Inr (True, c3)"
    using awaitAndHandleResponse_reply [OF _ one_host_simps(3), of _ "\<lambda>v b. None" no_stats] by blast
  have "collator_started one_host \<noteq> 0" by (simp add: one_host_simps)
  from round_trip_observed [OF one_host_simps(1) ok n(2,1) s net _ refl _ sample_stoi s' r one_host_simps(3) this c3
      sample_clock_ok(3,1,2)]
  have "\<exists>out sin cin. ol_observations (observation_list c3) = ol_observations (observation_list one_host) @ [out, sin, cin]
      \<and> map packet_id [out, sin, cin] = [7, 7, 7]" by auto
  then show ?thesis using c3 by (auto simp: one_host_simps)
qed

text \<open>
  C4: The delays the client computes from the answer of the server to its packet are the true ones, between
  the readings of the two clocks, to within a nanosecond, whatever the offset of the clocks and also
  when a one-way delay is negative; no clock warning is printed, and the round-trip time is the sum of the
  three delays.
\<close>

theorem round_trip_delays:
  assumes "42 \<le> n" and "n \<le> TST_PKT_SIZE"
    and "in_payload d = take n (client_packet_bytes (sender_packet idx t))" and "in_payload r = answer s d"
    and "clock_ok t" and "clock_ok (server_received_at s d)" and "clock_ok (server_sent_at s d)"
    and "now \<le> MAXINT64" and "computeTimeData now (reply_packet r) = (td, warnings)"
  shows "\<bar>td_client_server_delay td - (nsec_of (server_received_at s d) - nsec_of t)\<bar> \<le> 1
     \<and> \<bar>td_internal_delay td - (nsec_of (server_sent_at s d) - nsec_of (server_received_at s d))\<bar> \<le> 1
     \<and> \<bar>td_server_client_delay td - (uint now - nsec_of (server_sent_at s d))\<bar> \<le> 1
     \<and> warnings = []
     \<and> td_rtt td = word_of_int (td_client_server_delay td + td_internal_delay td + td_server_client_delay td)"
proof -
  have "word_of_int (sint b - sint a + (sint c - sint b) + (sint now - sint c)) = now - a" for a b c :: u64
    by (simp add: wi_hom_syms)
  then have "td_rtt td = word_of_int (td_client_server_delay td + td_internal_delay td + td_server_client_delay td)"
    using assms(9) by (auto simp: computeTimeData_def Let_def)
  then show ?thesis
    using server_reflects.reply_delays [OF assms(1-8)] by (simp add: assms(9))
qed

theorem round_trip_delays_witness:
  "\<bar>td_client_server_delay (fst (computeTimeData 1700000000000000500 (reply_packet (reply_datagram (test_datagram 7 42)))))\<bar> \<le> 1"
proof -
  let ?d = "test_datagram 7 42" and ?r = "reply_datagram (test_datagram 7 42)"
  obtain td warnings where td: "computeTimeData 1700000000000000500 (reply_packet ?r) = (td, warnings)" by fastforce
  have n: "(42 :: nat) \<le> 42" "42 \<le> TST_PKT_SIZE" "1700000000000000500 \<le> MAXINT64"
    by (simp_all add: TST_PKT_SIZE_def MAXINT64_def)
  have d: "in_payload ?d = take 42 (client_packet_bytes (sender_packet 7 (next_reading one_host)))"
    by (simp add: test_datagram_def)
  have r: "in_payload ?r = answer sample_server ?d" by (simp add: reply_datagram_def)
  have "nsec_of (server_received_at sample_server ?d) = 1700000000000000000"
    "nsec_of (next_reading one_host) = 1700000000000000000"
    by (simp_all add: nsec_of_def one_host_simps server_received_at_def kernel_time_def test_datagram_def
        get_kernel_timestamp_def receive_time_def no_kernel_time_def sample_server_def)
  with round_trip_delays [OF n(1,2) d r sample_clock_ok(3,1,2) n(3) td] show ?thesis by (simp add: td)
qed

text \<open>
  C35: The command line accepts a payload length of 1473, but such a packet is never measured: the client
  sends one byte more than its packet has, the server finds the datagram too long for its buffer, prints
  so and sends nothing.
\<close>

theorem payload_1473_unanswered:
  assumes "sendPacket os idx 1473 (e, c) = (sent, e', c')" and "remote_address_info c = [host]"
    and "os_sendmsg os (se_sends e) = None" and "ev_recv ev = Recv_msg d"
    and "network c' = network c @ [(host, in_payload d)]"
  shows "in_payload d = client_packet_bytes (sender_packet idx (next_reading c)) @ [os_beyond os 0]
     \<and> listen_body env ev s =
         (None, s\<lparr>sv_stdout := sv_stdout s @ ''Datagram too large for buffer: truncated'' @ [CHR 0x0A]\<rparr>)
     \<and> payload_len_check 1473"
proof -
  let ?p = "client_packet_bytes (sender_packet idx (next_reading c))"
  have l: "length ?p = 1472"
    using length_client_packet_bytes [OF sender_packet_wf, of idx "next_reading c"] by (simp add: TST_PKT_SIZE_def)
  have "network c' = network c @ [(host, iov_read (os_beyond os) ?p 1473)]"
    using assms(1-3) by (auto simp: sendPacket_def craftSenderPacket_eq Let_def)
  then have d: "in_payload d = ?p @ [os_beyond os 0]"
    using assms(5) l by (simp add: iov_read_def)
  then have "TST_PKT_SIZE < length (in_payload d)" using l by (simp add: TST_PKT_SIZE_def)
  from listen_body_truncated [OF assms(4) this] d show ?thesis by (simp add: payload_len_check_def MIN_PAYLOAD_LEN_def MAX_PAYLOAD_LEN_def)
qed

theorem payload_1473_unanswered_witness:
  "\<exists>d s'. length (in_payload d) = 1473
     \<and> listen_body sample_env \<lparr>ev_recv = Recv_msg d, ev_send_error = None\<rparr> sample_server = (None, s')
     \<and> sv_network s' = []"
proof -
  obtain sent e' c' where s: "sendPacket demo_os 7 1473 (sample_sender_env, one_host) = (sent, e', c')" by (metis prod.exhaust)
  let ?b = "iov_read (os_beyond demo_os) (client_packet_bytes (sender_packet 7 (next_reading one_host))) 1473"
  let ?d = "\<lparr>in_payload = ?b, in_name = [], in_control = []\<rparr>"
  have ok: "os_sendmsg demo_os k = None" for k by (simp add: demo_os_def)
  have net: "network c' = network one_host @ [([1], in_payload ?d)]"
    using s one_host_simps(1) ok by (auto simp: sendPacket_def craftSenderPacket_eq Let_def)
  have "ev_recv \<lparr>ev_recv = Recv_msg ?d, ev_send_error = None\<rparr> = Recv_msg ?d" by simp
  note p = payload_1473_unanswered [OF s one_host_simps(1) ok this net, of sample_env sample_server]
  have "length (in_payload ?d) = 1473" "sv_network sample_server = []" by (simp_all add: sample_server_def)
  then show ?thesis
    by (intro exI conjI) (assumption, rule p [THEN conjunct2, THEN conjunct1], simp)
qed

section \<open>From the wire to the statistics\<close>

text \<open>The four observations of a packet make one entry, whatever their order.\<close>

lemma four_observations_entry:
  assumes perm: "mset obss = {#QEDObservation CLIENT_SEND cs i m, QEDObservation SERVER_SEND ss i n,
      QEDObservation SERVER_RECEIVE sr i n, QEDObservation CLIENT_RECEIVE cr i n#}"
    and empty: "rl_observations (raw_data_list c) = []"
  obtains r where "rl_observations (raw_data_list (fold process_observation obss c)) = [r]"
    "client_send_epoch_nanoseconds r = cs" "server_receive_epoch_nanoseconds r = sr"
    "server_send_epoch_nanoseconds r = ss" "client_receive_epoch_nanoseconds r = cr"
proof -
  let ?four = "[QEDObservation CLIENT_SEND cs i m, QEDObservation SERVER_SEND ss i n,
      QEDObservation SERVER_RECEIVE sr i n, QEDObservation CLIENT_RECEIVE cr i n]"
  let ?c = "fold process_observation obss c"
  have perm': "mset ?four = mset obss" using perm by simp
  then have ids: "packet_id ` set obss = {i}" by (simp add: mset_eq_setD [OF perm', symmetric] QEDObservation_def)
  have times: "last_time pt i obss = last_time pt i ?four" for pt
    by (rule last_time_perm [OF perm', symmetric]) (simp add: QEDObservation_def)
  have four: "last_time CLIENT_SEND i ?four = cs" "last_time SERVER_SEND i ?four = ss"
    "last_time SERVER_RECEIVE i ?four = sr" "last_time CLIENT_RECEIVE i ?four = cr"
    by (simp_all add: last_time_def QEDObservation_def)
  note joined = fold_process_joined [OF empty, of obss]
  obtain r where r: "entries (rl_observations (raw_data_list ?c)) i = Some r"
    using joined [of i] ids by (cases "entries (rl_observations (raw_data_list ?c)) i") (auto simp: joined_def)
  have "distinct (ids ?c)"
  proof -
    have "distinct (ids (fold process_observation obss d)) = distinct (ids d)" for d :: "'a client"
      by (induction obss arbitrary: d) (simp_all add: process_observation_ids)
    with empty show ?thesis by (simp add: ids_def)
  qed
  moreover have "set (ids ?c) = {i}"
  proof -
    have "j \<in> set (ids ?c) \<longleftrightarrow> j = i" for j
      using joined [of j] ids entries_None [of "rl_observations (raw_data_list ?c)" j]
      by (cases "entries (rl_observations (raw_data_list ?c)) j") (auto simp: joined_def ids_def)
    then show ?thesis by blast
  qed
  ultimately have "length (ids ?c) = 1" using distinct_card [of "ids ?c"] by simp
  then obtain r' where r': "rl_observations (raw_data_list ?c) = [r']"
    unfolding ids_def by (auto simp: length_Suc_conv)
  with r have "r' = r" by (auto simp: entries_def split: if_splits)
  moreover have "client_send_epoch_nanoseconds r = cs" "server_receive_epoch_nanoseconds r = sr"
    "server_send_epoch_nanoseconds r = ss" "client_receive_epoch_nanoseconds r = cr"
    using joined [of i] r by (simp_all add: joined_def times four)
  ultimately show ?thesis using that r' by blast
qed

lemma all_stats_fold_process: "all_stats (fold process_observation obss c) = all_stats c"
  by (induction obss arbitrary: c) simp_all

lemma check_complete_entry:
  assumes "rl_observations (raw_data_list c) = [r]" and "entry_complete r"
  shows "rl_observations (raw_data_list (check_if_oldest_packet_should_be_processed sqa c)) = []"
    and "all_stats (check_if_oldest_packet_should_be_processed sqa c) = all_stats (aggregateRawData sqa r c)"
proof -
  have "all_stats (aggregateRawData sqa r (tick c)) = all_stats (aggregateRawData sqa r c)"
    by (rule aggregate_stats_cong) (simp add: all_stats_def tick_def)
  then show "rl_observations (raw_data_list (check_if_oldest_packet_should_be_processed sqa c)) = []"
    "all_stats (check_if_oldest_packet_should_be_processed sqa c) = all_stats (aggregateRawData sqa r c)"
    by (simp_all add: check_oldest_eq assms all_stats_def)
qed

text \<open>
  C3: From the wire to the statistics: the client's packet is answered by the server, and its own observation
  of the send and the three it draws from the answer reach the collator in any order. When the clock
  readings involved are in causal order, the collator makes one entry of them, retires it at its next check,
  and adds to the statistics the true forward, internal and backward delay, each to within a
  nanosecond, and as round-trip time the sum of the forward and the backward one (left out only when 0).
\<close>

theorem measured_delays:
  assumes "42 \<le> n" and "n \<le> TST_PKT_SIZE"
    and "in_payload d = take n (client_packet_bytes (sender_packet idx t))" and "in_payload r = answer s d"
    and "clock_ok t" and "clock_ok (server_received_at s d)" and "clock_ok (server_sent_at s d)"
    and "1 < nsec_of t" and "nsec_of t \<le> nsec_of (server_received_at s d)"
    and "nsec_of (server_received_at s d) \<le> nsec_of (server_sent_at s d)"
    and "nsec_of (server_sent_at s d) \<le> uint now"
    and "mset obss = mset (QEDObservation CLIENT_SEND (timestamp_to_nsec (timespec_to_timestamp t)) idx m #
           reply_observations (reply_packet r) (int n) now)"
    and "rl_observations (raw_data_list c) = []"
    and "check_if_oldest_packet_should_be_processed sqa (fold process_observation obss c) = c'"
  shows "rl_observations (raw_data_list c') = [] \<and>
    (\<exists>fwd bwd inner rtt.
       all_stats c' =
         (if nsec_of rtt = 0 then stats_RTT c else sqa_stats_add_sample sqa (stats_RTT c) rtt,
          sqa_stats_add_sample sqa (stats_internal c) inner,
          sqa_stats_add_sample sqa (stats_client_server c) fwd,
          sqa_stats_add_sample sqa (stats_server_client c) bwd)
       \<and> \<bar>nsec_of fwd - (nsec_of (server_received_at s d) - nsec_of t)\<bar> \<le> 1
       \<and> \<bar>nsec_of inner - (nsec_of (server_sent_at s d) - nsec_of (server_received_at s d))\<bar> \<le> 1
       \<and> \<bar>nsec_of bwd - (uint now - nsec_of (server_sent_at s d))\<bar> \<le> 1
       \<and> nsec_of rtt = nsec_of fwd + nsec_of bwd)"
proof -
  let ?cs = "timestamp_to_nsec (timespec_to_timestamp t)"
  let ?sr = "timestamp_to_nsec (timespec_to_timestamp (server_received_at s d))"
  let ?ss = "timestamp_to_nsec (timespec_to_timestamp (server_sent_at s d))"
  note f = server_reflects.reply_fields [OF assms(1-4)]
  have "mset obss = {#QEDObservation CLIENT_SEND ?cs idx m, QEDObservation SERVER_SEND ?ss idx (int n),
      QEDObservation SERVER_RECEIVE ?sr idx (int n), QEDObservation CLIENT_RECEIVE now idx (int n)#}"
    using assms(12) by (simp add: reply_observations_def Let_def f)
  from four_observations_entry [OF this assms(13)] obtain e
    where e: "rl_observations (raw_data_list (fold process_observation obss c)) = [e]"
      and times: "client_send_epoch_nanoseconds e = ?cs" "server_receive_epoch_nanoseconds e = ?sr"
        "server_send_epoch_nanoseconds e = ?ss" "client_receive_epoch_nanoseconds e = now" by blast
  note near = clock_nsec [OF assms(5)] clock_nsec [OF assms(6)] clock_nsec [OF assms(7)]
  have le: "?cs \<le> ?sr" "?sr \<le> ?ss" using clock_nsec_mono assms(5-7,9,10) by blast+
  have le': "?ss \<le> now" using near(3) assms(11) by (auto simp: word_le_def)
  have "0 < uint ?cs" using near(1) assms(8) by auto
  then have pos: "0 < ?cs" by (simp add: word_less_def)
  then have "entry_complete e" using le le' by (auto simp: entry_complete_def times)
  note complete = this
  let ?c = "fold process_observation obss c"
  from aggregate_ordered [OF complete times le le', of sqa ?c] obtain fwd bwd inner rtt
    where stats: "all_stats (aggregateRawData sqa e ?c) =
       (if nsec_of rtt = 0 then stats_RTT ?c else sqa_stats_add_sample sqa (stats_RTT ?c) rtt,
        sqa_stats_add_sample sqa (stats_internal ?c) inner, sqa_stats_add_sample sqa (stats_client_server ?c) fwd,
        sqa_stats_add_sample sqa (stats_server_client ?c) bwd)"
      and d: "nsec_of fwd = uint ?sr - uint ?cs" "nsec_of bwd = uint now - uint ?ss" "nsec_of inner = uint ?ss - uint ?sr"
        "nsec_of rtt = nsec_of fwd + nsec_of bwd" by blast
  have same: "stats_RTT ?c = stats_RTT c" "stats_internal ?c = stats_internal c"
    "stats_client_server ?c = stats_client_server c" "stats_server_client ?c = stats_server_client c"
    using all_stats_fold_process [of obss c] unfolding all_stats_def by simp_all
  have "\<bar>nsec_of fwd - (nsec_of (server_received_at s d) - nsec_of t)\<bar> \<le> 1"
    "\<bar>nsec_of inner - (nsec_of (server_sent_at s d) - nsec_of (server_received_at s d))\<bar> \<le> 1"
    "\<bar>nsec_of bwd - (uint now - nsec_of (server_sent_at s d))\<bar> \<le> 1"
    using near unfolding d by auto
  moreover have "all_stats c' =
       (if nsec_of rtt = 0 then stats_RTT c else sqa_stats_add_sample sqa (stats_RTT c) rtt,
        sqa_stats_add_sample sqa (stats_internal c) inner, sqa_stats_add_sample sqa (stats_client_server c) fwd,
        sqa_stats_add_sample sqa (stats_server_client c) bwd)"
    using check_complete_entry(2) [OF e complete, of sqa] stats unfolding assms(14) same by simp
  moreover have "rl_observations (raw_data_list c') = []"
    using check_complete_entry(1) [OF e complete, of sqa] unfolding assms(14) .
  ultimately show ?thesis using d(4) by blast
qed

theorem measured_delays_witness:
  "rl_observations (raw_data_list (check_if_oldest_packet_should_be_processed no_stats
     (fold process_observation
       (reply_observations (reply_packet (reply_datagram (test_datagram 7 42))) 42 1700000000000000500 @
        [QEDObservation CLIENT_SEND (timestamp_to_nsec (timespec_to_timestamp (next_reading one_host))) 7 42]) one_host))) = []"
proof -
  let ?d = "test_datagram 7 42" and ?r = "reply_datagram (test_datagram 7 42)"
  have n: "(42 :: nat) \<le> 42" "42 \<le> TST_PKT_SIZE" by (simp_all add: TST_PKT_SIZE_def)
  have d: "in_payload ?d = take 42 (client_packet_bytes (sender_packet 7 (next_reading one_host)))"
    by (simp add: test_datagram_def)
  have r: "in_payload ?r = answer sample_server ?d" by (simp add: reply_datagram_def)
  have times: "1 < nsec_of (next_reading one_host)" "nsec_of (next_reading one_host) \<le> nsec_of (server_received_at sample_server ?d)"
    "nsec_of (server_received_at sample_server ?d) \<le> nsec_of (server_sent_at sample_server ?d)"
    "nsec_of (server_sent_at sample_server ?d) \<le> uint (1700000000000000500 :: u64)"
    by (simp_all add: nsec_of_def one_host_simps server_received_at_def server_sent_at_def kernel_time_def test_datagram_def
        get_kernel_timestamp_def receive_time_def send_time_def no_kernel_time_def sample_server_def)
  have "rl_observations (raw_data_list one_host) = []" by (simp add: one_host_def demo_client_def client_init_def)
  moreover have "mset (reply_observations (reply_packet ?r) (int 42) 1700000000000000500 @
      [QEDObservation CLIENT_SEND (timestamp_to_nsec (timespec_to_timestamp (next_reading one_host))) 7 42]) =
    mset (QEDObservation CLIENT_SEND (timestamp_to_nsec (timespec_to_timestamp (next_reading one_host))) 7 42 #
      reply_observations (reply_packet ?r) (int 42) 1700000000000000500)" by simp
  ultimately show ?thesis
    using measured_delays [OF n d r sample_clock_ok(3,1,2) times _ _ refl, THEN conjunct1] by (metis of_nat_numeral)
qed

end
