(* ===== verification/Calendar.thy ===== *)
theory Calendar
  imports Binary64
begin

text \<open>
  The calendar functions of the C library that the report of the client uses: \<^verbatim>\<open>gmtime\<close>, and \<^verbatim>\<open>strftime\<close>
  with the format \<^verbatim>\<open>%Y-%m-%dT%H:%M:%S\<close>. A date is found by counting off whole years from 1600 and whole
  months from January, which covers every time a 64-bit nanosecond count can hold (the years 1677 to
  2262). The lemmas show that the fields of a date are in range and that the formula POSIX gives for
  the seconds since the Epoch maps the date back to the time it came from.
\<close>

section \<open>Dates\<close>

definition leap_year :: "int \<Rightarrow> bool" where
  "leap_year y \<longleftrightarrow> y mod 4 = 0 \<and> (y mod 100 \<noteq> 0 \<or> y mod 400 = 0)"

definition year_length :: "int \<Rightarrow> int" where
  "year_length y = (if leap_year y then 366 else 365)"

definition month_lengths :: "int \<Rightarrow> int list" where
  "month_lengths y = [31, if leap_year y then 29 else 28, 31, 30, 31, 30, 31, 31, 30, 31, 30, 31]"

text \<open>The year of a day counted from the start of a year, and its day of the year.\<close>

function year_from :: "int \<Rightarrow> int \<Rightarrow> int \<times> int" where
  "year_from y d = (if d < year_length y then (y, d) else year_from (y + 1) (d - year_length y))"
  by auto
termination
  by (relation "measure (\<lambda>(y, d). nat d)") (simp_all add: year_length_def, auto split: if_splits)

declare year_from.simps [simp del]

fun month_from :: "int \<Rightarrow> int list \<Rightarrow> int \<Rightarrow> int \<times> int" where
  "month_from m [] d = (m, d)"
| "month_from m (n # ns) d = (if d < n then (m, d) else month_from (m + 1) ns (d - n))"

record tm =
  tm_sec :: int
  tm_min :: int
  tm_hour :: int
  tm_mday :: int
  tm_mon :: int
  tm_year :: int
  tm_yday :: int

text \<open>\<open>135140\<close> is the number of days from 1 January 1600 to 1 January 1970.\<close>

definition gmtime :: "int \<Rightarrow> tm" where
  "gmtime t =
     (let s = t mod 86400;
          (y, yd) = year_from 1600 (t div 86400 + 135140);
          (m, md) = month_from 0 (month_lengths y) yd
      in \<lparr>tm_sec = s mod 60, tm_min = s div 60 mod 60, tm_hour = s div 3600, tm_mday = md + 1, tm_mon = m,
          tm_year = y - 1900, tm_yday = yd\<rparr>)"

text \<open>Two decimal digits, and the whole format.\<close>

definition dec2 :: "int \<Rightarrow> string" where
  "dec2 n = pad_zeros 2 (dec (nat n))"

definition strftime_iso :: "tm \<Rightarrow> string" where
  "strftime_iso t =
     dec_int (tm_year t + 1900) @ ''-'' @ dec2 (tm_mon t + 1) @ ''-'' @ dec2 (tm_mday t) @ ''T'' @
     dec2 (tm_hour t) @ '':'' @ dec2 (tm_min t) @ '':'' @ dec2 (tm_sec t)"

section \<open>Seconds since the Epoch\<close>

text \<open>The formula of POSIX (base definitions, 4.16), with division rounding down.\<close>

definition epoch_seconds :: "tm \<Rightarrow> int" where
  "epoch_seconds t =
     tm_sec t + tm_min t * 60 + tm_hour t * 3600 + tm_yday t * 86400 + (tm_year t - 70) * 31536000 +
     ((tm_year t - 69) div 4) * 86400 - ((tm_year t - 1) div 100) * 86400 + ((tm_year t + 299) div 400) * 86400"

definition tm_ok :: "tm \<Rightarrow> bool" where
  "tm_ok t \<longleftrightarrow> 0 \<le> tm_sec t \<and> tm_sec t < 60 \<and> 0 \<le> tm_min t \<and> tm_min t < 60 \<and> 0 \<le> tm_hour t \<and> tm_hour t < 24 \<and>
     0 \<le> tm_mon t \<and> tm_mon t < 12 \<and> 1 \<le> tm_mday t \<and>
     tm_mday t \<le> month_lengths (tm_year t + 1900) ! nat (tm_mon t) \<and>
     tm_yday t = sum_list (take (nat (tm_mon t)) (month_lengths (tm_year t + 1900))) + tm_mday t - 1"

text \<open>The days from 1 January 1970 to the start of a year.\<close>

definition year_start :: "int \<Rightarrow> int" where
  "year_start y = (y - 1970) * 365 + (y - 1969) div 4 - (y - 1901) div 100 + (y - 1601) div 400"

lemma div_step:
  fixes x n :: int
  assumes "0 < n"
  shows "x div n = (x - 1) div n + (if x mod n = 0 then 1 else 0)"
proof -
  define q r where "q = (x - 1) div n" and "r = (x - 1) mod n"
  have x: "x = n * q + (r + 1)" and r: "0 \<le> r" "r < n"
    using assms mult_div_mod_eq [of n "x - 1"] by (simp_all add: q_def r_def)
  show ?thesis
  proof (cases "r + 1 = n")
    case True
    then have "x = n * (q + 1)" using x by (simp add: algebra_simps)
    then have "x div n = q + 1" "x mod n = 0" using assms by simp_all
    then show ?thesis by (simp add: q_def)
  next
    case False
    then have "r + 1 < n" using r by simp
    then have "x div n = q" "x mod n = r + 1"
      using int_div_pos_eq [OF x] int_mod_pos_eq [OF x] r by simp_all
    then show ?thesis using r by (simp add: q_def)
  qed
qed

lemma shift_mod_zero: "n dvd c \<Longrightarrow> (y - c) mod n = 0 \<longleftrightarrow> y mod n = 0" for y n c :: int
  unfolding mod_eq_0_iff_dvd by (rule dvd_diff_left_iff)

lemma leap_count:
  fixes x a b c :: int
  assumes "r \<longrightarrow> q" and "q \<longrightarrow> p"
  shows "(x + 1) * 365 + (a + (if p then 1 else 0)) - (b + (if q then 1 else 0)) + (c + (if r then 1 else 0)) =
    x * 365 + a - b + c + (if p \<and> (\<not> q \<or> r) then 366 else 365)"
  using assms by (cases p; cases q; cases r) simp_all

lemma year_start_step: "year_start (y + 1) = year_start y + year_length y"
proof -
  have "(y - 1968) mod 4 = 0 \<longleftrightarrow> y mod 4 = 0" "(y - 1900) mod 100 = 0 \<longleftrightarrow> y mod 100 = 0"
    "(y - 1600) mod 400 = 0 \<longleftrightarrow> y mod 400 = 0"
    by (rule shift_mod_zero; simp)+
  moreover have minus_one: "y - 1968 - 1 = y - 1969" "y - 1900 - 1 = y - 1901" "y - 1600 - 1 = y - 1601" by simp_all
  ultimately have "(y - 1968) div 4 = (y - 1969) div 4 + (if y mod 4 = 0 then 1 else 0)"
    "(y - 1900) div 100 = (y - 1901) div 100 + (if y mod 100 = 0 then 1 else 0)"
    "(y - 1600) div 400 = (y - 1601) div 400 + (if y mod 400 = 0 then 1 else 0)"
    using div_step [of 4 "y - 1968"] div_step [of 100 "y - 1900"] div_step [of 400 "y - 1600"]
    by (simp_all only: minus_one zero_less_numeral simp_thms)
  moreover have "y mod 400 = 0 \<longrightarrow> y mod 100 = 0" "y mod 100 = 0 \<longrightarrow> y mod 4 = 0"
    using dvd_trans [of 100 400 y] dvd_trans [of 4 100 y] by (simp_all add: mod_eq_0_iff_dvd)
  moreover have "y + 1 - 1970 = y - 1970 + 1" "y + 1 - 1969 = y - 1968" "y + 1 - 1901 = y - 1900" "y + 1 - 1601 = y - 1600"
    by simp_all
  ultimately show ?thesis
    unfolding year_start_def year_length_def leap_year_def by (simp only: leap_count)
qed

lemma year_length_pos [simp]: "0 < year_length y"
  by (simp add: year_length_def)

lemma year_from_correct:
  assumes "year_from y d = (y', d')" and "0 \<le> d"
  shows "0 \<le> d'" and "d' < year_length y'" and "year_start y' + d' = year_start y + d" and "y \<le> y'"
  using assms
proof (atomize (full), induction y d arbitrary: y' d' rule: year_from.induct)
  case (1 y d)
  show ?case
  proof (cases "d < year_length y")
    case True
    with "1.prems" show ?thesis by (auto simp: year_from.simps)
  next
    case False
    with "1.prems" have "year_from (y + 1) (d - year_length y) = (y', d')" by (simp add: year_from.simps [of y d])
    from "1.IH" [OF False, of y' d'] this False show ?thesis by (auto simp: year_start_step)
  qed
qed

lemma month_from_correct:
  assumes "0 \<le> d" and "d < sum_list ns"
  shows "\<exists>k < length ns. month_from m ns d = (m + int k, d - sum_list (take k ns)) \<and>
    sum_list (take k ns) \<le> d \<and> d - sum_list (take k ns) < ns ! k"
  using assms
proof (induction m ns d rule: month_from.induct)
  case (2 m n ns d)
  show ?case
  proof (cases "d < n")
    case True
    with "2.prems" show ?thesis by (intro exI [of _ 0]) simp
  next
    case False
    with "2.prems" have "0 \<le> d - n" "d - n < sum_list ns" by simp_all
    from "2.IH" [OF False this] obtain k where "k < length ns"
      "month_from (m + 1) ns (d - n) = (m + 1 + int k, d - n - sum_list (take k ns))"
      "sum_list (take k ns) \<le> d - n" "d - n - sum_list (take k ns) < ns ! k" by blast
    with False show ?thesis by (intro exI [of _ "Suc k"]) simp
  qed
qed simp

lemma sum_month_lengths: "sum_list (month_lengths y) = year_length y"
  by (simp add: month_lengths_def year_length_def)

lemma length_month_lengths [simp]: "length (month_lengths y) = 12"
  by (simp add: month_lengths_def)

section \<open>The date of a time\<close>

lemma gmtime_correct:
  assumes "- 135140 * 86400 \<le> t"
  shows "tm_ok (gmtime t)" and "epoch_seconds (gmtime t) = t"
    and "1600 \<le> tm_year (gmtime t) + 1900" and "year_start (tm_year (gmtime t) + 1900) \<le> t div 86400"
proof -
  define s where "s = t mod 86400"
  obtain y yd where y: "year_from 1600 (t div 86400 + 135140) = (y, yd)" by fastforce
  have "0 \<le> t div 86400 + 135140" using assms by linarith
  note c = year_from_correct [OF y this]
  from month_from_correct [of yd "month_lengths y" 0] c obtain k where k: "k < 12"
    "month_from 0 (month_lengths y) yd = (int k, yd - sum_list (take k (month_lengths y)))"
    "sum_list (take k (month_lengths y)) \<le> yd" "yd - sum_list (take k (month_lengths y)) < month_lengths y ! k"
    by (auto simp: sum_month_lengths)
  have g: "gmtime t = \<lparr>tm_sec = s mod 60, tm_min = s div 60 mod 60, tm_hour = s div 3600,
      tm_mday = yd - sum_list (take k (month_lengths y)) + 1, tm_mon = int k, tm_year = y - 1900, tm_yday = yd\<rparr>"
    by (simp add: gmtime_def y k s_def Let_def)
  have s: "0 \<le> s" "s < 86400" by (simp_all add: s_def)
  then have "0 \<le> s div 3600" "s div 3600 < 24" by simp_all
  with k show "tm_ok (gmtime t)" by (simp add: g tm_ok_def)
  have hms: "s mod 60 + s div 60 mod 60 * 60 + s div 3600 * 3600 = s"
  proof -
    have "s div 60 div 60 = s div 3600" by (simp add: zdiv_zmult2_eq [symmetric])
    then have "s div 3600 * 60 + s div 60 mod 60 = s div 60" using div_mult_mod_eq [of "s div 60" 60] by simp
    then have "(s div 3600 * 60 + s div 60 mod 60) * 60 + s mod 60 = s" using div_mult_mod_eq [of s 60] by simp
    then show ?thesis by (simp add: algebra_simps)
  qed
  have "year_start 1600 = - 135140" by (simp add: year_start_def)
  with c have yd: "year_start y + yd = t div 86400" by simp
  have "epoch_seconds (gmtime t) = s + (year_start y + yd) * 86400"
    unfolding g using hms by (simp add: epoch_seconds_def year_start_def algebra_simps)
  then show "epoch_seconds (gmtime t) = t" using div_mult_mod_eq [of t 86400] by (simp add: yd s_def)
  show "1600 \<le> tm_year (gmtime t) + 1900" using c by (simp add: g)
  show "year_start (tm_year (gmtime t) + 1900) \<le> t div 86400" using c yd by (simp add: g)
qed

lemma div_bracket:
  fixes x n :: int
  assumes "0 < n"
  shows "\<exists>q. x div n = q \<and> x - n < n * q \<and> n * q \<le> x"

proof (intro exI conjI)
  show "x div n = x div n" ..
  show "x - n < n * (x div n)" "n * (x div n) \<le> x"
    unfolding minus_mod_eq_mult_div [of x n, symmetric] using pos_mod_sign [OF assms, of x] pos_mod_bound [OF assms, of x] by simp_all
qed

lemma year_bound_arith:
  fixes y a b c :: int
  assumes "(y - 1970) * 365 + a - b + c \<le> 106751" and "y - 1973 < 4 * a" and "100 * b \<le> y - 1901" and "y - 2001 < 400 * c"
  shows "y < 2263"
proof (rule ccontr)
  assume neg: "\<not> ?thesis"
  define k where "k = y - 2263"
  have y: "y = k + 2263" and "0 \<le> k" using neg by (simp_all add: k_def)
  have "106945 + 365 * k + a - b + c \<le> 106751" using assms(1) by (simp add: y)
  moreover have "290 + k < 4 * a" "100 * b \<le> k + 362" "262 + k < 400 * c" using assms(2-) by (simp_all add: y)
  ultimately show False using \<open>0 \<le> k\<close> by linarith
qed

lemma gmtime_year_bound:
  assumes "- 135140 * 86400 \<le> t" and "t \<le> 9223372036"
  shows "tm_year (gmtime t) + 1900 < 2263"
proof -
  define y where "y = tm_year (gmtime t) + 1900"
  have "t div 86400 \<le> 9223372036 div 86400" using assms(2) by (intro zdiv_mono1) simp_all
  also have "\<dots> = 106751" by simp
  finally have "year_start y \<le> 106751" using gmtime_correct(4) [OF assms(1)] unfolding y_def by (rule order_trans [rotated])
  moreover obtain a where a: "(y - 1969) div 4 = a" "y - 1973 < 4 * a" using div_bracket [of 4 "y - 1969"] by auto
  moreover obtain b where b: "(y - 1901) div 100 = b" "100 * b \<le> y - 1901" using div_bracket [of 100 "y - 1901"] by auto
  moreover obtain c where c: "(y - 1601) div 400 = c" "y - 2001 < 400 * c" using div_bracket [of 400 "y - 1601"] by auto
  ultimately have "(y - 1970) * 365 + a - b + c \<le> 106751" by (simp only: year_start_def)
  from year_bound_arith [OF this a(2) b(2) c(2)] show ?thesis unfolding y_def .
qed

lemma length_dec_less: "n < 10 ^ k \<Longrightarrow> 0 < k \<Longrightarrow> length (dec n) \<le> k"
proof (induction k arbitrary: n)
  case (Suc k)
  show ?case
  proof (cases "n < 10")
    case True
    then show ?thesis by (simp add: dec.simps)
  next
    case False
    then have "0 < k" "n div 10 < 10 ^ k" using Suc.prems by (auto intro: gr0I simp: less_mult_imp_div_less mult.commute)
    with Suc.IH have "length (dec (n div 10)) \<le> k" by blast
    with False show ?thesis by (simp add: dec.simps [of n])
  qed
qed simp

lemma length_dec2: "0 \<le> n \<Longrightarrow> n < 100 \<Longrightarrow> length (dec2 n) = 2"
  using length_dec_less [of "nat n" 2] by (simp add: dec2_def pad_zeros_def)

lemma month_length_bound: "k < 12 \<Longrightarrow> month_lengths y ! k \<le> 31"
  by (simp add: month_lengths_def numeral_nat less_Suc_eq) auto

lemma length_strftime_iso:
  assumes "tm_ok t" and "0 \<le> tm_year t + 1900" and "tm_year t + 1900 < 10000"
  shows "length (strftime_iso t) \<le> 19"
proof -
  have "tm_mday t \<le> 31" using assms(1) month_length_bound [of "nat (tm_mon t)"]
    by (fastforce simp: tm_ok_def intro: order_trans)
  then show ?thesis
    using assms length_dec_less [of "nat (tm_year t + 1900)" 4]
    by (simp add: strftime_iso_def length_dec2 tm_ok_def dec_int_def)
qed

end
