(* ===== verification/Report.thy ===== *)
theory Report
  imports Setup Sender Calendar "HOL-Library.Char_ord" "HOL-Library.List_Lexorder"
begin

text \<open>
  What the client reports at the end of a run: \<^verbatim>\<open>printStats\<close>, \<^verbatim>\<open>JsonLog\<close> with \<^verbatim>\<open>td_to_json\<close> and
  \<^verbatim>\<open>map_tos_to_traffic_class\<close> of \<^verbatim>\<open>src/client/Client.cpp\<close>, and the end of \<^verbatim>\<open>main\<close> that calls them. The
  queries of the qoo-c statistics and of the t-digest inside them are the fields of \<^verbatim>\<open>sqa_getters\<close>, an
  argument; the values they return are finite. The nlohmann library appears as the values that the code
  builds with it; writing a value as text, which throws on a string that is no valid UTF-8, and the opening of
  the file are arguments.
\<close>

section \<open>Statistics library\<close>

text \<open>
  A digest: the \<open>merged_nodes\<close> first elements of the two arrays. The weights are kept as the
  JSON numbers they convert to.
\<close>

datatype json =
    JString string
  | JInt int
  | JFloat double
  | JArray "json list"
  | JObject "(string \<times> json) list"

record td_histogram =
  td_compression :: double
  td_merged_nodes :: nat
  td_nodes_mean :: "double list"
  td_nodes_weight :: "json list"

record 'st sqa_getters =
  sqa_get_loss_percentage :: "'st \<Rightarrow> double"
  sqa_get_mean :: "'st \<Rightarrow> double"
  sqa_get_median :: "'st \<Rightarrow> double"
  sqa_get_min_as_seconds :: "'st \<Rightarrow> double"
  sqa_get_max_as_seconds :: "'st \<Rightarrow> double"
  sqa_get_standard_deviation :: "'st \<Rightarrow> double"
  sqa_get_variance :: "'st \<Rightarrow> double"
  sqa_get_percentile :: "'st \<Rightarrow> double \<Rightarrow> double"
  sqa_empirical_distribution :: "'st \<Rightarrow> td_histogram"
  td_compress :: "td_histogram \<Rightarrow> td_histogram"

section \<open>Statistics as text\<close>

text \<open>\<^verbatim>\<open>std::left << std::setw(10)\<close>.\<close>

definition pad_right :: "nat \<Rightarrow> string \<Rightarrow> string" where
  "pad_right n s = s @ replicate (n - length s) (CHR '' '')"

definition stat_line :: "string \<Rightarrow> ('st \<Rightarrow> double) \<Rightarrow> 'st client \<Rightarrow> string" where
  "stat_line label func c =
     '' '' @ pad_right 10 label @ print_fixed (func (stats_RTT c)) @ '' s      '' @
     print_fixed (func (stats_client_server c)) @ '' s      '' @
     print_fixed (func (stats_server_client c)) @ '' s      '' @
     print_fixed (func (stats_internal c)) @ '' s'' @ [CHR 0x0A]"

definition printSummaryLine :: "string \<Rightarrow> ('st \<Rightarrow> double) \<Rightarrow> 'st client \<Rightarrow> 'st client" where
  "printSummaryLine label func c = print (stat_line label func c) c"

definition printPercentileLine :: "'st sqa_getters \<Rightarrow> string \<Rightarrow> double \<Rightarrow> 'st client \<Rightarrow> 'st client" where
  "printPercentileLine g label percentile c = print (stat_line label (\<lambda>st. sqa_get_percentile g st percentile) c) c"

text \<open>A duration in nanoseconds as seconds, in double arithmetic.\<close>

definition seconds_of_nsec :: "u64 \<Rightarrow> double" where
  "seconds_of_nsec d = d_div (d_of_int (uint d)) 1000000000"

definition printStats :: "'st sqa_api \<Rightarrow> 'st sqa_getters \<Rightarrow> int \<Rightarrow> 'st client \<Rightarrow> 'st client" where
  "printStats sqa g packets_sent c =
     (let c = print (''Time spent generating packets: '' @
                print_fixed (seconds_of_nsec (last_packet_sent_epoch_nanoseconds c - first_packet_sent_epoch_nanoseconds c)) @
                '' s'' @ [CHR 0x0A]) c;
          (now_ts, c) = now_timestamp c;
          c = print (''Total time elapsed: '' @
                print_fixed (seconds_of_nsec (timestamp_to_nsec now_ts - first_packet_sent_epoch_nanoseconds c)) @
                '' s'' @ [CHR 0x0A]) c;
          c = print (''Packets sent: '' @ dec_int packets_sent @ [CHR 0x0A]) c;
          c = print (''Packets lost: '' @ dec (unat (sqa_number_of_lost_packets sqa (stats_RTT c))) @ [CHR 0x0A]) c;
          c = print (''Packet loss: '' @ print_fixed (sqa_get_loss_percentage g (stats_RTT c)) @ ''%'' @ [CHR 0x0A]) c;
          c = print (''           RTT             FWD             BWD             Internal'' @ [CHR 0x0A]) c;
          c = printSummaryLine ''mean:'' (sqa_get_mean g) c;
          c = printSummaryLine ''median:'' (sqa_get_median g) c;
          c = printSummaryLine ''min:'' (sqa_get_min_as_seconds g) c;
          c = printSummaryLine ''max:'' (sqa_get_max_as_seconds g) c;
          c = printSummaryLine ''std:'' (sqa_get_standard_deviation g) c;
          c = printSummaryLine ''variance:'' (sqa_get_variance g) c;
          c = printPercentileLine g ''p95:'' 95 c;
          c = printPercentileLine g ''p99:'' 99 c
      in printPercentileLine g ''p99.9:'' (rnd (999 / 10)) c)"

section \<open>JSON values\<close>

text \<open>The members of an object are kept in the order of their keys; assignment replaces a member.\<close>

fun json_put :: "string \<Rightarrow> json \<Rightarrow> (string \<times> json) list \<Rightarrow> (string \<times> json) list" where
  "json_put k v [] = [(k, v)]"
| "json_put k v ((k', v') # kvs) =
     (if k < k' then (k, v) # (k', v') # kvs
      else if k = k' then (k, v) # kvs
      else (k', v') # json_put k v kvs)"

definition json_members :: "(string \<times> json) list \<Rightarrow> (string \<times> json) list" where
  "json_members kvs = fold (\<lambda>(k, v). json_put k v) kvs []"

definition json_object :: "(string \<times> json) list \<Rightarrow> json" where
  "json_object kvs = JObject (json_members kvs)"

fun json_get :: "json \<Rightarrow> string \<Rightarrow> json option" where
  "json_get (JObject kvs) k = map_of kvs k"
| "json_get _ k = None"

definition td_to_json :: "'st sqa_getters \<Rightarrow> td_histogram \<Rightarrow> json" where
  "td_to_json g histogram =
     (let h = td_compress g histogram
      in json_object
           [(''compression'', JFloat (td_compression h)),
            (''digest-centroid'',
             JArray (map (\<lambda>i. json_object [(''m'', JFloat (td_nodes_mean h ! i)), (''c'', td_nodes_weight h ! i)])
                      [0..<td_merged_nodes h]))])"

definition map_tos_to_traffic_class :: "u8 \<Rightarrow> string" where
  "map_tos_to_traffic_class t =
     (if t = 0 then ''BE'' else if t = 0x20 then ''BK'' else if t = 0x80 then ''VI''
      else if t = 0xA0 then ''VO'' else ''Unknown'')"

section \<open>The report\<close>

text \<open>
  The start time of the report. The count is read as a signed number of nanoseconds and cut to whole
  seconds; \<^verbatim>\<open>strftime\<close> needs room for the terminating null in its 80 bytes.
\<close>

definition first_sent_seconds :: "u64 \<Rightarrow> int" where
  "first_sent_seconds ns = (if sint ns < 0 then - ((- sint ns) div 1000000000) else sint ns div 1000000000)"

definition first_packet_sent_date :: "u64 \<Rightarrow> cxx_exn + string" where
  "first_packet_sent_date ns =
     (let microseconds = ns mod 1000;
          date = strftime_iso (gmtime (first_sent_seconds ns))
      in if length date + 1 > 80 then Inl (Runtime_error ''Error formatting date'')
         else let formatted_date = date @ ''.'' @ pad_zeros 6 (dec (unat microseconds)) @ ''Z''
              in if length formatted_date \<ge> 91 then Inl (Runtime_error ''Error formatting date with microseconds'')
                 else Inr formatted_date)"

definition sampling_pattern :: "client_args \<Rightarrow> json" where
  "sampling_pattern a =
     json_object
       [(''type'', JString ''Erlang-k''),
        (''mean'', JFloat (d_div (d_of_int (uint (ca_mean_inter_packet_delay_ms a))) 1000)),
        (''min'', JInt 0), (''max'', JFloat 10)]"

definition local_node :: "client_args \<Rightarrow> json" where
  "local_node a = json_object [(''ip'', JString ''localhost''), (''port'', JString (ca_local_port a))]"

definition remote_node :: "string \<Rightarrow> u16 \<Rightarrow> string \<Rightarrow> json" where
  "remote_node host port label =
     json_object [(''ip'', JString host), (''port'', JInt (uint port)), (''label'', JString label)]"

definition intermediate_nodes :: "client_args \<Rightarrow> json list" where
  "intermediate_nodes a =
     concat (map (\<lambda>i. [remote_node (ca_remote_hosts a ! i) (ca_remote_ports a ! i) ''1'',
                      remote_node (ca_remote_hosts a ! i) (ca_remote_ports a ! i) ''2''])
               [0..<length (ca_remote_hosts a)])"

definition quality_attenuation :: "'st sqa_api \<Rightarrow> 'st sqa_getters \<Rightarrow> string \<Rightarrow> 'st client \<Rightarrow> json" where
  "quality_attenuation sqa g t0 c =
     json_object
       [(''t0'', JString t0),
        (''duration'', JFloat (seconds_of_nsec (last_packet_received_epoch_nanoseconds c - first_packet_sent_epoch_nanoseconds c))),
        (''num_samples'', JInt (uint (sqa_number_of_samples sqa (stats_RTT c)))),
        (''num_lost_samples'', JInt (uint (sqa_number_of_lost_packets sqa (stats_RTT c)))),
        (''max'', JFloat (sqa_get_max_as_seconds g (stats_RTT c))),
        (''min'', JFloat (sqa_get_min_as_seconds g (stats_RTT c))),
        (''mean'', JFloat (sqa_get_mean g (stats_RTT c))),
        (''variance'', JFloat (sqa_get_variance g (stats_RTT c))),
        (''empirical_distribution'', td_to_json g (sqa_empirical_distribution g (stats_RTT c)))]"

definition logData :: "'st sqa_api \<Rightarrow> 'st sqa_getters \<Rightarrow> string \<Rightarrow> 'st client \<Rightarrow> json" where
  "logData sqa g t0 c =
     (let a = args c
      in json_object
           [(''sampling_pattern'', sampling_pattern a),
            (''packet_sizes'', JArray (map JInt (ca_payload_lens a))),
            (''traffic_class'', JString (map_tos_to_traffic_class (ca_snd_tos a))),
            (''intermediate_nodes'', JArray (intermediate_nodes a)),
            (''start_node'', local_node a), (''end_node'', local_node a), (''version'', JString ''0.1''),
            (''qualityattenuationaggregate'', quality_attenuation sqa g t0 c)])"

text \<open>
  What writing a value as text gives: the characters that reach the stream, and the message of the
  \<^verbatim>\<open>type_error\<close> that is thrown, if any; and which files can be opened.
\<close>

record json_io =
  ji_dump :: "json \<Rightarrow> string \<times> string option"
  ji_opens :: "string \<Rightarrow> bool"

datatype report_error = Date_error cxx_exn | Type_error string

text \<open>
  The value is written to the file, followed by a line end if nothing was thrown. What is written to a file that
  could not be opened is lost without notice.
\<close>

definition write_json :: "json_io \<Rightarrow> string \<Rightarrow> json \<Rightarrow> string option \<times> (string \<times> string) option" where
  "write_json io json_output_file v =
     (let (text, thrown) = ji_dump io v
      in (thrown, if ji_opens io json_output_file
                  then Some (json_output_file, text @ (if thrown = None then [CHR 0x0A] else [])) else None))"

text \<open>The exception thrown, if any, and the file written with its content.\<close>

definition JsonLog ::
  "json_io \<Rightarrow> 'st sqa_api \<Rightarrow> 'st sqa_getters \<Rightarrow> string \<Rightarrow> 'st client \<Rightarrow>
   report_error option \<times> (string \<times> string) option" where
  "JsonLog io sqa g json_output_file c =
     (case first_packet_sent_date (first_packet_sent_epoch_nanoseconds c) of
        Inl e \<Rightarrow> (Some (Date_error e), None)
      | Inr t0 \<Rightarrow>
          (case write_json io json_output_file (logData sqa g t0 c) of
             (thrown, file) \<Rightarrow> (map_option Type_error thrown, file)))"

text \<open>The message with which \<^verbatim>\<open>main\<close> catches an exception: the first handler that fits.\<close>

fun caught :: "report_error \<Rightarrow> string" where
  "caught (Date_error (Runtime_error msg)) = ''Runtime error: '' @ msg"
| "caught (Type_error msg) = ''JSON error: '' @ msg"
| "caught (Date_error e) = ''Exception: '' @ what e"

text \<open>The end of \<^verbatim>\<open>main\<close>, after the threads were joined: the exit code, the client and the file.\<close>

definition finish_client ::
  "json_io \<Rightarrow> 'st sqa_api \<Rightarrow> 'st sqa_getters \<Rightarrow> client_args \<Rightarrow> 'st client \<Rightarrow>
   int \<times> 'st client \<times> (string \<times> string) option" where
  "finish_client io sqa g a c =
     (let packets_sent = getSentPackets c;
          c = (if prints_stats a then printStats sqa g packets_sent c else c)
      in if writes_json a
         then (case JsonLog io sqa g (ca_json_output_file a) c of
                 (Some e, file) \<Rightarrow> (1, c\<lparr>stderr := stderr c @ [caught e]\<rparr>, file)
               | (None, file) \<Rightarrow> (0, c, file))
         else (0, c, None))"

section \<open>The type of the report\<close>

datatype json_type = TString | TInt | TFloat | TAny | TArray json_type | TObject "(string \<times> json_type) list"

fun has_type :: "json_type \<Rightarrow> json \<Rightarrow> bool"
  and has_types :: "json_type \<Rightarrow> json list \<Rightarrow> bool"
  and has_fields :: "(string \<times> json_type) list \<Rightarrow> (string \<times> json) list \<Rightarrow> bool" where
  "has_type TString v = (case v of JString _ \<Rightarrow> True | _ \<Rightarrow> False)"
| "has_type TInt v = (case v of JInt _ \<Rightarrow> True | _ \<Rightarrow> False)"
| "has_type TFloat v = (case v of JFloat _ \<Rightarrow> True | _ \<Rightarrow> False)"
| "has_type TAny v = True"
| "has_type (TArray t) v = (case v of JArray vs \<Rightarrow> has_types t vs | _ \<Rightarrow> False)"
| "has_type (TObject ts) v = (case v of JObject kvs \<Rightarrow> has_fields ts kvs | _ \<Rightarrow> False)"
| "has_types t [] = True"
| "has_types t (v # vs) = (has_type t v \<and> has_types t vs)"
| "has_fields [] kvs = (kvs = [])"
| "has_fields ((k, t) # ts) kvs = (case kvs of [] \<Rightarrow> False | (k', v) # kvs \<Rightarrow> k = k' \<and> has_type t v \<and> has_fields ts kvs)"

text \<open>The members of each object in the order of their keys.\<close>

definition node_type :: json_type where
  "node_type = TObject [(''ip'', TString), (''port'', TString)]"

definition report_type :: json_type where
  "report_type =
     TObject
       [(''end_node'', node_type),
        (''intermediate_nodes'', TArray (TObject [(''ip'', TString), (''label'', TString), (''port'', TInt)])),
        (''packet_sizes'', TArray TInt),
        (''qualityattenuationaggregate'',
         TObject
           [(''duration'', TFloat),
            (''empirical_distribution'',
             TObject [(''compression'', TFloat), (''digest-centroid'', TArray (TObject [(''c'', TAny), (''m'', TFloat)]))]),
            (''max'', TFloat), (''mean'', TFloat), (''min'', TFloat), (''num_lost_samples'', TInt),
            (''num_samples'', TInt), (''t0'', TString), (''variance'', TFloat)]),
        (''sampling_pattern'', TObject [(''max'', TFloat), (''mean'', TFloat), (''min'', TInt), (''type'', TString)]),
        (''start_node'', node_type), (''traffic_class'', TString), (''version'', TString)]"

section \<open>The start time\<close>

lemma first_sent_seconds_range:
  "- 135140 * 86400 \<le> first_sent_seconds ns" "first_sent_seconds ns \<le> 9223372036"
proof -
  have "- (2 ^ 63) \<le> sint ns" "sint ns < 2 ^ 63" using sint_range_size [of ns] by (simp_all add: word_size)
  then show "- 135140 * 86400 \<le> first_sent_seconds ns" "first_sent_seconds ns \<le> 9223372036"
    by (auto simp: first_sent_seconds_def)
qed

lemmas first_sent_date = gmtime_correct [OF first_sent_seconds_range(1)]

lemma first_packet_sent_date_eq:
  "first_packet_sent_date ns =
     Inr (strftime_iso (gmtime (first_sent_seconds ns)) @ ''.'' @ pad_zeros 6 (dec (unat ns mod 1000)) @ ''Z'')"
proof -
  have "length (strftime_iso (gmtime (first_sent_seconds ns))) \<le> 19"
    using first_sent_date(1,3) [of ns] gmtime_year_bound [OF first_sent_seconds_range, of ns]
    by (intro length_strftime_iso) simp_all
  moreover have "length (dec (unat ns mod 1000)) \<le> 3" by (rule length_dec_less) simp_all
  ultimately show ?thesis by (simp add: first_packet_sent_date_def Let_def unat_mod pad_zeros_def)
qed

lemma first_sent_seconds_nonneg: "unat ns < 2 ^ 63 \<Longrightarrow> first_sent_seconds ns = int (unat ns div 1000000000)"
proof -
  assume a: "unat ns < 2 ^ 63"
  then have "uint ns < 2 ^ 63" using of_nat_less_iff [of "unat ns" "2 ^ 63", where ?'a = int] by simp
  then have "signed_take_bit 63 (uint ns) = uint ns"
    by (intro signed_take_bit_int_eq_self) (auto intro: order_trans [of _ 0])
  then have "sint ns = uint ns" by (simp add: sint_uint)
  moreover have "uint ns = int (unat ns)" by simp
  ultimately show ?thesis by (simp only: first_sent_seconds_def zdiv_int of_nat_less_0_iff if_False of_nat_numeral)
qed

lemma pad_zeros_6: "n < 1000 \<Longrightarrow> pad_zeros 6 (dec n) = ''000'' @ pad_zeros 3 (dec n)"
proof -
  assume "n < 1000"
  then have "length (dec n) \<le> 3" by (intro length_dec_less) simp_all
  then have "6 - length (dec n) = 3 + (3 - length (dec n))" by simp
  then show ?thesis by (simp add: pad_zeros_def replicate_add numeral_3_eq_3)
qed

text \<open>
  C33: The start time in the report is a valid date of the second in which the first packet was sent. The
  six digits after it are not its microseconds: they are always three zeros and the nanoseconds within
  the last microsecond.
\<close>

theorem report_start_time:
  assumes "unat ns < 2 ^ 63"
  shows "\<exists>d. first_packet_sent_date ns = Inr (strftime_iso d @ ''.000'' @ pad_zeros 3 (dec (unat ns mod 1000)) @ ''Z'') \<and>
    tm_ok d \<and> epoch_seconds d = int (unat ns div 10 ^ 9)"
  using first_sent_date [of ns] pad_zeros_6 [of "unat ns mod 1000"] first_sent_seconds_nonneg [OF assms]
  by (intro exI [of _ "gmtime (first_sent_seconds ns)"]) (simp add: first_packet_sent_date_eq)

theorem report_start_time_witness:
  "\<exists>d. first_packet_sent_date 1700000000123456789 = Inr (strftime_iso d @ ''.000789Z'') \<and> tm_ok d \<and> epoch_seconds d = 1700000000"
proof -
  have "pad_zeros 3 (dec 789) = ''789''" by (simp add: pad_zeros_def dec.simps digit_char_def)
  with report_start_time [of 1700000000123456789] show ?thesis by simp
qed

section \<open>The duration\<close>

lemma json_duration:
  "json_get (quality_attenuation sqa g t0 c) ''duration'' =
     Some (JFloat (seconds_of_nsec (last_packet_received_epoch_nanoseconds c - first_packet_sent_epoch_nanoseconds c)))"
  by (simp add: quality_attenuation_def json_object_def json_members_def less_char_def)

lemma seconds_of_nsec_exact:
  assumes "unat d < 2 ^ 53"
  shows "seconds_of_nsec d = rnd (of_nat (unat d) / 10 ^ 9)"
proof -
  have "d_of_int (uint d) = of_int (uint d)"
    using assms by (intro d_of_int_exact) (simp flip: uint_nat add: of_nat_less_iff [symmetric, where ?'a = int] del: of_nat_less_iff)
  then show ?thesis by (simp add: seconds_of_nsec_def d_div_def)
qed

lemma seconds_of_nsec_large:
  assumes "2 ^ 63 \<le> uint d"
  shows "9223372036 \<le> seconds_of_nsec d"
proof -
  have "(2 :: rat) ^ 63 \<le> of_int (uint d)" using of_int_le_iff [of "2 ^ 63" "uint d", where ?'a = rat] assms by simp
  then have "rnd (2 ^ 63) \<le> rnd (of_int (uint d))" by (intro rnd_mono) simp_all
  then have "(2 :: rat) ^ 63 \<le> rnd (of_int (uint d))" using rnd_powi [of 63] by (simp add: power_int_def)
  then have "9223372036 \<le> rnd (of_int (uint d)) / 1000000000" by simp
  then have "rnd 9223372036 \<le> rnd (rnd (of_int (uint d)) / 1000000000)" by (intro rnd_mono) simp_all
  moreover have "rnd 9223372036 = 9223372036" using rnd_of_int [of 9223372036] by simp
  ultimately show ?thesis by (simp add: seconds_of_nsec_def d_div_def d_of_int_def)
qed

text \<open>
  C34: The duration in the report is the time from the first packet sent to the last reply in seconds,
  correctly rounded, as long as it is below 104 days. When no reply was received it is a wrapped
  difference: more than 292 years.
\<close>

theorem report_duration:
  "(first_packet_sent_epoch_nanoseconds c \<le> last_packet_received_epoch_nanoseconds c \<longrightarrow>
     unat (last_packet_received_epoch_nanoseconds c) - unat (first_packet_sent_epoch_nanoseconds c) < 2 ^ 53 \<longrightarrow>
     json_get (quality_attenuation sqa g t0 c) ''duration'' =
       Some (JFloat (rnd (of_nat (unat (last_packet_received_epoch_nanoseconds c) -
                                  unat (first_packet_sent_epoch_nanoseconds c)) / 10 ^ 9)))) \<and>
   (last_packet_received_epoch_nanoseconds c = 0 \<and> first_packet_sent_epoch_nanoseconds c \<noteq> 0 \<and>
     first_packet_sent_epoch_nanoseconds c \<le> 2 ^ 63 \<longrightarrow>
     (\<exists>x. json_get (quality_attenuation sqa g t0 c) ''duration'' = Some (JFloat x) \<and> 9223372036 \<le> x))"
proof (intro conjI impI)
  assume a: "first_packet_sent_epoch_nanoseconds c \<le> last_packet_received_epoch_nanoseconds c"
    "unat (last_packet_received_epoch_nanoseconds c) - unat (first_packet_sent_epoch_nanoseconds c) < 2 ^ 53"
  then show "json_get (quality_attenuation sqa g t0 c) ''duration'' =
       Some (JFloat (rnd (of_nat (unat (last_packet_received_epoch_nanoseconds c) -
                                  unat (first_packet_sent_epoch_nanoseconds c)) / 10 ^ 9)))"
    by (simp only: json_duration unat_sub seconds_of_nsec_exact)
next
  assume a: "last_packet_received_epoch_nanoseconds c = 0 \<and> first_packet_sent_epoch_nanoseconds c \<noteq> 0 \<and>
     first_packet_sent_epoch_nanoseconds c \<le> 2 ^ 63"
  then have "uint (first_packet_sent_epoch_nanoseconds c) \<le> 2 ^ 63" by (simp add: word_le_def)
  moreover have "uint (- w) = 2 ^ 64 - uint w" if "w \<noteq> 0" for w :: u64
  proof -
    have "uint w mod 2 ^ 64 = uint w" using uint_bounded [of w] by (intro mod_pos_pos_trivial) simp_all
    with that show ?thesis by (simp add: uint_word_ariths zmod_zminus1_eq_if uint_0_iff)
  qed
  ultimately have "2 ^ 63 \<le> uint (0 - first_packet_sent_epoch_nanoseconds c)" using a by simp
  from seconds_of_nsec_large [OF this]
  show "\<exists>x. json_get (quality_attenuation sqa g t0 c) ''duration'' = Some (JFloat x) \<and> 9223372036 \<le> x"
    unfolding json_duration using a by simp
qed

definition silent_client :: "unit client" where
  "silent_client = (client_init client_args_default [] 0 () \<lparr>readings = (\<lambda>k. \<lparr>tv_sec = 0, tv_nsec = 0\<rparr>), ticks = 0\<rparr>)
     \<lparr>first_packet_sent_epoch_nanoseconds := 1700000000000000000\<rparr>"

definition zero_getters :: "unit sqa_getters" where
  "zero_getters = \<lparr>sqa_get_loss_percentage = (\<lambda>s. 0), sqa_get_mean = (\<lambda>s. 0), sqa_get_median = (\<lambda>s. 0),
     sqa_get_min_as_seconds = (\<lambda>s. 0), sqa_get_max_as_seconds = (\<lambda>s. 0), sqa_get_standard_deviation = (\<lambda>s. 0),
     sqa_get_variance = (\<lambda>s. 0), sqa_get_percentile = (\<lambda>s p. 0),
     sqa_empirical_distribution = (\<lambda>s. \<lparr>td_compression = 100, td_merged_nodes = 0, td_nodes_mean = [], td_nodes_weight = []\<rparr>),
     td_compress = (\<lambda>h. h)\<rparr>"

theorem report_duration_witness:
  "json_get (quality_attenuation no_stats zero_getters [] (silent_client\<lparr>last_packet_received_epoch_nanoseconds := 1700000001500000000\<rparr>))
     ''duration'' = Some (JFloat (3 / 2)) \<and>
   (\<exists>x. json_get (quality_attenuation no_stats zero_getters [] silent_client) ''duration'' = Some (JFloat x) \<and> 9223372036 \<le> x)"
proof
  have "rnd (3 / 2) = 3 / 2" using rnd_exact [of 3 "- 1"] by (simp add: power_int_minus)
  then show "json_get (quality_attenuation no_stats zero_getters []
      (silent_client\<lparr>last_packet_received_epoch_nanoseconds := 1700000001500000000\<rparr>)) ''duration'' = Some (JFloat (3 / 2))"
    using report_duration [of "silent_client\<lparr>last_packet_received_epoch_nanoseconds := 1700000001500000000\<rparr>" no_stats zero_getters "[]"]
    by (simp add: silent_client_def client_init_def)
  show "\<exists>x. json_get (quality_attenuation no_stats zero_getters [] silent_client) ''duration'' = Some (JFloat x) \<and> 9223372036 \<le> x"
    using report_duration [of silent_client no_stats zero_getters "[]"]
    by (simp add: silent_client_def client_init_def)
qed

section \<open>The end of a run\<close>

lemma has_types_iff [simp]: "has_types t vs \<longleftrightarrow> (\<forall>v \<in> set vs. has_type t v)"
  by (induction vs) auto

lemma has_type_digest:
  "has_type (TObject [(''compression'', TFloat), (''digest-centroid'', TArray (TObject [(''c'', TAny), (''m'', TFloat)]))])
     (td_to_json g h)"
  by (simp add: td_to_json_def json_object_def json_members_def less_char_def Let_def)

lemma has_type_intermediate_nodes:
  "v \<in> set (intermediate_nodes a) \<Longrightarrow> has_type (TObject [(''ip'', TString), (''label'', TString), (''port'', TInt)]) v"
  by (auto simp: intermediate_nodes_def remote_node_def json_object_def json_members_def less_char_def)

lemma has_type_nodes: "has_type node_type (local_node a)"
  "has_type (TObject [(''max'', TFloat), (''mean'', TFloat), (''min'', TInt), (''type'', TString)]) (sampling_pattern a)"
  by (simp_all add: node_type_def local_node_def sampling_pattern_def json_object_def json_members_def less_char_def)

lemma has_type_quality_attenuation:
  "has_type (TObject
     [(''duration'', TFloat),
      (''empirical_distribution'',
       TObject [(''compression'', TFloat), (''digest-centroid'', TArray (TObject [(''c'', TAny), (''m'', TFloat)]))]),
      (''max'', TFloat), (''mean'', TFloat), (''min'', TFloat), (''num_lost_samples'', TInt),
      (''num_samples'', TInt), (''t0'', TString), (''variance'', TFloat)]) (quality_attenuation sqa g t0 c)"
  using has_type_digest [of g "sqa_empirical_distribution g (stats_RTT c)"]
  by (simp add: quality_attenuation_def json_object_def json_members_def less_char_def del: has_type.simps(6))
    (simp del: has_type.simps(6) add: has_type.simps(6) [of "_ # _ # _ # _"])

lemma has_type_logData: "has_type report_type (logData sqa g t0 c)"
  using has_type_quality_attenuation [of sqa g t0 c] has_type_nodes [of "args c"] has_type_intermediate_nodes [of _ "args c"]
  by (simp add: report_type_def logData_def json_object_def json_members_def less_char_def Let_def)

lemma logData_frame [simp]: "logData sqa g t0 (c\<lparr>stdout := out, clock := k\<rparr>) = logData sqa g t0 c"
  by (simp add: logData_def quality_attenuation_def)

text \<open>A client that printed and read the clock.\<close>

definition printed :: "'st client \<Rightarrow> 'st client \<Rightarrow> bool" where
  "printed c c' \<longleftrightarrow> (\<exists>out k. c' = c\<lparr>stdout := stdout c @ out, clock := k\<rparr>)"

lemma printed_refl: "printed c c"
  unfolding printed_def by (rule exI [of _ "[]"], rule exI [of _ "clock c"]) simp

lemma printed_print: "printed c c' \<Longrightarrow> printed c (print s c')"
proof -
  assume "printed c c'"
  then obtain out k where "c' = c\<lparr>stdout := stdout c @ out, clock := k\<rparr>" unfolding printed_def by blast
  then have "print s c' = c\<lparr>stdout := stdout c @ (out @ s), clock := k\<rparr>" by (simp add: print_def)
  then show ?thesis unfolding printed_def by blast
qed

lemma printed_now:
  assumes "printed c c'" and "\<And>ts x. printed c x \<Longrightarrow> printed c (f ts x)"
  shows "printed c (let (ts, x) = now_timestamp c' in f ts x)"
proof -
  obtain out k where "c' = c\<lparr>stdout := stdout c @ out, clock := k\<rparr>" using assms(1) unfolding printed_def by blast
  then have "tick c' = c\<lparr>stdout := stdout c @ out, clock := k\<lparr>ticks := Suc (ticks k)\<rparr>\<rparr>" by (simp add: tick_def)
  then have "printed c (tick c')" unfolding printed_def by blast
  with assms(2) show ?thesis by (simp add: now_timestamp_eq)
qed

lemma printed_Let:
  assumes "printed c t" and "\<And>x. printed c x \<Longrightarrow> printed c (f x)"
  shows "printed c (Let t f)"
  unfolding Let_def using assms by blast

lemma printed_printStats: "printed c (printStats sqa g n c)"
  unfolding printStats_def printSummaryLine_def printPercentileLine_def
  by (assumption | rule printed_Let printed_now printed_print printed_refl)+

lemma write_json_eq:
  "write_json io file v =
     (snd (ji_dump io v),
      if ji_opens io file
      then Some (file, fst (ji_dump io v) @ (if snd (ji_dump io v) = None then [CHR 0x0A] else [])) else None)"
  by (simp add: write_json_def case_prod_beta)

text \<open>The messages of a report that is written: that of the exception, if any.\<close>

definition report_messages :: "json_io \<Rightarrow> json \<Rightarrow> string list" where
  "report_messages io v = (case snd (ji_dump io v) of None \<Rightarrow> [] | Some msg \<Rightarrow> [''JSON error: '' @ msg])"

lemma finish_client_result:
  "\<exists>c1 t0. first_packet_sent_date (first_packet_sent_epoch_nanoseconds c) = Inr t0 \<and>
     finish_client io sqa g a c =
       (if writes_json a
        then (if snd (ji_dump io (logData sqa g t0 c)) = None then 0 else 1,
              c1\<lparr>stderr := stderr c1 @ report_messages io (logData sqa g t0 c)\<rparr>,
              snd (write_json io (ca_json_output_file a) (logData sqa g t0 c)))
        else (0, c1, None)) \<and>
     (if prints_stats a then printed c c1 else c1 = c)"
proof -
  define c1 where "c1 = (if prints_stats a then printStats sqa g (getSentPackets c) c else c)"
  have "printed c c1" by (simp add: c1_def printed_printStats printed_refl)
  then obtain out k where c1: "c1 = c\<lparr>stdout := stdout c @ out, clock := k\<rparr>" unfolding printed_def by blast
  obtain t0 where t0: "first_packet_sent_date (first_packet_sent_epoch_nanoseconds c) = Inr t0"
    using first_packet_sent_date_eq by blast
  then have "JsonLog io sqa g f c1 = (map_option Type_error (snd (ji_dump io (logData sqa g t0 c))),
      snd (write_json io f (logData sqa g t0 c)))" for f
    by (simp add: JsonLog_def write_json_eq c1)
  then have "finish_client io sqa g a c =
       (if writes_json a
        then (if snd (ji_dump io (logData sqa g t0 c)) = None then 0 else 1,
              c1\<lparr>stderr := stderr c1 @ report_messages io (logData sqa g t0 c)\<rparr>,
              snd (write_json io (ca_json_output_file a) (logData sqa g t0 c)))
        else (0, c1, None))"
    unfolding finish_client_def c1_def [symmetric] Let_def by (simp add: report_messages_def split: option.split)
  moreover have "if prints_stats a then printed c c1 else c1 = c" by (simp add: c1_def printed_printStats)
  ultimately show ?thesis using t0 by blast
qed

section \<open>The content of the report\<close>

lemmas json_simps = json_object_def json_members_def less_char_def

lemma logData_get:
  "json_get (logData sqa g t0 c) ''packet_sizes'' = Some (JArray (map JInt (ca_payload_lens (args c))))"
  "json_get (logData sqa g t0 c) ''traffic_class'' = Some (JString (map_tos_to_traffic_class (ca_snd_tos (args c))))"
  "json_get (logData sqa g t0 c) ''intermediate_nodes'' = Some (JArray (intermediate_nodes (args c)))"
  "json_get (logData sqa g t0 c) ''qualityattenuationaggregate'' = Some (quality_attenuation sqa g t0 c)"
  by (simp_all add: logData_def json_simps Let_def)

lemma quality_attenuation_get:
  "json_get (quality_attenuation sqa g t0 c) ''t0'' = Some (JString t0)"
  "json_get (quality_attenuation sqa g t0 c) ''num_samples'' = Some (JInt (uint (sqa_number_of_samples sqa (stats_RTT c))))"
  "json_get (quality_attenuation sqa g t0 c) ''num_lost_samples'' = Some (JInt (uint (sqa_number_of_lost_packets sqa (stats_RTT c))))"
  "json_get (quality_attenuation sqa g t0 c) ''max'' = Some (JFloat (sqa_get_max_as_seconds g (stats_RTT c)))"
  "json_get (quality_attenuation sqa g t0 c) ''min'' = Some (JFloat (sqa_get_min_as_seconds g (stats_RTT c)))"
  "json_get (quality_attenuation sqa g t0 c) ''mean'' = Some (JFloat (sqa_get_mean g (stats_RTT c)))"
  "json_get (quality_attenuation sqa g t0 c) ''variance'' = Some (JFloat (sqa_get_variance g (stats_RTT c)))"
  by (simp_all add: quality_attenuation_def json_simps)

lemma concat_pairs:
  "length (concat (map (\<lambda>i. [f i, g i]) [0..<n])) = 2 * n"
  "i < n \<Longrightarrow> concat (map (\<lambda>i. [f i, g i]) [0..<n]) ! (2 * i) = f i"
  "i < n \<Longrightarrow> concat (map (\<lambda>i. [f i, g i]) [0..<n]) ! (2 * i + 1) = g i"
proof -
  show l: "length (concat (map (\<lambda>i. [f i, g i]) [0..<n])) = 2 * n" for n by (induction n) auto
  show "i < n \<Longrightarrow> concat (map (\<lambda>i. [f i, g i]) [0..<n]) ! (2 * i) = f i"
    "i < n \<Longrightarrow> concat (map (\<lambda>i. [f i, g i]) [0..<n]) ! (2 * i + 1) = g i"
    by (induction n) (auto simp: nth_append l less_Suc_eq)
qed

lemma remote_node_get:
  "json_get (remote_node host port label) ''ip'' = Some (JString host)"
  "json_get (remote_node host port label) ''port'' = Some (JInt (uint port))"
  "json_get (remote_node host port label) ''label'' = Some (JString label)"
  by (simp_all add: remote_node_def json_simps)

text \<open>
  C32: The end of \<^verbatim>\<open>main\<close>. Without a file name, or in the legacy format, the exit code is 0 and there is no file.
  Otherwise the exit code is 0 if the report can be written as text, and 1, with the message of the JSON
  error, if that throws; the date never fails. The file is written exactly when it can be opened, and ends in a line end
  exactly when nothing was thrown. The client changes in nothing but this message and, if the
  statistics are to be printed, in what it printed and in the clock it read. The report has its fixed type (all keys present, in order,
  with values of their types) and describes the client as it was when the threads ended: the payload
  lengths, the name of the traffic class, two nodes for each remote host with its address and port, labelled 1 and 2, the start
  time, the numbers of samples and losses, and the extremes, mean and variance of the round-trip statistics.
\<close>

theorem client_reports:
  "\<exists>c1 t0 r q nodes.
     first_packet_sent_date (first_packet_sent_epoch_nanoseconds c) = Inr t0 \<and>
     finish_client io sqa g a c =
       (if ca_json_output_file a = [] \<or> ca_print_format a = ''legacy'' then (0, c1, None)
        else case ji_dump io r of
          (text, None) \<Rightarrow>
            (0, c1, if ji_opens io (ca_json_output_file a) then Some (ca_json_output_file a, text @ [CHR 0x0A]) else None)
        | (text, Some msg) \<Rightarrow>
            (1, c1\<lparr>stderr := stderr c @ [''JSON error: '' @ msg]\<rparr>,
             if ji_opens io (ca_json_output_file a) then Some (ca_json_output_file a, text) else None)) \<and>
     (if ca_print_digest a \<and> ca_print_format a \<noteq> ''legacy''
      then \<exists>out k. c1 = c\<lparr>stdout := stdout c @ out, clock := k\<rparr> else c1 = c) \<and>
     has_type report_type r \<and>
     json_get r ''packet_sizes'' = Some (JArray (map JInt (ca_payload_lens (args c)))) \<and>
     json_get r ''traffic_class'' =
       Some (JString (if ca_snd_tos (args c) = 0 then ''BE'' else if ca_snd_tos (args c) = 32 then ''BK''
                      else if ca_snd_tos (args c) = 128 then ''VI'' else if ca_snd_tos (args c) = 160 then ''VO'' else ''Unknown'')) \<and>
     json_get r ''intermediate_nodes'' = Some (JArray nodes) \<and> length nodes = 2 * length (ca_remote_hosts (args c)) \<and>
     (\<forall>i < length (ca_remote_hosts (args c)). \<forall>(v, label) \<in> {(nodes ! (2 * i), ''1''), (nodes ! (2 * i + 1), ''2'')}.
        json_get v ''ip'' = Some (JString (ca_remote_hosts (args c) ! i)) \<and>
        json_get v ''port'' = Some (JInt (uint (ca_remote_ports (args c) ! i))) \<and> json_get v ''label'' = Some (JString label)) \<and>
     json_get r ''qualityattenuationaggregate'' = Some q \<and> json_get q ''t0'' = Some (JString t0) \<and>
     json_get q ''num_samples'' = Some (JInt (uint (sqa_number_of_samples sqa (stats_RTT c)))) \<and>
     json_get q ''num_lost_samples'' = Some (JInt (uint (sqa_number_of_lost_packets sqa (stats_RTT c)))) \<and>
     json_get q ''max'' = Some (JFloat (sqa_get_max_as_seconds g (stats_RTT c))) \<and>
     json_get q ''min'' = Some (JFloat (sqa_get_min_as_seconds g (stats_RTT c))) \<and>
     json_get q ''mean'' = Some (JFloat (sqa_get_mean g (stats_RTT c))) \<and>
     json_get q ''variance'' = Some (JFloat (sqa_get_variance g (stats_RTT c)))"
proof -
  obtain c1 t0 where t0: "first_packet_sent_date (first_packet_sent_epoch_nanoseconds c) = Inr t0"
    and f: "finish_client io sqa g a c =
       (if writes_json a
        then (if snd (ji_dump io (logData sqa g t0 c)) = None then 0 else 1,
              c1\<lparr>stderr := stderr c1 @ report_messages io (logData sqa g t0 c)\<rparr>,
              snd (write_json io (ca_json_output_file a) (logData sqa g t0 c)))
        else (0, c1, None))"
    and p: "if prints_stats a then printed c c1 else c1 = c"
    using finish_client_result [of c io sqa g a] by blast
  let ?r = "logData sqa g t0 c"
  have "stderr c1 = stderr c" using p by (auto simp: printed_def split: if_splits)
  then have "finish_client io sqa g a c =
       (if ca_json_output_file a = [] \<or> ca_print_format a = ''legacy'' then (0, c1, None)
        else case ji_dump io ?r of
          (text, None) \<Rightarrow>
            (0, c1, if ji_opens io (ca_json_output_file a) then Some (ca_json_output_file a, text @ [CHR 0x0A]) else None)
        | (text, Some msg) \<Rightarrow>
            (1, c1\<lparr>stderr := stderr c @ [''JSON error: '' @ msg]\<rparr>,
             if ji_opens io (ca_json_output_file a) then Some (ca_json_output_file a, text) else None))"
    unfolding f by (cases "ji_dump io ?r") (simp add: writes_json_def report_messages_def write_json_eq split: option.split)
  moreover have "if ca_print_digest a \<and> ca_print_format a \<noteq> ''legacy''
      then \<exists>out k. c1 = c\<lparr>stdout := stdout c @ out, clock := k\<rparr> else c1 = c"
    using p unfolding prints_stats_def printed_def .
  moreover have "length (intermediate_nodes (args c)) = 2 * length (ca_remote_hosts (args c))"
    unfolding intermediate_nodes_def by (rule concat_pairs)
  moreover have "\<forall>i < length (ca_remote_hosts (args c)).
      \<forall>(v, label) \<in> {(intermediate_nodes (args c) ! (2 * i), ''1''), (intermediate_nodes (args c) ! (2 * i + 1), ''2'')}.
        json_get v ''ip'' = Some (JString (ca_remote_hosts (args c) ! i)) \<and>
        json_get v ''port'' = Some (JInt (uint (ca_remote_ports (args c) ! i))) \<and> json_get v ''label'' = Some (JString label)"
    unfolding intermediate_nodes_def by (auto simp only: concat_pairs(2,3) remote_node_get)
  ultimately show ?thesis
    using t0 has_type_logData [of sqa g t0 c] logData_get [of sqa g t0 c, unfolded map_tos_to_traffic_class_def] quality_attenuation_get [of sqa g t0 c]
    by (intro exI [of _ c1] exI [of _ t0] exI [of _ ?r] exI [of _ "quality_attenuation sqa g t0 c"]
        exI [of _ "intermediate_nodes (args c)"] conjI)
qed

text \<open>A client with one host whose report cannot be written as text.\<close>

theorem client_reports_witness:
  "\<exists>c1 r nodes. finish_client \<lparr>ji_dump = (\<lambda>v. (''{'', Some ''invalid UTF-8'')), ji_opens = (\<lambda>f. True)\<rparr> no_stats zero_getters
     (client_args_default\<lparr>ca_json_output_file := ''report.json'', ca_print_format := ''raw''\<rparr>)
     (silent_client\<lparr>args := client_args_default\<lparr>ca_remote_hosts := [''10.0.0.1''], ca_remote_ports := [862]\<rparr>\<rparr>) =
       (1, c1, Some (''report.json'', ''{'')) \<and> stderr c1 = stderr silent_client @ [''JSON error: invalid UTF-8''] \<and>
     has_type report_type r \<and> json_get r ''intermediate_nodes'' = Some (JArray nodes) \<and> length nodes = 2 \<and>
     json_get (nodes ! 1) ''ip'' = Some (JString ''10.0.0.1'') \<and> json_get (nodes ! 1) ''label'' = Some (JString ''2'')"
  using client_reports [of "silent_client\<lparr>args := client_args_default\<lparr>ca_remote_hosts := [''10.0.0.1''], ca_remote_ports := [862]\<rparr>\<rparr>"
      "\<lparr>ji_dump = (\<lambda>v. (''{'', Some ''invalid UTF-8'')), ji_opens = (\<lambda>f. True)\<rparr>" no_stats
      zero_getters "client_args_default\<lparr>ca_json_output_file := ''report.json'', ca_print_format := ''raw''\<rparr>"]
  apply (elim exE conjE)
  subgoal for c1 t0 r q nodes
    by (intro exI [of _ "c1\<lparr>stderr := stderr silent_client @ [''JSON error: invalid UTF-8'']\<rparr>"] exI [of _ r] exI [of _ nodes])
      (simp del: has_type.simps)
  done

end
