(* ===== verification/Schedules.thy ===== *)
theory Schedules
  imports Threads
begin

text \<open>
  The threads as sequential programs and as steps: a run of \<^verbatim>\<open>runSenderThread\<close>, of \<^verbatim>\<open>runReceiverThread\<close> or of the
  loop of \<^verbatim>\<open>runCollatorThread\<close>, with no other thread in between, is a run of the step relation of
  \<^verbatim>\<open>Threads\<close>, so that the theorems about the sequential programs speak about some of its schedules.
\<close>

section \<open>The sender\<close>

text \<open>The sender has ended in the client \<open>c\<close>, and nothing else was done.\<close>

definition sender_ran :: "('g, 'st) world \<Rightarrow> 'g sender_env \<Rightarrow> 'st client \<Rightarrow> ('g, 'st) world \<Rightarrow> bool" where
  "sender_ran w e c w' \<longleftrightarrow> (\<exists>i. w' = w\<lparr>shared := c, w_env := e, w_index := i, w_sender_done := True\<rparr>)"

lemma sender_end_step:
  assumes "\<not> w_sender_done w" and "now_seconds c = (now, c')"
    and "(\<not> more_to_send (args (shared w)) (w_index w) \<and> c = shared w) \<or>
       (more_to_send (args (shared w)) (w_index w) \<and> runtime_over (shared w) = (True, c))"
  shows "\<exists>ls w'. steps os rng ntop sqa w ls w' \<and> sender_ran w (w_env w) (c'\<lparr>sending_completed := now\<rparr>) w'"
  using steps_Cons [OF step.Sender_ends [OF assms(1,3,2)] steps_Nil]
  by (intro exI conjI) (assumption, auto simp: sender_ran_def intro: exI [of _ "w_index w"])

lemma sender_round_step:
  assumes "\<not> w_sender_done w" and "more_to_send (args (shared w)) (w_index w)" and "runtime_over (shared w) = (False, c1)"
    and "sender_round os rng (w_index w) (w_env w, c1) = (e2, c2)" and "v = w\<lparr>shared := c2, w_env := e2, w_index := w_index w + 1\<rparr>"
    and "\<exists>ls w'. steps os rng ntop sqa v ls w' \<and> sender_ran v e c w'"
  shows "\<exists>ls w'. steps os rng ntop sqa w ls w' \<and> sender_ran w e c w'"
proof -
  from assms(6) obtain ls w' where w': "steps os rng ntop sqa v ls w'" "sender_ran v e c w'" by blast
  have "step os rng ntop sqa w Sends v" unfolding assms(5) using assms(1-4) by (rule step.Sends)
  from steps_Cons [OF this w'(1)] have "steps os rng ntop sqa w (Sends # ls) w'" .
  moreover have "sender_ran w e c w'" using w'(2) by (simp add: sender_ran_def assms(5))
  ultimately show ?thesis by blast
qed

lemma sender_loop_steps:
  assumes "sender_loop os rng (w_index w) (w_env w) (shared w) = Some (e, c)" and "\<not> w_sender_done w"
    and "now_seconds c = (now, c')"
  shows "\<exists>ls w'. steps os rng ntop sqa w ls w' \<and> sender_ran w e (c'\<lparr>sending_completed := now\<rparr>) w'"
proof -
  define P :: "sender_os \<Rightarrow> 'a rng_api \<Rightarrow> u32 \<Rightarrow> 'a sender_env \<Rightarrow> 'b client \<Rightarrow> 'a sender_env \<times> 'b client \<Rightarrow> bool" where
    "P = (\<lambda>os rng i e0 c0 (e, c). \<forall>w now c'. w_index w = i \<longrightarrow> w_env w = e0 \<longrightarrow> shared w = c0 \<longrightarrow> \<not> w_sender_done w \<longrightarrow>
       now_seconds c = (now, c') \<longrightarrow>
       (\<exists>ls w'. steps os rng ntop sqa w ls w' \<and> sender_ran w e (c'\<lparr>sending_completed := now\<rparr>) w'))"
  have "P os rng (w_index w) (w_env w) (shared w) (e, c)"
  proof (rule sender_loop.raw_induct [of P, OF _ assms(1)])
    fix f :: "sender_os \<Rightarrow> 'a rng_api \<Rightarrow> u32 \<Rightarrow> 'a sender_env \<Rightarrow> 'b client \<Rightarrow> ('a sender_env \<times> 'b client) option"
      and os rng i e0 c0 r
    assume IH: "\<And>os rng i e0 c0 r. f os rng i e0 c0 = Some r \<Longrightarrow> P os rng i e0 c0 r"
      and r: "(if more_to_send (args c0) i then
        (case runtime_over c0 of (over, c') \<Rightarrow>
           if over then Some (e0, c')
           else (case sender_round os rng i (e0, c') of (e'', c'') \<Rightarrow> f os rng (i + 1) e'' c''))
      else Some (e0, c0)) = Some r"
    show "P os rng i e0 c0 r"
      unfolding P_def split_beta
    proof (intro allI impI)
      fix w :: "('a, 'b) world" and now c'
      assume w: "w_index w = i" "w_env w = e0" "shared w = c0" "\<not> w_sender_done w" and n: "now_seconds (snd r) = (now, c')"
      obtain over c1 where o: "runtime_over c0 = (over, c1)" by fastforce
      obtain e2 c2 where s: "sender_round os rng i (e0, c1) = (e2, c2)" by fastforce
      show "\<exists>ls w'. steps os rng ntop sqa w ls w' \<and> sender_ran w (fst r) (c'\<lparr>sending_completed := now\<rparr>) w'"
      proof (cases "more_to_send (args c0) i \<and> \<not> over")
        case True
        with r o s have "f os rng (i + 1) e2 c2 = Some r" by simp
        from IH [OF this] n w(4) show ?thesis
          using True w o s
          by (intro sender_round_step [OF w(4), of c1 os rng e2 c2, OF _ _ _ refl]) (auto simp: P_def)
      next
        case False
        with r o have "fst r = w_env w" "(\<not> more_to_send (args (shared w)) (w_index w) \<and> snd r = shared w) \<or>
            (more_to_send (args (shared w)) (w_index w) \<and> runtime_over (shared w) = (True, snd r))"
          by (auto simp: w split: if_splits)
        with sender_end_step [OF w(4) n] show ?thesis by simp
      qed
    qed
  qed
  with assms(2,3) show ?thesis unfolding P_def by auto
qed

section \<open>The receiver and the collator\<close>

text \<open>A thread has stopped in the client \<open>c\<close>; entries may have been retired.\<close>

definition thread_ran :: "thread \<Rightarrow> ('g, 'st) world \<Rightarrow> 'st client \<Rightarrow> ('g, 'st) world \<Rightarrow> bool" where
  "thread_ran t w c w' \<longleftrightarrow> shared w' = c \<and> pos w' = (pos w)(t := Stopped) \<and> w_sender_done w' = w_sender_done w \<and>
     undefined_behaviour w' = undefined_behaviour w"

text \<open>A thread that did something and then stopped.\<close>

lemma thread_ran_after:
  assumes "steps os rng ntop sqa w ls v" and "\<exists>ls' w'. steps os rng ntop sqa v ls' w' \<and> thread_ran t v c w'"
    and "w_sender_done v = w_sender_done w" and "undefined_behaviour v = undefined_behaviour w"
    and "\<exists>p. pos v = (pos w)(t := p)"
  shows "\<exists>ls w'. steps os rng ntop sqa w ls w' \<and> thread_ran t w c w'"
proof -
  from assms(2) obtain ls' w' where w': "steps os rng ntop sqa v ls' w'" "thread_ran t v c w'" by blast
  from steps_trans [OF w'(1) assms(1)] have "steps os rng ntop sqa w (ls @ ls') w'" .
  moreover have "thread_ran t w c w'" using w'(2) assms(3-5) by (auto simp: thread_ran_def)
  ultimately show ?thesis by blast
qed

text \<open>A step of a thread that changes only the client.\<close>

lemma thread_ran_step:
  assumes "step os rng ntop sqa w l (w\<lparr>shared := c0\<rparr>)"
    and "\<exists>ls w'. steps os rng ntop sqa (w\<lparr>shared := c0\<rparr>) ls w' \<and> thread_ran t (w\<lparr>shared := c0\<rparr>) c w'"
  shows "\<exists>ls w'. steps os rng ntop sqa w ls w' \<and> thread_ran t w c w'"
proof (rule thread_ran_after [OF steps_Cons [OF assms(1) steps_Nil] assms(2)])
  show "\<exists>p. pos (w\<lparr>shared := c0\<rparr>) = (pos w)(t := p)" by (rule exI [of _ "pos w t"]) simp
qed simp_all

text \<open>A check within the loop of a thread.\<close>

lemma thread_ran_check:
  assumes "steps os rng ntop sqa w ls (move t Checking (w\<lparr>shared := c0\<rparr>))"
    and "\<And>v. pos v t = Looping \<Longrightarrow> shared v = check_if_oldest_packet_should_be_processed sqa c0 \<Longrightarrow>
       \<exists>ls w'. steps os rng ntop sqa v ls w' \<and> thread_ran t v c w'"
  shows "\<exists>ls w'. steps os rng ntop sqa w ls w' \<and> thread_ran t w c w'"
proof -
  let ?w1 = "move t Checking (w\<lparr>shared := c0\<rparr>)"
  obtain ls' v rs where v: "steps os rng ntop sqa ?w1 ls' v" "after_check t ?w1 v rs"
    "shared v = check_if_oldest_packet_should_be_processed sqa c0"
    using check_steps [of ?w1 t os rng ntop sqa] by auto
  with assms(2) [of v] show ?thesis
    by (intro thread_ran_after [OF steps_trans [OF v(1) assms(1)]]) (auto simp: after_check_def)
qed

lemma receive_from_steps:
  assumes "receive_from ntop sqa evs (shared w) = (Finished, c)" and "pos w Receiver_thread = Looping"
  shows "\<exists>ls w'. steps os rng ntop sqa w ls w' \<and> thread_ran Receiver_thread w c w'"
  using assms
proof (induction evs arbitrary: w)
  case Nil
  obtain on c1 where g: "receiver_goes_on (shared w) = (on, c1)" by fastforce
  with Nil have "receiver_goes_on (shared w) = (False, c)" by (auto split: if_splits)
  from steps_Cons [OF step.Receiver_ends [OF Nil(2) this] steps_Nil] show ?case
    by (intro exI conjI) (assumption, simp add: thread_ran_def)
next
  case (Cons ev evs)
  obtain on c1 where g: "receiver_goes_on (shared w) = (on, c1)" by fastforce
  show ?case
  proof (cases on)
    case False
    with Cons.prems(1) g have "receiver_goes_on (shared w) = (False, c)" by auto
    from steps_Cons [OF step.Receiver_ends [OF Cons.prems(2) this] steps_Nil] show ?thesis
      by (intro exI conjI) (assumption, simp add: thread_ran_def)
  next
    case True
    then obtain b c2 where a: "awaitAndHandleResponse ntop sqa ev c1 = Inr (b, c2)"
      using Cons.prems(1) g by (auto split: sum.splits)
    show ?thesis
    proof (cases b)
      case True
      with Cons.prems(1) g a \<open>on\<close> have "receive_from ntop sqa evs (shared (w\<lparr>shared := c2\<rparr>)) = (Finished, c)" by simp
      note rest = Cons.IH [OF this]
      have "step os rng ntop sqa w (Receives ev) (w\<lparr>shared := c2\<rparr>)"
        using g a True \<open>on\<close> by (intro step.Receives [OF Cons.prems(2)]) simp_all
      then show ?thesis by (rule thread_ran_step) (rule rest, simp add: Cons.prems(2))
    next
      case False
      with Cons.prems(1) g a \<open>on\<close>
      have rest: "receive_from ntop sqa evs (check_if_oldest_packet_should_be_processed sqa c2) = (Finished, c)" by simp
      have "step os rng ntop sqa w (Times_out ev) (move Receiver_thread Checking (w\<lparr>shared := c2\<rparr>))"
        using g a False \<open>on\<close> by (intro step.Times_out [OF Cons.prems(2)]) simp_all
      then show ?thesis
        by (rule thread_ran_check [OF steps_Cons [OF _ steps_Nil]]) (simp add: Cons.IH rest)
    qed
  qed
qed

text \<open>A round of the collator.\<close>

lemma collator_round_steps:
  fixes w :: "('g, 'st) world"
  assumes "shared w = c0" and "pos w Collator_thread = Looping" and "collator_finished c0 = 0"
    and go: "\<And>v :: ('g, 'st) world. shared v = collator_round sqa c0 \<Longrightarrow> pos v Collator_thread = Looping \<Longrightarrow>
       \<exists>ls w'. steps os rng ntop sqa v ls w' \<and> thread_ran Collator_thread v c w'"
  shows "\<exists>ls w'. steps os rng ntop sqa w ls w' \<and> thread_ran Collator_thread w c w'"
proof (cases "ol_observations (observation_list c0)")
  case Nil
  then have round: "collator_round sqa c0 = check_if_oldest_packet_should_be_processed sqa c0"
    by (simp add: collator_round_def ol_isEmpty_def)
  have "step os rng ntop sqa w Collator_checks (move Collator_thread Checking (w\<lparr>shared := c0\<rparr>))"
    using step.Collator_checks [OF assms(2), of os rng ntop sqa] Nil assms(1,3) by (auto simp: ol_isEmpty_def)
  then show ?thesis
    by (rule thread_ran_check [OF steps_Cons [OF _ steps_Nil]]) (simp add: go round)
next
  case (Cons obs obss)
  let ?q = "(observation_list c0)\<lparr>ol_observations := obss\<rparr>"
  have q: "ol_popObservation (observation_list c0) = Some (obs, ?q)"
    "collator_round sqa c0 = process_observation obs (c0\<lparr>observation_list := ?q\<rparr>)"
    using Cons by (simp_all add: collator_round_def ol_isEmpty_def ol_popObservation_def)
  have "step os rng ntop sqa w Processes (w\<lparr>shared := collator_round sqa c0\<rparr>)"
    using step.Processes [OF assms(2), of obs ?q os rng ntop sqa] assms(1,3) q by simp
  then show ?thesis by (rule thread_ran_step) (rule go, simp_all add: assms(2))
qed

lemma collator_loop_steps:
  fixes w :: "('g, 'st) world"
  assumes "collator_loop sqa (shared w) = Some c" and "pos w Collator_thread = Looping"
  shows "\<exists>ls w'. steps os rng ntop sqa w ls w' \<and> thread_ran Collator_thread w c w'"
proof -
  define P :: "'st sqa_api \<Rightarrow> 'st client \<Rightarrow> 'st client \<Rightarrow> bool" where
    "P = (\<lambda>sqa c0 c. \<forall>w :: ('g, 'st) world. shared w = c0 \<longrightarrow> pos w Collator_thread = Looping \<longrightarrow>
       (\<exists>ls w'. steps os rng ntop sqa w ls w' \<and> thread_ran Collator_thread w c w'))"
  have "P sqa (shared w) c"
  proof (rule collator_loop.raw_induct [of P, OF _ assms(1)])
    fix f :: "'st sqa_api \<Rightarrow> 'st client \<Rightarrow> 'st client option" and sqa c0 r
    assume IH: "\<And>sqa c0 r. f sqa c0 = Some r \<Longrightarrow> P sqa c0 r"
      and r: "(if collator_finished c0 = 0 then f sqa (collator_round sqa c0) else Some c0) = Some r"
    show "P sqa c0 r"
      unfolding P_def
    proof (intro allI impI)
      fix w :: "('g, 'st) world"
      assume w: "shared w = c0" "pos w Collator_thread = Looping"
      show "\<exists>ls w'. steps os rng ntop sqa w ls w' \<and> thread_ran Collator_thread w r w'"
      proof (cases "collator_finished c0 = 0")
        case False
        with r w have "collator_finished (shared w) \<noteq> 0" "r = shared w" by auto
        with steps_Cons [OF step.Collator_ends [OF w(2) this(1)] steps_Nil] show ?thesis
          by (intro exI conjI) (assumption, simp add: thread_ran_def)
      next
        case True
        then have "P sqa (collator_round sqa c0) r" using r IH by simp
        then show ?thesis by (intro collator_round_steps [OF w True]) (auto simp: P_def)
      qed
    qed
  qed
  with assms(2) show ?thesis unfolding P_def by blast
qed

section \<open>One thread after the other\<close>

lemma sender_receiver_steps:
  assumes "runSenderThread os rng e (shared w) = Some (e1, c1)" and "runReceiverThread ntop sqa evs c1 = (Finished, c2)"
    and "w_env w = seed_engine rng e" and "w_index w = 0" and "\<not> w_sender_done w" and "pos w Receiver_thread = Looping"
  shows "\<exists>ls w'. steps os rng ntop sqa w ls w' \<and> shared w' = c2 \<and> w_sender_done w' \<and>
     pos w' = (pos w)(Receiver_thread := Stopped) \<and> undefined_behaviour w' = undefined_behaviour w"
proof -
  from assms(1,3,4) obtain c0 now c0' where s: "sender_loop os rng (w_index w) (w_env w) (shared w) = Some (e1, c0)"
    "now_seconds c0 = (now, c0')" "c1 = c0'\<lparr>sending_completed := now\<rparr>"
    by (auto simp: runSenderThread_def now_seconds_eq)
  obtain ls v where v: "steps os rng ntop sqa w ls v" "sender_ran w e1 c1 v"
    using sender_loop_steps [OF s(1) assms(5) s(2)] s(3) by blast
  then have f: "shared v = c1" "pos v = pos w" "w_sender_done v" "undefined_behaviour v = undefined_behaviour w"
    by (auto simp: sender_ran_def)
  obtain ls' w' where "steps os rng ntop sqa v ls' w'" "thread_ran Receiver_thread v c2 w'"
    using receive_from_steps [of ntop sqa evs v c2 os rng] assms(2,6) f by (auto simp: runReceiverThread_def)
  with steps_trans [OF _ v(1)] f show ?thesis by (auto simp: thread_ran_def)
qed

end
