(* ===== verification/Session.thy ===== *)
theory Session
  imports Round_Trip Report Schedules
begin

text \<open>
  The client program from its start to its exit: \<^verbatim>\<open>main\<close> of \<^verbatim>\<open>src/client/main_client.cpp\<close>. The threads of
  \<^verbatim>\<open>Threads\<close> run beside the main thread, which prints the header, works as the collator if there is one to
  run, waits for both threads and reports. The inductive predicate \<open>client_main\<close> describes the
  outcomes of a run; a run that pops an empty list, which is undefined behaviour, has none.
\<close>

section \<open>The program\<close>

text \<open>Everything outside the repository that the program is run with.\<close>

record ('g, 'st) main_env =
  me_build :: build_info
  me_exit_code :: "string \<Rightarrow> int \<times> string"
  me_client_env :: "'st client_env"
  me_os :: sender_os
  me_rng :: "'g rng_api"
  me_engines :: "'g sender_env"
  me_ntop :: "u8 \<Rightarrow> u8 list \<Rightarrow> string option"
  me_sqa :: "'st sqa_api"
  me_getters :: "'st sqa_getters"
  me_json :: json_io
  me_clock :: sys_clock
  me_socket :: socket

datatype main_label = Header | Thread label

text \<open>
  The state is that of the threads, with the information whether the main thread has printed the header. Both
  threads are started before; the collator, which is the main thread, starts after it.
\<close>

inductive main_step ::
  "('g, 'st) main_env \<Rightarrow> client_args \<Rightarrow> ('g, 'st) world \<times> bool \<Rightarrow> main_label \<Rightarrow> ('g, 'st) world \<times> bool \<Rightarrow> bool"
  for E a where
  Header: "main_step E a (w, False) Header (w\<lparr>shared := printHeader (shared w)\<rparr>, True)"
| Thread: "step (me_os E) (me_rng E) (me_ntop E) (me_sqa E) w l w' \<Longrightarrow> l = Collator_starts \<longrightarrow> h \<and> runs_collator a \<Longrightarrow>
     main_step E a (w, h) (Thread l) (w', h)"

inductive_cases main_stepE: "main_step E a v l v'"
inductive_simps main_step_Header: "main_step E a v Header v'"
inductive_simps main_step_Thread: "main_step E a v (Thread l) v'"

definition main_start :: "('g, 'st) main_env \<Rightarrow> 'st client \<Rightarrow> ('g, 'st) world \<times> bool" where
  "main_start E c = (world_init (me_rng E) (me_engines E) c, False)"

text \<open>The collator has returned or was not to run, and both threads can be joined.\<close>

definition ended :: "client_args \<Rightarrow> ('g, 'st) world \<Rightarrow> bool" where
  "ended a w \<longleftrightarrow> w_sender_done w \<and> pos w Receiver_thread = Stopped \<and>
     pos w Collator_thread = (if runs_collator a then Stopped else Unstarted) \<and> \<not> undefined_behaviour w"

text \<open>
  The exit code, the standard output and the file written. The constructor's exits and exceptions and the exit of the
  receiver on a local port that is no number all have code 1.
\<close>

inductive client_main ::
  "('g, 'st) main_env \<Rightarrow> (int \<times> string) + client_options \<Rightarrow> int \<Rightarrow> string \<Rightarrow> (string \<times> string) option \<Rightarrow> bool"
  for E cli where
  Parse_exit: "client_parse_args (me_build E) (me_exit_code E) cli = Inl (code, out) \<Longrightarrow> client_main E cli code out None"
| Construct_exit: "client_parse_args (me_build E) (me_exit_code E) cli = Inr a0 \<Longrightarrow> override_samples a0 = (warning, a) \<Longrightarrow>
     construct_client (me_client_env E) a (me_clock E) (me_socket E) = Inl e \<Longrightarrow> e \<noteq> Undefined_behaviour \<Longrightarrow>
     client_main E cli 1 warning None"
| Receiver_exit: "client_parse_args (me_build E) (me_exit_code E) cli = Inr a0 \<Longrightarrow> override_samples a0 = (warning, a) \<Longrightarrow>
     construct_client (me_client_env E) a (me_clock E) (me_socket E) = Inr (c, fd) \<Longrightarrow>
     run (main_step E a) (main_start E c) ls (w, h) \<Longrightarrow>
     pos w Receiver_thread = Looping \<Longrightarrow> receiver_goes_on (shared w) = (True, c') \<Longrightarrow>
     awaitAndHandleResponse (me_ntop E) (me_sqa E) ev c' = Inl msg \<Longrightarrow>
     client_main E cli 1 (warning @ stdout c') None"
| Completes: "client_parse_args (me_build E) (me_exit_code E) cli = Inr a0 \<Longrightarrow> override_samples a0 = (warning, a) \<Longrightarrow>
     construct_client (me_client_env E) a (me_clock E) (me_socket E) = Inr (c, fd) \<Longrightarrow>
     run (main_step E a) (main_start E c) ls (w, True) \<Longrightarrow> ended a w \<Longrightarrow>
     finish_client (me_json E) (me_sqa E) (me_getters E) a (shared w) = (code, c', file) \<Longrightarrow>
     client_main E cli code (warning @ stdout c') file"

section \<open>The constructed client\<close>

lemma construct_client_fresh:
  assumes "construct_client env a clk fresh = Inr (c, fd)"
  shows "sending_completed c = 0 \<and> collator_finished c = 0 \<and> rl_observations (raw_data_list c) = [] \<and>
     args c = (case ce_getsockname env of None \<Rightarrow> a | Some addr \<Rightarrow> a\<lparr>ca_local_port := dec (unat (bound_port addr))\<rparr>)"
proof -
  obtain start clk' where t: "time_null clk = (start, clk')" by fastforce
  from assms have "open_client env a (client_family a) start clk' fresh = Inr (c, fd)"
    by (simp add: construct_client_def t split: if_splits)
  then obtain addrs errs where "constructed env a clk addrs errs c" unfolding open_client_Inr [OF t] by blast
  then show ?thesis by (auto simp: constructed_def client_init_def)
qed

lemma construct_client_can_print:
  assumes "construct_client env a clk fresh = Inr (c, fd)" and "ce_getsockname env \<noteq> None"
  shows "can_print (args c)"
proof -
  obtain addr where addr: "ce_getsockname env = Some addr" using assms(2) by blast
  have "uint (bound_port addr) < 65536" using uint_lt2p [of "bound_port addr"] by simp
  then have "stoi (dec (unat (bound_port addr))) = Inr (int (unat (bound_port addr)))"
    by (intro stoi_dec) (simp add: INT_MAX_def)
  with construct_client_fresh [OF assms(1)] addr show ?thesis by (simp add: can_print_def)
qed

lemma printHeader_keeps [simp]: "keeps c (printHeader c)"
  by (simp add: printHeader_def print_def keeps_def)

section \<open>Arguments\<close>

lemma step_args: "step os rng ntop sqa w l w' \<Longrightarrow> args (shared w') = args (shared w)"
proof (cases "quiet l")
  case True
  moreover assume "step os rng ntop sqa w l w'"
  ultimately show ?thesis using quiet_step unfolding quiet_change_def by blast
next
  case False
  assume "step os rng ntop sqa w l w'"
  then show ?thesis
    by (cases rule: step.cases) (use False in \<open>auto simp: now_timestamp_eq tick_def\<close>)
qed

interpretation arguments: step_invariant "main_step E a" "\<lambda>l. True" "\<lambda>v. args (shared (fst v)) = x" for E a x
proof
  fix v v' l
  assume "main_step E a v l v'" and "args (shared (fst v)) = x"
  then show "args (shared (fst v')) = x"
    using printHeader_keeps [of "shared (fst v)"] by (auto elim!: main_stepE simp: step_args keeps_def)
qed


lemma await_returns: "can_print (args c) \<Longrightarrow> awaitAndHandleResponse ntop sqa ev c \<noteq> Inl msg"
proof (cases ev)
  case (Recv_msg d)
  assume "can_print (args c)"
  with Recv_msg show ?thesis
    using awaitAndHandleResponse_reply [of d c ntop sqa] awaitAndHandleResponse_none(2) [of d ntop sqa c]
    by (cases "length (in_payload d) \<le> TST_PKT_SIZE") auto
qed (simp add: awaitAndHandleResponse_none)

lemma override_samples_keeps:
  assumes "override_samples a0 = (warning, a)"
  shows "ca_print_format a = ca_print_format a0" "ca_print_digest a = ca_print_digest a0"
    "ca_json_output_file a = ca_json_output_file a0" "ca_local_port a = ca_local_port a0"
    "ca_remote_hosts a = ca_remote_hosts a0"
  using assms by (auto simp: override_samples_def split: if_splits)

lemma finish_client_outcome:
  assumes "finish_client io sqa g a c = (code, c', file)"
  shows "\<exists>t0 statistics. first_packet_sent_date (first_packet_sent_epoch_nanoseconds c) = Inr t0 \<and>
      stdout c' = stdout c @ statistics \<and> (if prints_stats a then True else statistics = []) \<and>
      (code, file) = (if writes_json a
        then (if snd (ji_dump io (logData sqa g t0 c)) = None then 0 else 1,
              snd (write_json io (ca_json_output_file a) (logData sqa g t0 c)))
        else (0, None))"
  using finish_client_result [of c io sqa g a] unfolding assms
  by (elim exE conjE) (auto simp: printed_def split: if_splits)

text \<open>
  C11: Every outcome of a run of the client program that ends; a run that does not end or whose behaviour is undefined has
  none. A command line that is refused, or that asks for help or the version, gives its exit code
  and text. When the client cannot be constructed the exit code is 1. Otherwise there are two cases. In the legacy
  format, when the socket's own address could not be read and the local port that was given is no number,
  a reply can end the process with exit code 1. In every other run the threads end: the output is the warning about the
  number of samples if there is one, what the client printed, and the statistics if they are asked for. The exit code is 0,
  unless a report is to be written and the conversion to text throws: then it is 1. A file is written exactly when one is
  named, the format is not legacy and it can be opened; it reports the client as it is in a state in which the threads
  have ended.
\<close>

theorem client_main_outcomes:
  assumes "client_main E cli code out file"
  shows "case client_parse_args (me_build E) (me_exit_code E) cli of
       Inl (c, text) \<Rightarrow> code = c \<and> out = text \<and> file = None
     | Inr a0 \<Rightarrow>
         (case override_samples a0 of (warning, a) \<Rightarrow>
           (case construct_client (me_client_env E) a (me_clock E) (me_socket E) of
              Inl e \<Rightarrow> e \<noteq> Undefined_behaviour \<and> code = 1 \<and> out = warning \<and> file = None
            | Inr (c, fd) \<Rightarrow>
                (code = 1 \<and> file = None \<and> (\<exists>rest. out = warning @ rest) \<and> ca_print_format a0 = ''legacy'' \<and>
                 ce_getsockname (me_client_env E) = None \<and> (\<exists>e. stoi (ca_local_port a0) = Inl e)) \<or>
                (\<exists>ls w t0 statistics.
                   run (main_step E a) (main_start E c) ls (w, True) \<and> ended a w \<and>
                   out = warning @ stdout (shared w) @ statistics \<and>
                   (if ca_print_digest a0 \<and> ca_print_format a0 \<noteq> ''legacy'' then True else statistics = []) \<and>
                   first_packet_sent_date (first_packet_sent_epoch_nanoseconds (shared w)) = Inr t0 \<and>
                   (code, file) =
                     (if ca_json_output_file a0 = [] \<or> ca_print_format a0 = ''legacy'' then (0, None)
                      else case ji_dump (me_json E) (logData (me_sqa E) (me_getters E) t0 (shared w)) of (text, thrown) \<Rightarrow>
                        (if thrown = None then 0 else 1,
                         if ji_opens (me_json E) (ca_json_output_file a0)
                         then Some (ca_json_output_file a0, text @ (if thrown = None then [CHR 0x0A] else []))
                         else None)))))"
  using assms
proof (cases rule: client_main.cases)
  case (Receiver_exit a0 warning a c fd ls w h c' ev msg)
  have "args (shared w) = args c"
    using arguments.run_keeps [OF Receiver_exit(7), of "args c"] by (simp add: main_start_def world_init_def)
  moreover have "args c' = args (shared w)" using keeps_goes_on [OF Receiver_exit(9)] by (simp add: keeps_def)
  ultimately have p: "\<not> can_print (args c)" using await_returns [of c'] Receiver_exit(10) by auto
  then have "ce_getsockname (me_client_env E) = None" using construct_client_can_print [OF Receiver_exit(6)] by blast
  moreover from this have "args c = a" using construct_client_fresh [OF Receiver_exit(6)] by simp
  ultimately show ?thesis
    using p Receiver_exit(1-6) override_samples_keeps [OF Receiver_exit(5)]
    by (cases "stoi (ca_local_port a0)") (auto simp: can_print_def)
next
  case (Completes a0 warning a c fd ls w c')
  obtain t0 statistics where r: "first_packet_sent_date (first_packet_sent_epoch_nanoseconds (shared w)) = Inr t0"
      "stdout c' = stdout (shared w) @ statistics" "if prints_stats a then True else statistics = []"
      "(code, file) = (if writes_json a
        then (if snd (ji_dump (me_json E) (logData (me_sqa E) (me_getters E) t0 (shared w))) = None then 0 else 1,
              snd (write_json (me_json E) (ca_json_output_file a) (logData (me_sqa E) (me_getters E) t0 (shared w))))
        else (0, None))"
    using finish_client_outcome [OF Completes(7)] by blast
  note k = override_samples_keeps [OF Completes(3)]
  have "if ca_print_digest a0 \<and> ca_print_format a0 \<noteq> ''legacy'' then True else statistics = []"
    using r(3) by (simp add: prints_stats_def k)
  moreover have "(code, file) =
     (if ca_json_output_file a0 = [] \<or> ca_print_format a0 = ''legacy'' then (0, None)
      else case ji_dump (me_json E) (logData (me_sqa E) (me_getters E) t0 (shared w)) of (text, thrown) \<Rightarrow>
        (if thrown = None then 0 else 1,
         if ji_opens (me_json E) (ca_json_output_file a0)
         then Some (ca_json_output_file a0, text @ (if thrown = None then [CHR 0x0A] else [])) else None))"
    unfolding r(4) by (simp add: writes_json_def k write_json_eq case_prod_beta)
  moreover have "out = warning @ stdout (shared w) @ statistics" using Completes(1) r(2) by simp
  ultimately show ?thesis
    unfolding Completes(2,3,4) sum.case prod.case using Completes(5,6) r(1)
    by (intro disjI2 exI conjI)
qed auto

section \<open>Statistics\<close>

text \<open>The entries that were aggregated: those removed, and the one about to be removed.\<close>

definition aggregated :: "('g, 'st) world \<Rightarrow> raw_data list" where
  "aggregated w = archive w @ (case pos w Collator_thread of Retiring a \<Rightarrow> [hd (entry_list w)] | _ \<Rightarrow> [])"

lemma aggregated_cong:
  "archive v = archive w \<Longrightarrow> pos v Collator_thread = pos w Collator_thread \<Longrightarrow>
   raw_data_list (shared v) = raw_data_list (shared w) \<Longrightarrow> aggregated v = aggregated w"
  by (simp add: aggregated_def split: position.split)

text \<open>
  With only the collator checking: the statistics are those of the aggregated entries, and there is no entry before the
  collator starts and once it has found the list empty after the end of sending.
\<close>

definition tallied :: "'st sqa_api \<Rightarrow> 'st client \<Rightarrow> ('g, 'st) world \<Rightarrow> bool" where
  "tallied sqa c w \<longleftrightarrow> alone w \<and> all_stats (shared w) = all_stats (fold (aggregateRawData sqa) (aggregated w) c) \<and>
     (pos w Collator_thread = Unstarted \<longrightarrow> collator_finished (shared w) = 0 \<and> entry_list w = [] \<and> archive w = []) \<and>
     (\<forall>now. pos w Collator_thread = Holding None now \<longrightarrow> entry_list w = []) \<and>
     (pos w Collator_thread = Stopped \<longrightarrow> collator_finished (shared w) \<noteq> 0) \<and>
     (collator_finished (shared w) \<noteq> 0 \<longrightarrow> pos w Collator_thread \<in> {Looping, Stopped} \<and> entry_list w = [])"

lemma quiet_tallied:
  assumes "quiet_change l w w'" and "alone w'" and "tallied sqa c w"
  shows "tallied sqa c w'"
  using assms aggregated_cong [of w' w] unfolding quiet_change_def tallied_def by simp

lemma process_observation_all_stats [simp]: "all_stats (process_observation obs c) = all_stats c"
  by (simp add: process_observation_def now_timestamp_eq all_stats_def tick_def Let_def split: option.split)

lemma tallied_retires:
  assumes "tallied sqa c w" and "pos w Collator_thread = Holding (Some a) now"
  shows "all_stats (retire_entry sqa (entry_at w a) (shared w)) =
     all_stats (fold (aggregateRawData sqa) (archive w @ [hd (entry_list w)]) c)"
proof -
  have a: "a = length (archive w)" "entry_list w \<noteq> []" using assms by (auto simp: tallied_def alone_def)
  then have e: "entry_at w a = hd (entry_list w)" by (simp add: entry_at_def nth_append hd_conv_nth)
  have "all_stats (shared w) = all_stats (fold (aggregateRawData sqa) (archive w) c)"
    using assms by (simp add: tallied_def aggregated_def)
  from aggregate_stats_cong [OF this] show ?thesis by (simp add: e)
qed

lemma step_tallied:
  assumes "step os rng ntop sqa w l w'" and "\<not> times_out l" and "tallied sqa c w"
  shows "tallied sqa c w'"
proof -
  have alone: "alone w" "alone w'" using step_alone [OF assms(1,2)] assms(3) by (simp_all add: tallied_def)
  note t = alone_collator [OF alone(1)]
  show ?thesis
  proof (cases "quiet l")
    case True
    from quiet_step [OF assms(1) this] alone(2) assms(3) show ?thesis by (rule quiet_tallied)
  next
    case False
    from assms(1) show ?thesis
    proof (cases rule: step.cases)
      case (Picks t ts c')
      then have "t = Collator_thread" "keeps (shared w) c'" using t [of t] keeps_now(2) by auto
      with assms(3) alone(2) Picks show ?thesis
        by (auto simp: tallied_def aggregated_def keeps_def oldest_address_def rl_getOldestEntry_def split: list.splits)
    next
      case (Retires t a now)
      with t [of t] have [simp]: "t = Collator_thread" by simp
      from Retires tallied_retires [OF assms(3), of a now] assms(3) alone(2) show ?thesis
        by (auto simp: tallied_def aggregated_def)
    next
      case (Pops t a r q)
      with t [of t] have [simp]: "t = Collator_thread" by simp
      from Pops have "entry_list w = r # rl_observations q" by (auto simp: rl_popObservation_def split: list.splits)
      with Pops assms(3) alone(2) show ?thesis by (auto simp: tallied_def aggregated_def)
    next
      case (Leaves t a now)
      with t [of t] assms(3) alone(2) show ?thesis by (auto simp: tallied_def aggregated_def)
    next
      case (Finishes t now)
      with t [of t] assms(3) alone(2) show ?thesis by (auto simp: tallied_def aggregated_def)
    next
      case (Pops_empty t a)
      with alone(2) show ?thesis by (simp add: alone_def)
    qed (use False assms(3) alone(2) in \<open>auto simp: tallied_def aggregated_def\<close>)
  qed
qed

text \<open>The labels of the program's runs in which no receive times out.\<close>

definition no_timeout :: "main_label \<Rightarrow> bool" where
  "no_timeout l \<longleftrightarrow> (case l of Header \<Rightarrow> True | Thread l \<Rightarrow> \<not> times_out l)"

lemma header_tallied: "tallied sqa c w \<Longrightarrow> tallied sqa c (w\<lparr>shared := printHeader (shared w)\<rparr>)"
  using printHeader_keeps [of "shared w"] aggregated_cong [of "w\<lparr>shared := printHeader (shared w)\<rparr>" w]
  by (simp add: tallied_def alone_def keeps_def)

interpretation tally: step_invariant "main_step E a" no_timeout "\<lambda>v. tallied (me_sqa E) c (fst v)" for E a c
proof
  fix v v' l
  assume "main_step E a v l v'" and "no_timeout l" and "tallied (me_sqa E) c (fst v)"
  then show "tallied (me_sqa E) c (fst v')"
    by (auto elim!: main_stepE simp: header_tallied no_timeout_def intro: step_tallied)
qed

lemma tallied_start:
  assumes "construct_client env a clk fresh = Inr (c, fd)"
  shows "tallied sqa c (fst (main_start E c))"
  using construct_client_fresh [OF assms]
  by (simp add: main_start_def tallied_def aggregated_def world_init_alone) (simp add: world_init_def)

text \<open>
  C12: When a run of the client program ends, and no receive timed out in it, the list of entries is
  empty, every entry ever made was aggregated exactly once and in order, and the four statistics that the
  report describes are those of the fresh client after aggregating exactly these entries; without the
  collator there are none and the statistics are those of the fresh client.
\<close>

theorem session_statistics:
  assumes "construct_client (me_client_env E) a (me_clock E) (me_socket E) = Inr (c, fd)"
    and "run (main_step E a) (main_start E c) ls (w, True)" and "ended a w"
    and "\<forall>l \<in> set ls. no_timeout l"
  shows "entry_list w = [] \<and> retired w = [0..<length (archive w)] \<and>
     all_stats (shared w) = all_stats (fold (aggregateRawData (me_sqa E)) (archive w) c) \<and>
     (\<not> runs_collator a \<longrightarrow> archive w = [])"
proof -
  have "tallied (me_sqa E) c w"
    using tally.run_keeps [OF assms(2,4), of c] tallied_start [OF assms(1), of "me_sqa E" E] by simp
  then show ?thesis
    using assms(3) by (auto simp: tallied_def aggregated_def alone_def ended_def in_progress_def split: if_splits)
qed

section \<open>One thread after the other\<close>

lemma run_main_threads:
  assumes "run (step (me_os E) (me_rng E) (me_ntop E) (me_sqa E)) w ls w'" and "Collator_starts \<in> set ls \<longrightarrow> runs_collator a"
  shows "run (main_step E a) (w, True) (map Thread ls) (w', True)"
  using assms by (induction rule: run.induct) (auto intro: run_Nil run_snoc main_step.Thread)

text \<open>A collator that is not started at the end was never started.\<close>

lemma unstarted_step:
  assumes "step os rng ntop sqa w l w'" and "pos w' Collator_thread = Unstarted"
  shows "l \<noteq> Collator_starts \<and> pos w Collator_thread = Unstarted"
proof (cases "quiet l")
  case True
  then show ?thesis using quiet_step [OF assms(1)] assms(2) by (auto simp: quiet_change_def)
next
  case False
  from assms(1) show ?thesis
    by (cases rule: step.cases) (use False assms(2) in \<open>auto split: if_splits\<close>)
qed

lemma unstarted_steps:
  assumes "steps os rng ntop sqa w ls w'" and "pos w' Collator_thread = Unstarted"
  shows "Collator_starts \<notin> set ls"
  using assms by (induction rule: run.induct) (auto dest: unstarted_step)

text \<open>The threads of a client run one after the other: sender, receiver, collator.\<close>

lemma sequential_steps:
  assumes "runSenderThread os rng e (if runs_collator a then c\<lparr>collator_started := 1\<rparr> else c) = Some (e1, c1)"
    and "runReceiverThread ntop sqa evs c1 = (Finished, c2)"
    and "if runs_collator a then collator_loop sqa c2 = Some c3 else c3 = c2"
  shows "\<exists>ls w. steps os rng ntop sqa (world_init rng e c) ls w \<and> ended a w \<and> shared w = c3"
proof -
  let ?w0 = "world_init rng e c"
  have w0: "w_env ?w0 = seed_engine rng e" "w_index ?w0 = 0" "\<not> w_sender_done ?w0" "pos ?w0 Receiver_thread = Looping"
    "pos ?w0 Collator_thread = Unstarted" "\<not> undefined_behaviour ?w0" "shared ?w0 = c" by (simp_all add: world_init_def)
  show ?thesis
  proof (cases "runs_collator a")
    case False
    with sender_receiver_steps [of os rng e ?w0 e1 c1 ntop sqa evs c2] assms w0 obtain ls w where
      w: "steps os rng ntop sqa ?w0 ls w" "shared w = c2" "w_sender_done w" "pos w = (pos ?w0)(Receiver_thread := Stopped)"
      "\<not> undefined_behaviour w" by auto
    then have "ended a w" using False w0(5) by (simp add: ended_def)
    with w(1,2) False assms(3) show ?thesis by auto
  next
    case True
    let ?w1 = "move Collator_thread Looping (?w0\<lparr>shared := (shared ?w0)\<lparr>collator_started := 1\<rparr>\<rparr>)"
    have 1: "step os rng ntop sqa ?w0 Collator_starts ?w1" by (rule step.Collator_starts [OF w0(5)])
    have "runSenderThread os rng e (shared ?w1) = Some (e1, c1)" using True assms(1) w0(7) by simp
    from sender_receiver_steps [OF this assms(2)] w0 obtain ls w2 where
      2: "steps os rng ntop sqa ?w1 ls w2" "shared w2 = c2" "w_sender_done w2" "pos w2 = (pos ?w1)(Receiver_thread := Stopped)"
      "\<not> undefined_behaviour w2" by auto
    have "collator_loop sqa (shared w2) = Some c3" "pos w2 Collator_thread = Looping" using True assms(3) 2 by simp_all
    from collator_loop_steps [OF this, of os rng ntop] obtain ls' w3 where
      3: "steps os rng ntop sqa w2 ls' w3" "thread_ran Collator_thread w2 c3 w3" by blast
    have "ended a w3" "shared w3 = c3" using 3(2) 2(3-5) True by (simp_all add: thread_ran_def ended_def)
    with steps_trans [OF 3(1) steps_Cons [OF 1 2(1)]] show ?thesis by blast
  qed
qed

text \<open>
  C13: The sequential programs of the threads are behaviours of the client program: when the constructed client prints the
  header, then the sender thread runs and ends, the receiver thread runs on some results of its receive calls
  and ends, and the collator, if it is to run, ends, then the program can end with the exit code, the output and
  the file of the report on the client they leave. The exit code is 0 unless a report is to be written and its
  conversion to text throws.
\<close>

theorem sequential_session:
  assumes "client_parse_args (me_build E) (me_exit_code E) cli = Inr a0" and "override_samples a0 = (warning, a)"
    and "construct_client (me_client_env E) a (me_clock E) (me_socket E) = Inr (c, fd)"
    and "runSenderThread (me_os E) (me_rng E) (me_engines E)
           (if runs_collator a then (printHeader c)\<lparr>collator_started := 1\<rparr> else printHeader c) = Some (e1, c1)"
    and "runReceiverThread (me_ntop E) (me_sqa E) evs c1 = (Finished, c2)"
    and "if runs_collator a then collator_loop (me_sqa E) c2 = Some c3 else c3 = c2"
    and "finish_client (me_json E) (me_sqa E) (me_getters E) a c3 = (code, c4, written)"
  shows "client_main E cli code (warning @ stdout c4) written \<and>
     (\<exists>t0. first_packet_sent_date (first_packet_sent_epoch_nanoseconds c3) = Inr t0 \<and>
       code = (if ca_json_output_file a \<noteq> [] \<and> ca_print_format a \<noteq> ''legacy'' \<and>
                  snd (ji_dump (me_json E) (logData (me_sqa E) (me_getters E) t0 c3)) \<noteq> None then 1 else 0))"
proof -
  let ?w0 = "world_init (me_rng E) (me_engines E) (printHeader c)"
  obtain ls w where w: "steps (me_os E) (me_rng E) (me_ntop E) (me_sqa E) ?w0 ls w" "ended a w" "shared w = c3"
    using sequential_steps [OF assms(4-6)] by blast
  have "Collator_starts \<in> set ls \<longrightarrow> runs_collator a"
    using unstarted_steps [OF w(1)] w(2) by (auto simp: ended_def split: if_splits)
  with w(1) have "run (main_step E a) (?w0, True) (map Thread ls) (w, True)" by (rule run_main_threads)
  moreover have "main_step E a (main_start E c) Header (?w0, True)"
    by (simp add: main_step_Header main_start_def world_init_def)
  ultimately have "run (main_step E a) (main_start E c) (Header # map Thread ls) (w, True)" by (simp add: run_Cons)
  from client_main.Completes [OF assms(1-3) this w(2), of code c4 written] assms(7) w(3)
  have "client_main E cli code (warning @ stdout c4) written" by simp
  then show ?thesis using finish_client_outcome [OF assms(7)] by (auto simp: writes_json_def split: if_splits)
qed

section \<open>A complete run\<close>

text \<open>The sender, the receiver and the collator end after the reply was collated.\<close>

lemma demo_completed:
  assumes "demo_ready c"
  shows "\<exists>ls w r. demo_steps (demo_start c) ls w \<and> (\<forall>l \<in> set ls. \<not> times_out l) \<and> w_sender_done w \<and>
     pos w Receiver_thread = Stopped \<and> pos w Collator_thread = Stopped \<and> \<not> undefined_behaviour w \<and>
     archive w = [r] \<and> entry_complete r"
proof -
  let ?S = "step demo_os sample_rng (\<lambda>v b. None) no_stats" and ?C = Collator_thread
  obtain w r where w: "demo_steps (demo_start c)
       ([Collator_starts, Sends, Receives (Recv_msg (sample_reply 42))] @ replicate 4 Processes) w"
    "w_index w = 1" "\<not> w_sender_done w" "\<not> undefined_behaviour w" "archive w = []"
    "pos w Receiver_thread = Looping" "pos w ?C = Looping" "args (shared w) = args c"
    "collator_finished (shared w) = 0" "received_packets (shared w) = 1" "sent_packets (shared w) = 1"
    "readings (clock (shared w)) = (\<lambda>n. \<lparr>tv_sec = 1700000000, tv_nsec = 0\<rparr>)"
    "observation_list (shared w) = \<lparr>ol_observations = []\<rparr>" "entry_list w = [r]" "entry_complete r"
    using demo_collated [OF assms] by blast
  let ?w1 = "w\<lparr>shared := (tick (shared w))\<lparr>sending_completed := 1700000000\<rparr>, w_sender_done := True\<rparr>"
  have 1: "?S w Sender_ends ?w1"
    by (rule step.Sender_ends [of _ "shared w"]) (use w(2,3,8,12) assms in \<open>simp_all add: more_to_send_def now_seconds_eq demo_ready_def\<close>)
  let ?w2 = "move Receiver_thread Stopped (?w1\<lparr>shared := shared ?w1\<rparr>)"
  have 2: "?S ?w1 Receiver_ends ?w2"
    by (rule step.Receiver_ends) (use w(6,10,11) in \<open>simp_all add: receiver_goes_on_def tick_def\<close>)
  let ?w3 = "move ?C Checking ?w2"
  have 3: "?S ?w2 Collator_checks ?w3"
    by (rule step.Collator_checks) (use w(7,9,13) in \<open>simp_all add: ol_isEmpty_def tick_def\<close>)
  have "entry_list ?w3 = [r]" "entry_ready x n r" for x n using w(14,15) by (simp_all add: tick_def entry_ready_def)
  from check_steps_retired [OF _ this, of ?C demo_os sample_rng "\<lambda>v b. None" no_stats] obtain w4 where
    4: "demo_steps ?w3 [Picks ?C, Retires ?C, Pops ?C] w4" "after_check ?C ?w3 w4 [r]"
      "shared w4 = check_if_oldest_packet_should_be_processed no_stats (shared ?w3)" by auto
  have c4: "collator_finished (shared w4) = 0" "sending_completed (shared w4) > 0" "entry_list w4 = []"
    "observation_list (shared w4) = \<lparr>ol_observations = []\<rparr>"
    unfolding 4(3) using w(9,13-15) by (simp_all add: check_oldest_eq tick_def)
  let ?w5 = "move ?C Checking w4"
  have 5: "?S w4 Collator_checks ?w5"
    by (rule step.Collator_checks) (use 4(2) c4 in \<open>simp_all add: ol_isEmpty_def after_check_def\<close>)
  from check_steps_empty [of ?w5 ?C demo_os sample_rng "\<lambda>v b. None" no_stats] c4 obtain w6 where
    6: "demo_steps ?w5 [Picks ?C, Finishes ?C] w6" "after_check ?C ?w5 w6 []"
      "shared w6 = check_if_oldest_packet_should_be_processed no_stats (shared w4)" by auto
  have 7: "?S w6 Collator_ends (move ?C Stopped w6)"
    by (rule step.Collator_ends) (use 6 c4 in \<open>simp_all add: after_check_def check_oldest_eq\<close>)
  note s = steps_snoc [OF steps_snoc [OF steps_snoc [OF w(1) 1] 2] 3]
  from steps_snoc [OF steps_trans [OF 6(1) steps_snoc [OF steps_trans [OF 4(1) s] 5]] 7] show ?thesis
    using w(4,5,15) 4(2) 6(2) by (intro exI conjI) (assumption, auto simp: after_check_def)
qed

definition demo_addrinfo :: addrinfo where
  "demo_addrinfo = \<lparr>ai_family = 2, ai_socktype = 2, ai_protocol = 17, ai_addr = [1]\<rparr>"

definition demo_env :: "(unit, unit) main_env" where
  "demo_env = \<lparr>me_build = sample_build, me_exit_code = (\<lambda>e. (105, [])),
     me_client_env = \<lparr>ce_getaddrinfo = (\<lambda>host service family. Inr demo_addrinfo), ce_socket = (\<lambda>family type protocol. None),
       ce_setsockopt = (\<lambda>opt. True), ce_bind = (\<lambda>addr. None), ce_getsockname = Some [2, 0, 48, 57], ce_strerror = (\<lambda>e. []), ce_create = (\<lambda>k. Some ())\<rparr>,
     me_os = demo_os, me_rng = sample_rng, me_engines = sample_sender_env, me_ntop = (\<lambda>v b. None), me_sqa = no_stats,
     me_getters = zero_getters, me_json = \<lparr>ji_dump = (\<lambda>j. (''{}'', None)), ji_opens = (\<lambda>f. True)\<rparr>,
     me_clock = \<lparr>readings = (\<lambda>n. \<lparr>tv_sec = 1700000000, tv_nsec = 0\<rparr>), ticks = 0\<rparr>, 
     me_socket = \<lparr>so_timestampns = False, so_rcvtimeo = None, so_ttl = 64, so_recvttl = False, so_tos = 0, so_recvtos = False\<rparr>\<rparr>"

definition demo_cli :: client_options where
  "demo_cli = sample_cli\<lparr>co_num_samples := Some 1, co_payload_lens := Some [42], co_print_format := Some ''raw'',
     co_json_output := Some ''report.json'', co_tos := None, co_addresses := [''10.0.0.1:862'']\<rparr>"

definition demo_cli_args :: client_args where
  "demo_cli_args = (bind_client_options demo_cli)\<lparr>ca_remote_hosts := [''10.0.0.1''], ca_remote_ports := [862]\<rparr>"

lemma demo_parsed: "client_parse_args (me_build demo_env) (me_exit_code demo_env) (Inr demo_cli) = Inr demo_cli_args"
proof -
  have "parseIPPort ''10.0.0.1:862'' [] 0 = (True, ''10.0.0.1'', 862)" by code_simp
  then show ?thesis
    by (simp add: client_parse_args_def demo_cli_args_def demo_cli_def sample_cli_def bind_client_options_def check_address_def
        client_args_default_def payload_len_check_def MIN_PAYLOAD_LEN_def MAX_PAYLOAD_LEN_def Let_def)
qed

lemma demo_cli_args_simps [simp]:
  "override_samples demo_cli_args = ([], demo_cli_args)" "runs_collator demo_cli_args"
  "ca_json_output_file demo_cli_args = ''report.json''" "ca_print_format demo_cli_args = ''raw''"
  by (simp_all add: demo_cli_args_def demo_cli_def sample_cli_def bind_client_options_def client_args_default_def
      override_samples_def runs_collator_def Let_def)

lemma demo_constructed:
  "\<exists>c fd. construct_client (me_client_env demo_env) demo_cli_args (me_clock demo_env) (me_socket demo_env) = Inr (c, fd) \<and>
     demo_ready (printHeader c)"
proof -
  obtain start clk' where t: "time_null (me_clock demo_env) = (start, clk')" by fastforce
  have a: "ca_ip_version demo_cli_args = 4" "ca_remote_hosts demo_cli_args = [''10.0.0.1'']" "ca_remote_ports demo_cli_args = [862]"
    "ca_num_samples demo_cli_args = 1" "ca_runtime demo_cli_args = 0" "ca_payload_lens demo_cli_args = [42]"
    by (simp_all add: demo_cli_args_def demo_cli_def sample_cli_def bind_client_options_def client_args_default_def Let_def)
  obtain fd1 err1 where 1: "set_socket_options (\<lambda>opt. True) 255 (ca_timeout demo_cli_args) (me_socket demo_env) = (fd1, err1)" by fastforce
  obtain fd err2 where 2: "set_socket_tos (\<lambda>opt. True) (ca_snd_tos demo_cli_args) fd1 = (fd, err2)" by fastforce
  obtain c where c: "constructed (me_client_env demo_env) demo_cli_args (me_clock demo_env) [demo_addrinfo] (err1 @ err2) c"
    by (simp add: constructed_def demo_env_def)
  have "open_client (me_client_env demo_env) demo_cli_args (client_family demo_cli_args) start clk' (me_socket demo_env) = Inr (c, fd)"
    unfolding open_client_Inr [OF t] using c 1 2 a
    by (intro exI [of _ "[demo_addrinfo]"] exI [of _ demo_addrinfo] exI [of _ fd1] exI [of _ err1] exI [of _ err2])
      (simp add: demo_env_def resolves_def socket_fails_def)
  moreover have "demo_ready (printHeader c)"
    using c a by (auto simp: constructed_def demo_env_def client_init_def demo_ready_def printHeader_def print_def
        payload_lens_ok_def can_print_def time_null_def clock_gettime_def)
  ultimately show ?thesis using a(1) by (auto simp: construct_client_def t)
qed

lemma demo_session:
  "\<exists>c fd ls w r. construct_client (me_client_env demo_env) demo_cli_args (me_clock demo_env) (me_socket demo_env) = Inr (c, fd) \<and>
     run (main_step demo_env demo_cli_args) (main_start demo_env c) ls (w, True) \<and> ended demo_cli_args w \<and>
     (\<forall>l \<in> set ls. no_timeout l) \<and> archive w = [r] \<and> entry_complete r"
proof -
  obtain c fd where c: "construct_client (me_client_env demo_env) demo_cli_args (me_clock demo_env) (me_socket demo_env) = Inr (c, fd)"
    "demo_ready (printHeader c)" using demo_constructed by blast
  obtain ls w r where w: "demo_steps (demo_start (printHeader c)) ls w" "\<forall>l \<in> set ls. \<not> times_out l" "w_sender_done w"
    "pos w Receiver_thread = Stopped" "pos w Collator_thread = Stopped" "\<not> undefined_behaviour w" "archive w = [r]" "entry_complete r"
    using demo_completed [OF c(2)] by blast
  have "main_step demo_env demo_cli_args (main_start demo_env c) Header (demo_start (printHeader c), True)"
    by (simp add: main_step_Header main_start_def demo_env_def world_init_def)
  moreover have "run (main_step demo_env demo_cli_args) (demo_start (printHeader c), True) (map Thread ls) (w, True)"
    using w(1) by (intro run_main_threads) (simp_all add: demo_env_def)
  ultimately have "run (main_step demo_env demo_cli_args) (main_start demo_env c) (Header # map Thread ls) (w, True)"
    by (rule run_Cons)
  with c w show ?thesis
    by (intro exI conjI) (assumption | auto simp: ended_def no_timeout_def)+
qed

theorem session_statistics_witness:
  "\<exists>c fd ls w r. construct_client (me_client_env demo_env) demo_cli_args (me_clock demo_env) (me_socket demo_env) = Inr (c, fd) \<and>
     run (main_step demo_env demo_cli_args) (main_start demo_env c) ls (w, True) \<and> archive w = [r] \<and> entry_complete r \<and>
     entry_list w = [] \<and> retired w = [0]"
proof -
  obtain c fd ls w r where w:
    "construct_client (me_client_env demo_env) demo_cli_args (me_clock demo_env) (me_socket demo_env) = Inr (c, fd)"
    "run (main_step demo_env demo_cli_args) (main_start demo_env c) ls (w, True)" "ended demo_cli_args w"
    "\<forall>l \<in> set ls. no_timeout l" "archive w = [r]" "entry_complete r" using demo_session by blast
  from session_statistics [OF w(1-4)] w(5) have "entry_list w = []" "retired w = [0]" by simp_all
  with w show ?thesis by blast
qed

theorem client_main_outcomes_witness:
  "\<exists>out. client_main demo_env (Inr demo_cli) 0 out (Some (''report.json'', ''{}'' @ [CHR 0x0A]))"
proof -
  obtain c fd ls w where w:
    "construct_client (me_client_env demo_env) demo_cli_args (me_clock demo_env) (me_socket demo_env) = Inr (c, fd)"
    "run (main_step demo_env demo_cli_args) (main_start demo_env c) ls (w, True)" "ended demo_cli_args w"
    using demo_session by blast
  obtain code c' written where
    "finish_client (me_json demo_env) (me_sqa demo_env) (me_getters demo_env) demo_cli_args (shared w) = (code, c', written)"
    by (metis prod.exhaust)
  from client_main.Completes [OF demo_parsed demo_cli_args_simps(1) w this]
  have m: "client_main demo_env (Inr demo_cli) code (stdout c') written" by simp
  from client_main_outcomes [OF m] w(1) have "code = 0" "written = Some (''report.json'', ''{}'' @ [CHR 0x0A])"
    by (auto simp: demo_parsed) (auto simp: demo_env_def)
  with m show ?thesis by blast
qed

text \<open>A network that refuses every packet: the threads end with nothing measured.\<close>

definition refusing_os :: sender_os where
  "refusing_os = \<lparr>os_sendmsg = (\<lambda>k. Some 101), os_strerror = (\<lambda>e. ''unreachable''), os_beyond = (\<lambda>k. 0)\<rparr>"

lemma refused_round:
  assumes "length (remote_address_info c) = 1"
  shows "\<exists>e' err. sender_round refusing_os rng i (e, c) = (e', (tick c)\<lparr>stderr := err\<rparr>)"
proof -
  obtain rai where "remote_address_info c = [rai]" using assms by (auto simp: length_Suc_conv)
  then show ?thesis
    by (simp add: sender_round_def sendPacket_def craftSenderPacket_eq refusing_os_def case_prod_beta Let_def) blast
qed

lemma refused_threads:
  assumes "demo_ready c"
  shows "\<exists>e1 c1 c3. runSenderThread refusing_os rng e (c\<lparr>collator_started := 1\<rparr>) = Some (e1, c1) \<and>
     runReceiverThread ntop sqa [] c1 = (Finished, c1) \<and> collator_loop sqa c1 = Some c3"
proof -
  let ?c = "c\<lparr>collator_started := 1\<rparr>"
  obtain e1 err where r: "sender_round refusing_os rng 0 (seed_engine rng e, ?c) = (e1, (tick ?c)\<lparr>stderr := err\<rparr>)"
    using refused_round [of ?c rng 0 "seed_engine rng e"] assms by (auto simp: demo_ready_def)
  let ?d = "(tick ?c)\<lparr>stderr := err\<rparr>"
  let ?c1 = "(tick ?d)\<lparr>sending_completed := 1700000000\<rparr>"
  have "sender_loop refusing_os rng 1 e1 ?d = Some (e1, ?d)"
    using assms by (subst sender_loop.simps) (simp add: demo_ready_def more_to_send_def)
  then have "sender_loop refusing_os rng 0 (seed_engine rng e) ?c = Some (e1, ?d)"
    using assms r by (subst sender_loop.simps) (simp add: demo_ready_def more_to_send_def runtime_over_def)
  then have s: "runSenderThread refusing_os rng e ?c = Some (e1, ?c1)"
    using assms by (simp add: runSenderThread_def now_seconds_eq demo_ready_def)
  have "draining 0 [] ?c1" using assms by (simp add: draining_def ready_from_def demo_ready_def)
  then obtain c3 where "collator_loop sqa ?c1 = Some c3" using collator_loop_retires by blast
  moreover have "runReceiverThread ntop sqa [] ?c1 = (Finished, ?c1)"
    using assms by (simp add: runReceiverThread_def receiver_goes_on_def demo_ready_def tick_def)
  ultimately show ?thesis using s by blast
qed

theorem sequential_session_witness:
  "\<exists>out written. client_main (demo_env\<lparr>me_os := refusing_os\<rparr>) (Inr demo_cli) 0 out written"
proof -
  let ?E = "demo_env\<lparr>me_os := refusing_os\<rparr>"
  obtain c fd where c: "construct_client (me_client_env ?E) demo_cli_args (me_clock ?E) (me_socket ?E) = Inr (c, fd)"
    "demo_ready (printHeader c)" using demo_constructed by auto
  obtain e1 c1 c3 where t: "runSenderThread refusing_os (me_rng ?E) (me_engines ?E) ((printHeader c)\<lparr>collator_started := 1\<rparr>) = Some (e1, c1)"
    "runReceiverThread (me_ntop ?E) (me_sqa ?E) [] c1 = (Finished, c1)" "collator_loop (me_sqa ?E) c1 = Some c3"
    using refused_threads [OF c(2), of "me_rng ?E" "me_engines ?E" "me_ntop ?E" "me_sqa ?E"] by blast
  obtain code c4 written where f: "finish_client (me_json ?E) (me_sqa ?E) (me_getters ?E) demo_cli_args c3 = (code, c4, written)"
    by (metis prod.exhaust)
  have d: "snd (ji_dump (me_json demo_env) v) = None" for v by (simp add: demo_env_def)
  have "client_parse_args (me_build ?E) (me_exit_code ?E) (Inr demo_cli) = Inr demo_cli_args" using demo_parsed by simp
  from sequential_session [OF this demo_cli_args_simps(1) c(1) _ t(2) _ f, of e1] t(1,3)
  have "client_main ?E (Inr demo_cli) code (stdout c4) written \<and> code = 0" by (auto simp: d)
  then show ?thesis by blast
qed

end
