(* ===== verification/Platforms.thy ===== *)
theory Platforms
  imports Receiver
begin

text \<open>
  The conditional compilation of \<^verbatim>\<open>src/utils.cpp\<close> and \<^verbatim>\<open>src/client/Client.cpp\<close>: what \<^verbatim>\<open>get_ip_header\<close>,
  \<^verbatim>\<open>set_socket_options\<close>, \<^verbatim>\<open>set_socket_tos\<close> and the client's handling of a datagram are on a platform without control
  messages or without some of the socket options, and in a build without kernel timestamps in the
  client. The other theories model the build for Linux, which has all of them; the lemmas relate the
  two.
\<close>

section \<open>Builds\<close>

record platform =
  message_control :: bool
  has_rcvtimeo :: bool
  has_ip_ttl :: bool
  has_ip_recvttl :: bool
  has_ip_tos :: bool
  has_ip_recvtos :: bool
  client_kernel_timestamps :: bool

definition linux :: platform where
  "linux = \<lparr>message_control = True, has_rcvtimeo = True, has_ip_ttl = True, has_ip_recvttl = True, has_ip_tos = True,
     has_ip_recvtos = True, client_kernel_timestamps = True\<rparr>"

definition no_message_control :: string where
  "no_message_control = ''No message control on that platform, so no way to find IP options'' @ [CHR 0x0A]"

text \<open>The header, the warnings on the standard error and the text on the standard output.\<close>

definition get_ip_header_on :: "platform \<Rightarrow> cmsg list \<Rightarrow> (ip_header \<times> string list) \<times> string" where
  "get_ip_header_on p cs =
     (if message_control p then (get_ip_header cs, [])
      else ((\<lparr>ttl = DEFAULT_TTL, tos = 0\<rparr>, []), no_message_control))"

text \<open>A call that is compiled only where the option exists, with the message that replaces it.\<close>

definition setsockopt_on ::
  "bool \<Rightarrow> (sockopt \<Rightarrow> bool) \<Rightarrow> sockopt \<Rightarrow> string \<Rightarrow> string \<Rightarrow> socket \<times> string list \<Rightarrow> socket \<times> string list" where
  "setsockopt_on has ok opt msg no_way acc =
     (if has then setsockopt ok opt msg acc else (fst acc, snd acc @ [no_way]))"

definition set_socket_options_on ::
  "platform \<Rightarrow> (sockopt \<Rightarrow> bool) \<Rightarrow> u8 \<Rightarrow> u8 \<Rightarrow> socket \<Rightarrow> socket \<times> string list" where
  "set_socket_options_on p ok ip_ttl timeout_secs s =
     (let timeout = \<lparr>tval_sec = uint timeout_secs, tval_usec = 0\<rparr>;
          a1 = setsockopt ok (Timestampns 1) ''ERROR: setsockopt SO_TIMESTAMPNS'' (s, []);
          a2 = (if has_rcvtimeo p \<and> timeout_secs = 0 then a1
                else setsockopt_on (has_rcvtimeo p) ok (Rcvtimeo timeout)
                       ''[PROBLEM] Cannot set the timeout value for reception.''
                       ''No way to set the timeout value for incoming packets on that platform.'' a1);
          a3 = setsockopt_on (has_ip_ttl p) ok (Ttl ip_ttl)
                 ''[PROBLEM] Cannot set the TTL value for emission.''
                 ''No way to set the TTL value for leaving packets on that platform.'' a2;
          a4 = setsockopt_on (has_ip_recvttl p) ok (Recvttl 1)
                 ''[PROBLEM] Cannot set the socket option for TTL reception.''
                 ''No way to ask for the TTL of incoming packets on that platform.'' a3;
          a5 = setsockopt_on (has_ip_tos p) ok (Tos 1)
                 ''[PROBLEM] Cannot set the socket option for TOS.''
                 ''No way to ask for the TOS of incoming packets on that platform.'' a4
      in setsockopt_on (has_ip_recvtos p) ok (Recvtos 1)
           ''[PROBLEM] Cannot set the socket option for TOS reception.''
           ''No way to ask for the TOS of incoming packets on that platform.'' a5)"

definition set_socket_tos_on :: "platform \<Rightarrow> (sockopt \<Rightarrow> bool) \<Rightarrow> u8 \<Rightarrow> socket \<Rightarrow> socket \<times> string list" where
  "set_socket_tos_on p ok ip_tos s =
     setsockopt_on (has_ip_tos p) ok (Tos ip_tos)
       ''[PROBLEM] Cannot set the TOS value for emission.''
       ''No way to set the TOS value for leaving packets on that platform.'' (s, [])"

text \<open>
  The client's handling of a datagram: the line of the legacy format reads the header, and the arrival time is
  that of the kernel in builds that ask for it.
\<close>

definition printReflectorPacket_on ::
  "platform \<Rightarrow> (u8 \<Rightarrow> u8 list \<Rightarrow> string option) \<Rightarrow> 'st sqa_api \<Rightarrow> reflector_packet \<Rightarrow> msghdr \<Rightarrow> int \<Rightarrow> u64 \<Rightarrow> 'st \<Rightarrow>
   'st client \<Rightarrow> string + 'st client" where
  "printReflectorPacket_on pl inet_ntop sqa p hdr n client_receive_time stats c =
     (let ((ipHeader, err), out) = get_ip_header_on pl (msg_control hdr);
          c = print out (c\<lparr>stderr := stderr c @ err\<rparr>);
          (port, host) = parse_ip_address inet_ntop (msg_name hdr) 0 [] (ca_ip_version (args c))
      in case stoi (ca_local_port (args c)) of
           Inl Out_of_range \<Rightarrow> Inl (''Local port out of range: '' @ ca_local_port (args c))
         | Inl _ \<Rightarrow> Inl (''Invalid local port: '' @ ca_local_port (args c))
         | Inr local \<Rightarrow>
             let (timeData, warnings) = computeTimeData client_receive_time p;
                 c = c\<lparr>stderr := stderr c @ warnings\<rparr>;
                 data = populateMetricData sqa p ipHeader host (word_of_int local) port n timeData stats
             in Inr (if ca_print_RTT_only (args c)
                     then print (print_fixed (d_div (d_of_int (uint (td_rtt timeData))) d_1em6) @ [CHR 0x0A]) c
                     else printMetrics data c))"

definition handleReflectorPacket_on ::
  "platform \<Rightarrow> (u8 \<Rightarrow> u8 list \<Rightarrow> string option) \<Rightarrow> 'st sqa_api \<Rightarrow> reflector_packet \<Rightarrow> msghdr \<Rightarrow> int \<Rightarrow> timespec \<Rightarrow>
   'st client \<Rightarrow> string + 'st client" where
  "handleReflectorPacket_on pl ntop sqa p hdr n incoming_timestamp c =
     (let (received, c) =
            (if tv_sec incoming_timestamp = 0 \<and> tv_nsec incoming_timestamp = 0
             then (case now_timestamp c of (ts, c') \<Rightarrow> (timestamp_to_nsec ts, c'))
             else (timespec_nanoseconds incoming_timestamp, c));
          c = note_received p n received c
      in if ca_print_format (args c) = ''legacy''
         then printReflectorPacket_on pl ntop sqa p hdr n received (stats_client_server c) c
         else Inr c)"

definition awaitAndHandleResponse_on ::
  "platform \<Rightarrow> (u8 \<Rightarrow> u8 list \<Rightarrow> string option) \<Rightarrow> 'st sqa_api \<Rightarrow> recv_result \<Rightarrow> 'st client \<Rightarrow>
   string + bool \<times> 'st client" where
  "awaitAndHandleResponse_on pl ntop sqa ev c =
     (let (incoming_msg, count) = recvmsg client_msghdr ev;
          incoming_timestamp =
            (if client_kernel_timestamps pl then get_kernel_timestamp (msg_control incoming_msg) timespec_zero
             else timespec_zero)
      in if count = -1 then Inr (False, c)
         else if msg_trunc incoming_msg then Inr (False, c)
         else (case handleReflectorPacket_on pl ntop sqa (reflector_packet_of_bytes (fst (hd (msg_iov incoming_msg))))
                      incoming_msg count incoming_timestamp c of
                 Inl msg \<Rightarrow> Inl msg
               | Inr c' \<Rightarrow> Inr (True, c')))"

section \<open>The build for Linux\<close>

lemma setsockopt_on_True [simp]: "setsockopt_on True ok opt msg no_way acc = setsockopt ok opt msg acc"
  by (simp add: setsockopt_on_def)

lemma print_Nil [simp]: "print [] c = c"
  by (simp add: print_def)

lemma printReflectorPacket_on_eq:
  "printReflectorPacket_on pl ntop sqa p hdr n t st c =
     (if message_control pl then printReflectorPacket ntop sqa p hdr n t st c
      else printReflectorPacket ntop sqa p (hdr\<lparr>msg_control := []\<rparr>) n t st (print no_message_control c))"
proof -
  have "get_ip_header [] = (\<lparr>ttl = DEFAULT_TTL, tos = 0\<rparr>, [])" by (simp add: get_ip_header_def)
  then show ?thesis
    unfolding printReflectorPacket_on_def printReflectorPacket_def get_ip_header_on_def
    by (cases "message_control pl"; cases "stoi (ca_local_port (args c))")
      (simp_all add: case_prod_beta Let_def print_def split: cxx_exn.split)
qed

lemma handleReflectorPacket_on_control:
  "message_control pl \<Longrightarrow> handleReflectorPacket_on pl = handleReflectorPacket"
  by (intro ext) (simp only: handleReflectorPacket_on_def handleReflectorPacket_def printReflectorPacket_on_eq if_True)

lemma linux_simps [simp]:
  "get_ip_header_on linux cs = (get_ip_header cs, [])"
  "set_socket_options_on linux = set_socket_options" "set_socket_tos_on linux = set_socket_tos"
  "awaitAndHandleResponse_on linux = awaitAndHandleResponse"
  by (simp_all add: fun_eq_iff linux_def get_ip_header_on_def set_socket_options_on_def set_socket_options_def
      set_socket_tos_on_def set_socket_tos_def awaitAndHandleResponse_on_def awaitAndHandleResponse_def
      handleReflectorPacket_on_control Let_def cong: if_cong)

section \<open>Other builds\<close>

text \<open>An option of a platform without it fails like a call that the kernel refuses.\<close>

fun supports :: "platform \<Rightarrow> sockopt \<Rightarrow> bool" where
  "supports p (Timestampns _) = True"
| "supports p (Rcvtimeo _) = has_rcvtimeo p"
| "supports p (Ttl _) = has_ip_ttl p"
| "supports p (Recvttl _) = has_ip_recvttl p"
| "supports p (Tos _) = has_ip_tos p"
| "supports p (Recvtos _) = has_ip_recvtos p"

text \<open>The control messages that the build reads: timestamps, and those of the IP header.\<close>

definition read_on :: "platform \<Rightarrow> cmsg list \<Rightarrow> cmsg list" where
  "read_on pl cs = filter (\<lambda>m. if is_timestamp_cmsg m then client_kernel_timestamps pl else message_control pl) cs"

fun received_on :: "platform \<Rightarrow> recv_result \<Rightarrow> recv_result" where
  "received_on pl (Recv_error e) = Recv_error e"
| "received_on pl (Recv_msg d) = Recv_msg (d\<lparr>in_control := read_on pl (in_control d)\<rparr>)"

lemma timestamp_cmsg_kind:
  "is_timestamp_cmsg c \<Longrightarrow> \<not> is_ttl_cmsg c \<and> \<not> is_tos_cmsg c \<and> \<not> is_unexpected_cmsg c"
  by (auto simp: cmsg_kind_defs sock_consts)

lemma get_ip_header_read_on:
  "get_ip_header (read_on pl cs) = (if message_control pl then get_ip_header cs else get_ip_header [])"
proof -
  have "filter P (read_on pl cs) = (if message_control pl then filter P cs else [])"
    if "\<And>c. is_timestamp_cmsg c \<Longrightarrow> \<not> P c" for P
    using that by (auto simp: read_on_def filter_empty_conv intro: filter_cong)
  then show ?thesis
    using timestamp_cmsg_kind by (simp add: get_ip_header_eq)
qed

lemma get_kernel_timestamp_read_on:
  "get_kernel_timestamp (read_on pl cs) t = (if client_kernel_timestamps pl then get_kernel_timestamp cs t else t)"
proof -
  have "filter is_timestamp_cmsg (read_on pl cs) = (if client_kernel_timestamps pl then filter is_timestamp_cmsg cs else [])"
    by (auto simp: read_on_def filter_empty_conv intro: filter_cong)
  then show ?thesis by (simp add: get_kernel_timestamp_eq)
qed

lemma printReflectorPacket_header_cong:
  assumes "get_ip_header (msg_control hdr) = get_ip_header (msg_control hdr')" and "msg_name hdr = msg_name hdr'"
  shows "printReflectorPacket ntop sqa q hdr n t st c = printReflectorPacket ntop sqa q hdr' n t st c"
  using assms by (simp add: printReflectorPacket_def)

lemma note_received_print: "note_received p n t (print s c) = print s (note_received p n t c)"
  by (simp add: note_received_def fold_enqueue print_def Let_def)

text \<open>Without control messages each line of the legacy format is preceded by the message.\<close>

lemma handleReflectorPacket_on_read:
  assumes "msg_control hdr = cs"
  shows "handleReflectorPacket_on pl ntop sqa p hdr n t c =
     handleReflectorPacket ntop sqa p (hdr\<lparr>msg_control := read_on pl cs\<rparr>) n t
       (if \<not> message_control pl \<and> ca_print_format (args c) = ''legacy'' then print no_message_control c else c)"
proof -
  let ?hdr = "hdr\<lparr>msg_control := read_on pl cs\<rparr>"
  have h: "printReflectorPacket_on pl ntop sqa p hdr n r st x =
      printReflectorPacket ntop sqa p ?hdr n r st (if message_control pl then x else print no_message_control x)" for r st x
    unfolding printReflectorPacket_on_eq
    by (cases "message_control pl")
      (simp_all add: printReflectorPacket_header_cong [of hdr ?hdr] printReflectorPacket_header_cong [of "hdr\<lparr>msg_control := []\<rparr>" ?hdr]
        get_ip_header_read_on assms)
  have s: "stats_client_server (print s x) = stats_client_server x" "args (print s x) = args x"
    "clock (print s x) = clock x" "tick (print s x) = print s (tick x)" for s and x :: "'a client"
    by (simp_all add: print_def tick_def)
  show ?thesis
    unfolding handleReflectorPacket_on_def handleReflectorPacket_def h
    by (cases "message_control pl"; cases "ca_print_format (args c) = ''legacy''")
      (simp_all add: s note_received_print note_received_fields now_timestamp_eq case_prod_beta Let_def)
qed

lemma await_on_eq:
  "awaitAndHandleResponse_on pl ntop sqa ev c =
     awaitAndHandleResponse ntop sqa (received_on pl ev)
       (if \<not> message_control pl \<and> ca_print_format (args c) = ''legacy'' \<and> fits ev then print no_message_control c else c)"
proof (cases ev)
  case (Recv_error e)
  then show ?thesis by (simp add: awaitAndHandleResponse_on_def awaitAndHandleResponse_def Let_def)
next
  case (Recv_msg d)
  let ?d = "d\<lparr>in_control := read_on pl (in_control d)\<rparr>"
  show ?thesis
  proof (cases "length (in_payload d) \<le> TST_PKT_SIZE")
    case True
    then have "length (in_payload ?d) \<le> TST_PKT_SIZE" by simp
    note r = client_recv [OF True] client_recv [OF this]
    show ?thesis
      unfolding Recv_msg received_on.simps awaitAndHandleResponse_on_def awaitAndHandleResponse_def r
      using True by (simp add: get_kernel_timestamp_read_on handleReflectorPacket_on_read [OF refl] client_msghdr_def make_msghdr_def
          Let_def cong: if_cong)
  next
    case False
    then show ?thesis
      by (simp add: Recv_msg awaitAndHandleResponse_on_def awaitAndHandleResponse_def client_msghdr_def make_msghdr_def Let_def)
  qed
qed

text \<open>
  C31: The conditionally compiled variants. Without control messages every header is the default one of RFC 5357,
  TTL 255. A platform without some socket options leaves the socket as Linux does when the kernel
  refuses exactly these options, with as many messages, and one more when there is no way to set the
  timeout that was not asked for. The client handles a datagram as on Linux when the kernel sends only the control
  messages that its build reads: without kernel timestamps arrival times are read from the clock, and without
  control messages a datagram that fits has the default header and, in the legacy format, a message is printed before
  its line.
\<close>

theorem platform_variants:
  "get_ip_header_on pl cs =
     (if message_control pl then (get_ip_header cs, [])
      else (get_ip_header [], ''No message control on that platform, so no way to find IP options'' @ [CHR 0x0A]))
   \<and> (let kernel = (\<lambda>opt. supports pl opt \<and> ok opt);
          (s1, err1) = set_socket_options_on pl ok ttl0 timeout s; (s2, err2) = set_socket_tos_on pl ok tos0 s1;
          (t1, err1') = set_socket_options kernel ttl0 timeout s; (t2, err2') = set_socket_tos kernel tos0 t1
      in s2 = t2 \<and> length err2 = length err2' \<and>
         length err1 = length err1' + (if timeout = 0 \<and> \<not> has_rcvtimeo pl then 1 else 0))
   \<and> awaitAndHandleResponse_on pl ntop sqa ev c =
       awaitAndHandleResponse ntop sqa (received_on pl ev)
         (if \<not> message_control pl \<and> ca_print_format (args c) = ''legacy'' \<and> fits ev
          then print (''No message control on that platform, so no way to find IP options'' @ [CHR 0x0A]) c else c)"
proof (intro conjI)
  show "get_ip_header_on pl cs =
     (if message_control pl then (get_ip_header cs, [])
      else (get_ip_header [], ''No message control on that platform, so no way to find IP options'' @ [CHR 0x0A]))"
    by (simp add: get_ip_header_on_def get_ip_header_def no_message_control_def)
  show "awaitAndHandleResponse_on pl ntop sqa ev c =
       awaitAndHandleResponse ntop sqa (received_on pl ev)
         (if \<not> message_control pl \<and> ca_print_format (args c) = ''legacy'' \<and> fits ev
          then print (''No message control on that platform, so no way to find IP options'' @ [CHR 0x0A]) c else c)"
    unfolding await_on_eq no_message_control_def ..
  show "let kernel = (\<lambda>opt. supports pl opt \<and> ok opt);
          (s1, err1) = set_socket_options_on pl ok ttl0 timeout s; (s2, err2) = set_socket_tos_on pl ok tos0 s1;
          (t1, err1') = set_socket_options kernel ttl0 timeout s; (t2, err2') = set_socket_tos kernel tos0 t1
      in s2 = t2 \<and> length err2 = length err2' \<and>
         length err1 = length err1' + (if timeout = 0 \<and> \<not> has_rcvtimeo pl then 1 else 0)"
    unfolding set_socket_options_on_def set_socket_options_def set_socket_tos_on_def set_socket_tos_def Let_def
    by (cases "timeout = 0"; cases "has_rcvtimeo pl"; cases "has_ip_ttl pl"; cases "has_ip_recvttl pl"; cases "has_ip_tos pl";
        cases "has_ip_recvtos pl")
      (simp_all add: setsockopt_on_def setsockopt_eqs length_failed cong: if_cong split del: if_split)
qed

end
