(* ===== verification/Resources.thy ===== *)
theory Resources
  imports Setup
begin

text \<open>
  What the client's constructor acquires from the system and its destructor gives back: \<^verbatim>\<open>Client::Client\<close> and
  \<^verbatim>\<open>Client::~Client\<close> of \<^verbatim>\<open>src/client/Client.cpp\<close>. A member that the constructor has not set yet is
  \<^const>\<open>None\<close>: the null pointer of the addresses, the descriptor -1, the statistics without a value.
  A constructor that throws is not followed by the destructor.
\<close>

section \<open>Resources\<close>

text \<open>
  A list of addresses is named by the position of its host, statistics by the number of the call that created
  them.
\<close>

datatype resource = Remote_addrinfo nat | Local_addrinfo | Descriptor | Stats nat

record client_handles =
  ch_stats_RTT :: "resource option"
  ch_stats_internal :: "resource option"
  ch_stats_client_server :: "resource option"
  ch_stats_server_client :: "resource option"
  ch_remote_address_info :: "resource option list"
  ch_local_address_info :: "resource option"
  ch_fd :: "resource option"

definition client_handles_init :: client_handles where
  "client_handles_init =
     \<lparr>ch_stats_RTT = None, ch_stats_internal = None, ch_stats_client_server = None, ch_stats_server_client = None,
      ch_remote_address_info = [], ch_local_address_info = None, ch_fd = None\<rparr>"

section \<open>Acquisition\<close>

text \<open>
  The members after the constructor, and whether it reached its end. The vector of addresses is resized first; each
  call that succeeds sets its member. Without hosts the constructor is undefined from the creation of the
  socket on: it does not reach its end.
\<close>

fun acquire_remotes ::
  "'st client_env \<Rightarrow> int \<Rightarrow> nat \<Rightarrow> string list \<Rightarrow> u16 list \<Rightarrow> resource option list \<times> bool" where
  "acquire_remotes env family i [] ports = ([], True)"
| "acquire_remotes env family i (host # hosts) [] = (replicate (Suc (length hosts)) None, False)"
| "acquire_remotes env family i (host # hosts) (port # ports) =
     (case ce_getaddrinfo env (Some host) (dec (unat port)) family of
        Inl err \<Rightarrow> (replicate (Suc (length hosts)) None, False)
      | Inr addr \<Rightarrow>
          (case acquire_remotes env family (Suc i) hosts ports of
             (hs, ok) \<Rightarrow> (Some (Remote_addrinfo i) # hs, ok)))"

definition acquire_stats :: "'st client_env \<Rightarrow> client_handles \<Rightarrow> client_handles \<times> bool" where
  "acquire_stats env h =
     (if ce_create env 0 = None then (h, False)
      else let h = h\<lparr>ch_stats_RTT := Some (Stats 0)\<rparr> in
      if ce_create env 1 = None then (h, False)
      else let h = h\<lparr>ch_stats_internal := Some (Stats 1)\<rparr> in
      if ce_create env 2 = None then (h, False)
      else let h = h\<lparr>ch_stats_client_server := Some (Stats 2)\<rparr> in
      if ce_create env 3 = None then (h, False)
      else (h\<lparr>ch_stats_server_client := Some (Stats 3)\<rparr>, True))"

definition acquire_client :: "'st client_env \<Rightarrow> client_args \<Rightarrow> client_handles \<times> bool" where
  "acquire_client env a =
     (let h = client_handles_init; family = client_family a
      in if ca_ip_version a \<noteq> 4 \<and> ca_ip_version a \<noteq> 6 then (h, False)
         else case acquire_remotes env family 0 (ca_remote_hosts a) (ca_remote_ports a) of
           (remotes, ok) \<Rightarrow>
             let h = h\<lparr>ch_remote_address_info := remotes\<rparr>
             in if \<not> ok then (h, False)
                else case ce_getaddrinfo env (if ca_local_host a = [] then None else Some (ca_local_host a)) (ca_local_port a) family of
                    Inl err \<Rightarrow> (h, False)
                  | Inr local \<Rightarrow>
                      let h = h\<lparr>ch_local_address_info := Some Local_addrinfo\<rparr>
                      in case resolve_hosts env family (ca_remote_hosts a) (ca_remote_ports a) of
                           Inr (first # addrs) \<Rightarrow>
                             if ce_socket env (ai_family first) (ai_socktype first) (ai_protocol first) \<noteq> None then (h, False)
                             else let h = h\<lparr>ch_fd := Some Descriptor\<rparr>
                                  in if ce_bind env (ai_addr local) \<noteq> None then (h, False) else acquire_stats env h
                         | _ \<Rightarrow> (h, False))"

section \<open>Release\<close>

text \<open>The calls of the destructor, in order. The statistics are destroyed without a test.\<close>

definition destroy_client :: "client_handles \<Rightarrow> resource option list" where
  "destroy_client h =
     [ch_stats_RTT h, ch_stats_internal h, ch_stats_client_server h, ch_stats_server_client h] @
     filter (\<lambda>r. r \<noteq> None) (ch_remote_address_info h) @
     (if ch_local_address_info h \<noteq> None then [ch_local_address_info h] else []) @
     (if ch_fd h \<noteq> None then [ch_fd h] else [])"

text \<open>What the members hold.\<close>

definition held :: "client_handles \<Rightarrow> resource set" where
  "held h = Option.these (set
     ([ch_stats_RTT h, ch_stats_internal h, ch_stats_client_server h, ch_stats_server_client h] @
      ch_remote_address_info h @ [ch_local_address_info h, ch_fd h]))"

section \<open>Construction and destruction\<close>

lemma acquire_remotes_all:
  "resolve_hosts env family hosts ports = Inr addrs \<Longrightarrow>
   acquire_remotes env family i hosts ports = (map (Some \<circ> Remote_addrinfo) [i..<i + length hosts], True)"
proof (induction env family i hosts ports arbitrary: addrs rule: acquire_remotes.induct)
  case (3 env family i host hosts port ports)
  then show ?case by (auto simp: upt_conv_Cons simp del: upt_Suc split: sum.splits)
qed simp_all

lemma acquire_stats_all:
  assumes "\<forall>k < 4. ce_create env k \<noteq> None"
  shows "acquire_stats env h = (h\<lparr>ch_stats_RTT := Some (Stats 0), ch_stats_internal := Some (Stats 1),
     ch_stats_client_server := Some (Stats 2), ch_stats_server_client := Some (Stats 3)\<rparr>, True)"
  using assms by (simp add: acquire_stats_def Let_def)

lemma acquire_stats_some:
  assumes "k < 4" and "ce_create env k = None"
  shows "\<exists>h'. acquire_stats env h = (h', False) \<and> ch_remote_address_info h' = ch_remote_address_info h \<and>
     ch_local_address_info h' = ch_local_address_info h"
proof -
  have "k = 0 \<or> k = 1 \<or> k = 2 \<or> k = 3" using assms(1) by linarith
  with assms(2) show ?thesis by (auto simp: acquire_stats_def Let_def)
qed

text \<open>The addresses of all hosts and the local address are held once they were resolved.\<close>

definition resolved_handles :: "nat \<Rightarrow> client_handles" where
  "resolved_handles n = client_handles_init\<lparr>ch_remote_address_info := map (Some \<circ> Remote_addrinfo) [0..<n],
     ch_local_address_info := Some Local_addrinfo\<rparr>"

definition resolved :: "'st client_env \<Rightarrow> client_args \<Rightarrow> addrinfo list \<Rightarrow> addrinfo \<Rightarrow> bool" where
  "resolved env a addrs local \<longleftrightarrow> (ca_ip_version a = 4 \<or> ca_ip_version a = 6) \<and>
     resolves env a (client_family a) addrs local \<and> addrs \<noteq> []"

definition no_socket :: "'st client_env \<Rightarrow> addrinfo list \<Rightarrow> bool" where
  "no_socket env addrs \<longleftrightarrow>
     ce_socket env (ai_family (hd addrs)) (ai_socktype (hd addrs)) (ai_protocol (hd addrs)) \<noteq> None"

lemma acquire_client_resolved:
  assumes "resolved env a addrs local"
  shows "acquire_client env a =
     (let h = resolved_handles (length (ca_remote_hosts a))
      in if no_socket env addrs then (h, False)
         else if ce_bind env (ai_addr local) \<noteq> None then (h\<lparr>ch_fd := Some Descriptor\<rparr>, False)
         else acquire_stats env (h\<lparr>ch_fd := Some Descriptor\<rparr>))"
proof -
  define host where "host = (if ca_local_host a = [] then None else Some (ca_local_host a))"
  have l: "ce_getaddrinfo env host (ca_local_port a) (client_family a) = Inr local" and
    v: "ca_ip_version a = 4 \<or> ca_ip_version a = 6" and
    r: "resolve_hosts env (client_family a) (ca_remote_hosts a) (ca_remote_ports a) = Inr addrs"
    using assms by (simp_all add: resolved_def resolves_def host_def)
  obtain first rest where "addrs = first # rest" using assms by (cases addrs) (simp_all add: resolved_def)
  with acquire_remotes_all [OF r, of 0] v l r show ?thesis
    unfolding acquire_client_def host_def [symmetric] by (auto simp: resolved_handles_def no_socket_def Let_def)
qed

lemma construct_client_resolves:
  assumes "\<And>msg. construct_client env a clk fresh \<noteq> Inl (Exits msg)"
    and "construct_client env a clk fresh \<noteq> Inl Undefined_behaviour"
  shows "\<exists>addrs local. resolved env a addrs local"
proof -
  obtain start clk' where t: "time_null clk = (start, clk')" by fastforce
  define host where "host = (if ca_local_host a = [] then None else Some (ca_local_host a))"
  have v: "ca_ip_version a = 4 \<or> ca_ip_version a = 6" using assms(1) [of "''Invalid IP version.''"]
    by (simp add: construct_client_def t split: if_splits)
  then have o: "construct_client env a clk fresh = open_client env a (client_family a) start clk' fresh"
    by (auto simp: construct_client_def t)
  have exits: "resolve_hosts env family hosts ports = Inl x \<Longrightarrow> \<exists>msg. x = Exits msg" for family hosts ports x
    by (induction env family hosts ports rule: resolve_hosts.induct) (auto split: sum.splits)
  obtain addrs where r: "resolve_hosts env (client_family a) (ca_remote_hosts a) (ca_remote_ports a) = Inr addrs"
  proof (cases "resolve_hosts env (client_family a) (ca_remote_hosts a) (ca_remote_ports a)")
    case (Inl x)
    with exits [OF Inl] assms(1) show ?thesis by (auto simp: o open_client_def)
  qed
  obtain local where l: "ce_getaddrinfo env host (ca_local_port a) (client_family a) = Inr local"
  proof (cases "ce_getaddrinfo env host (ca_local_port a) (client_family a)")
    case (Inl x)
    then have "open_client env a (client_family a) start clk' fresh =
        Inl (Exits (''failed to resolve local socket address: '' @ dec_int x))"
      unfolding open_client_def host_def [symmetric] r by simp
    with assms(1) o show ?thesis by metis
  qed
  have "addrs \<noteq> []" using assms(2) l unfolding o open_client_def host_def [symmetric] r by auto
  with v r l show ?thesis unfolding resolved_def resolves_def host_def by blast
qed

lemma construct_client_iff:
  assumes "resolved env a addrs local"
  shows "(\<exists>c fd. construct_client env a clk fresh = Inr (c, fd)) \<longleftrightarrow>
     \<not> no_socket env addrs \<and> ce_bind env (ai_addr local) = None \<and> (\<forall>k < 4. ce_create env k \<noteq> None)"
proof -
  obtain start clk' where t: "time_null clk = (start, clk')" by fastforce
  obtain fd1 err1 where 1: "set_socket_options (ce_setsockopt env) 255 (ca_timeout a) fresh = (fd1, err1)" by fastforce
  obtain fd2 err2 where 2: "set_socket_tos (ce_setsockopt env) (ca_snd_tos a) fd1 = (fd2, err2)" by fastforce
  have "resolves env a (client_family a) x y \<and> x \<noteq> [] \<and> P \<longleftrightarrow> x = addrs \<and> y = local \<and> P" for x y P
    using assms by (auto simp: resolved_def resolves_def)
  then have "open_client env a (client_family a) start clk' fresh = Inr (c, fd) \<longleftrightarrow>
      fd = fd2 \<and> \<not> socket_fails env addrs local \<and> constructed env a clk addrs (err1 @ err2) c" for c fd
    unfolding open_client_Inr [OF t] by (simp add: 1 2) blast
  moreover have "(\<exists>c. constructed env a clk addrs errs c) \<longleftrightarrow> (\<forall>k < 4. ce_create env k \<noteq> None)" for errs
    unfolding constructed_def by (simp add: numeral_eq_Suc All_less_Suc conj_ac) blast
  ultimately show ?thesis
    using assms unfolding construct_client_eq [OF t] by (auto simp: resolved_def socket_fails_def no_socket_def)
qed

section \<open>Everything is released\<close>

lemma held_iff:
  "r \<in> held h \<longleftrightarrow> Some r \<in> {ch_stats_RTT h, ch_stats_internal h, ch_stats_client_server h, ch_stats_server_client h,
      ch_local_address_info h, ch_fd h} \<union> set (ch_remote_address_info h)"
  by (auto simp: held_def in_these_eq)

text \<open>
  C29: When the client was constructed, its destructor releases every resource that the constructor acquired, each
  exactly once, and nothing else. When the constructor throws, the lists of addresses of all hosts and the local address
  are allocated and no destructor runs: they are not released.
\<close>

theorem client_resources:
  "(construct_client env a clk fresh = Inr (c, fd) \<longrightarrow>
     (\<exists>h rs. acquire_client env a = (h, True) \<and> destroy_client h = map Some rs \<and> distinct rs \<and> set rs = held h \<and>
        length rs = length (ca_remote_hosts a) + 6)) \<and>
   (construct_client env a clk fresh = Inl (Throws e) \<longrightarrow>
     (\<exists>h. acquire_client env a = (h, False) \<and>
        {Local_addrinfo} \<union> Remote_addrinfo ` {0..<length (ca_remote_hosts a)} \<subseteq> held h))"
proof (intro conjI impI)
  let ?n = "length (ca_remote_hosts a)"
  assume i: "construct_client env a clk fresh = Inr (c, fd)"
  then obtain addrs local where r: "resolved env a addrs local" using construct_client_resolves [of env a clk fresh] by auto
  let ?h = "(resolved_handles ?n)\<lparr>ch_fd := Some Descriptor, ch_stats_RTT := Some (Stats 0), ch_stats_internal := Some (Stats 1),
     ch_stats_client_server := Some (Stats 2), ch_stats_server_client := Some (Stats 3)\<rparr>"
  let ?rs = "[Stats 0, Stats 1, Stats 2, Stats 3] @ map Remote_addrinfo [0..<?n] @ [Local_addrinfo, Descriptor]"
  have "acquire_client env a = (?h, True)"
    using construct_client_iff [OF r, of clk fresh] i by (simp add: acquire_client_resolved [OF r] acquire_stats_all)
  moreover have "destroy_client ?h = map Some ?rs" by (simp add: destroy_client_def resolved_handles_def)
  moreover have "distinct ?rs" by (auto simp: distinct_map inj_on_def)
  moreover have "set ?rs = held ?h" by (auto simp: held_iff resolved_handles_def)
  moreover have "length ?rs = ?n + 6" by simp
  ultimately show "\<exists>h rs. acquire_client env a = (h, True) \<and> destroy_client h = map Some rs \<and> distinct rs \<and> set rs = held h \<and>
        length rs = ?n + 6" by blast
next
  assume i: "construct_client env a clk fresh = Inl (Throws e)"
  then obtain addrs local where r: "resolved env a addrs local" using construct_client_resolves [of env a clk fresh] by auto
  obtain h where "acquire_client env a = (h, False)" "ch_local_address_info h = Some Local_addrinfo"
    "ch_remote_address_info h = map (Some \<circ> Remote_addrinfo) [0..<length (ca_remote_hosts a)]"
  proof (cases "\<not> no_socket env addrs \<and> ce_bind env (ai_addr local) = None")
    case True
    with construct_client_iff [OF r, of clk fresh] i obtain k where k: "k < 4" "ce_create env k = None" by auto
    from acquire_stats_some [OF k, of "(resolved_handles (length (ca_remote_hosts a)))\<lparr>ch_fd := Some Descriptor\<rparr>"] True that
    show ?thesis by (auto simp: acquire_client_resolved [OF r] resolved_handles_def)
  next
    case False
    with that show ?thesis
      by (cases "no_socket env addrs") (auto simp: acquire_client_resolved [OF r] resolved_handles_def)
  qed
  then show "\<exists>h. acquire_client env a = (h, False) \<and>
        {Local_addrinfo} \<union> Remote_addrinfo ` {0..<length (ca_remote_hosts a)} \<subseteq> held h"
    by (intro exI [of _ h]) (auto simp: held_iff)
qed

text \<open>An environment in which everything succeeds but, perhaps, the binding of the socket.\<close>

definition plain_env :: "int option \<Rightarrow> unit client_env" where
  "plain_env bound = \<lparr>ce_getaddrinfo = (\<lambda>host service family. Inr \<lparr>ai_family = 2, ai_socktype = 2, ai_protocol = 0, ai_addr = [1]\<rparr>),
     ce_socket = (\<lambda>family type protocol. None), ce_setsockopt = (\<lambda>opt. True), ce_bind = (\<lambda>addr. bound), ce_getsockname = None, ce_strerror = (\<lambda>e. ''in use''), ce_create = (\<lambda>k. Some ())\<rparr>"

definition plain_args :: client_args where
  "plain_args = client_args_default\<lparr>ca_remote_hosts := [''reflector''], ca_remote_ports := [862]\<rparr>"

theorem client_resources_witness:
  "(\<exists>h rs. acquire_client (plain_env None) plain_args = (h, True) \<and> destroy_client h = map Some rs \<and> length rs = 7) \<and>
   (\<exists>h. acquire_client (plain_env (Some 98)) plain_args = (h, False) \<and> Remote_addrinfo 0 \<in> held h)"
proof
  fix clk :: sys_clock and fresh :: socket
  have a: "length (ca_remote_hosts plain_args) = 1" by (simp add: plain_args_def)
  let ?ai = "\<lparr>ai_family = 2, ai_socktype = 2, ai_protocol = 0, ai_addr = [1]\<rparr>"
  have "resolved (plain_env None) plain_args [?ai] ?ai"
    by (simp add: resolved_def resolves_def plain_env_def plain_args_def client_args_default_def)
  from construct_client_iff [OF this, of clk fresh]
  obtain c fd where "construct_client (plain_env None) plain_args clk fresh = Inr (c, fd)"
    by (auto simp: plain_env_def no_socket_def)
  with client_resources [of "plain_env None" plain_args clk fresh c fd] a
  show "\<exists>h rs. acquire_client (plain_env None) plain_args = (h, True) \<and> destroy_client h = map Some rs \<and> length rs = 7"
    by fastforce
  have "\<exists>e. construct_client (plain_env (Some 98)) plain_args clk fresh = Inl (Throws e)"
    by (simp add: construct_client_def open_client_def plain_env_def plain_args_def client_args_default_def Let_def case_prod_beta)
  with client_resources [of "plain_env (Some 98)" plain_args clk fresh] a
  show "\<exists>h. acquire_client (plain_env (Some 98)) plain_args = (h, False) \<and> Remote_addrinfo 0 \<in> held h"
    by fastforce
qed

end
