(* ===== verification/Spec2Isabelle.thy ===== *)
theory Spec2Isabelle
  imports Session Platforms Resources
begin

text \<open>
  TWAMP light: a client that measures the delays and losses of UDP packets that a server reflects.

  \<^bold>\<open>The program.\<close> The client (\<^verbatim>\<open>src/client\<close>) runs three threads on one \<^verbatim>\<open>Client\<close> object. The sender builds
  numbered, time-stamped packets and sends each to every remote host, with random or constant pauses.
  The receiver reads the replies. Both put observations (packet, place, time) into a queue, from which
  the collator joins the four observations of a packet into one entry, and aggregates an entry into the
  statistics when it is complete or too old. The server (\<^verbatim>\<open>src/server\<close>) answers each test packet with a
  packet of the same length that repeats the sender's header and adds its own two timestamps. At the end
  the client prints its statistics and writes a JSON report.

  \<^bold>\<open>Theories and sources.\<close> In the order of their imports:

  \<^item> \<^verbatim>\<open>Twamp_Prelude\<close>: integer types as words, byte order, object representation, decimal numerals.
  \<^item> \<^verbatim>\<open>Binary64\<close>: the C++ \<^verbatim>\<open>double\<close>, as rational numbers with rounding to nearest even.
  \<^item> \<^verbatim>\<open>Timestamps\<close> (\<^verbatim>\<open>utils.cpp\<close>, \<^verbatim>\<open>utils.hpp\<close>): conversions between Unix and NTP time, sums of times. A time
    on the wire and back is exact in its seconds, across the wrap of 2036, and loses at most a
    nanosecond; differences of ordered times never wrap.
  \<^item> \<^verbatim>\<open>Packets\<close> (\<^verbatim>\<open>packets.h\<close>): the two packets and their bytes. Both take 1472 bytes, and writing and
    reading them are inverse.
  \<^item> \<^verbatim>\<open>Addresses\<close> (\<^verbatim>\<open>utils.cpp\<close>): \<^verbatim>\<open>parseIPPort\<close> and \<^verbatim>\<open>parseIPv6Port\<close>. Round trips and soundness.
  \<^item> \<^verbatim>\<open>Sockets\<close> (\<^verbatim>\<open>utils.cpp\<close>): control messages, message headers and socket options.
  \<^item> \<^verbatim>\<open>Packet_Lists\<close> (\<^verbatim>\<open>packetlist.h\<close>, \<^verbatim>\<open>Client.h\<close>): both queues of the client, as instances of the locale
    \<^verbatim>\<open>fifo\<close>, which shows that any sequence of operations returns the elements in order.
  \<^item> \<^verbatim>\<open>Client_State\<close> (\<^verbatim>\<open>Client.h\<close>): the arguments and the object, with the clock it reads, what it
    printed and what it handed to the network.
  \<^item> \<^verbatim>\<open>Collator\<close> (\<^verbatim>\<open>Client.cpp\<close>): \<^verbatim>\<open>process_observation\<close> refines the update of a finite map; an entry
    holds what was observed; the delays and losses an entry adds; the thread ends.
  \<^item> \<^verbatim>\<open>Server\<close> (\<^verbatim>\<open>Server.h\<close>, \<^verbatim>\<open>Server.cpp\<close>): construction, the answer to a datagram, what is printed, and the
    receive loop, with its results on every kind of failure.
  \<^item> \<^verbatim>\<open>Sender\<close>, \<^verbatim>\<open>Receiver\<close>, \<^verbatim>\<open>Client_Output\<close> (\<^verbatim>\<open>Client.cpp\<close>): the two other threads as sequential programs, and the
    lines of the legacy format. What a thread sends or queues, and when it ends.
  \<^item> \<^verbatim>\<open>Step_Systems\<close>: runs of a labelled step relation, and the locale \<^verbatim>\<open>step_invariant\<close> of an invariant of its
    steps, which the invariants of \<^verbatim>\<open>Threads\<close> and \<^verbatim>\<open>Session\<close> interpret.
  \<^item> \<^verbatim>\<open>Threads\<close> (\<^verbatim>\<open>main_client.cpp\<close>, \<^verbatim>\<open>Client.cpp\<close>): the interleavings of the three threads, as a step relation.
    Invariants of all reachable states; entries are aggregated once and in order as long as no receive
    times out; and two runs that show what happens otherwise.
  \<^item> \<^verbatim>\<open>Schedules\<close>: a run of one of the sequential threads is a run of the step relation.
  \<^item> \<^verbatim>\<open>Platforms\<close> (\<^verbatim>\<open>utils.cpp\<close>, \<^verbatim>\<open>Client.cpp\<close>): the conditionally compiled variants of the helpers and of the
    client, related to the build for Linux that the other theories model.
  \<^item> \<^verbatim>\<open>Setup\<close> (\<^verbatim>\<open>main_client.cpp\<close>, \<^verbatim>\<open>main_server.cpp\<close>, \<^verbatim>\<open>Client.cpp\<close>): the options of both programs, the
    members they are bound to and the checks on them, and the construction of the client: when it succeeds and
    every member of the object it leaves.
  \<^item> \<^verbatim>\<open>Resources\<close> (\<^verbatim>\<open>Client.cpp\<close>): what the client's constructor acquires is what its destructor releases.
  \<^item> \<^verbatim>\<open>Round_Trip\<close>: client and server together. The locale \<^verbatim>\<open>reflector\<close> states what the client relies on, and
    the server is shown to provide it. The four observations of a packet are shown to reach the
    statistics as its true delays, to within a nanosecond; a packet longer than the buffers is lost.
  \<^item> \<^verbatim>\<open>Calendar\<close>, \<^verbatim>\<open>Report\<close> (\<^verbatim>\<open>Client.cpp\<close>, \<^verbatim>\<open>main_client.cpp\<close>): dates of the C library, the statistics as
    text, the JSON report and the end of \<^verbatim>\<open>main\<close> with the exceptions it catches. The report has a fixed type and
    the values of the client, and its times are related to those of the client.
  \<^item> \<^verbatim>\<open>Session\<close> (\<^verbatim>\<open>main_client.cpp\<close>): the client program from the command line to the exit code, with the
    threads of \<^verbatim>\<open>Threads\<close> in between. Which outcomes it has, that the sequential threads one after the other are one of
    its runs, and that the statistics it reports at the end of a run without receive timeouts are those of all its
    entries.

  \<^bold>\<open>State and effects.\<close> A C++ class is a record with one field per member, a method a function on it. The
  system clock is a sequence of readings with a position, so that each call takes the next reading;
  standard output and error and the network are fields that grow. Results of system calls (\<^verbatim>\<open>recvmsg\<close>,
  \<^verbatim>\<open>sendmsg\<close>, \<^verbatim>\<open>getaddrinfo\<close>, ...) are arguments: a run of the server or of the receiver is driven by
  the list of the results of its receive calls. Exceptions and exits are the left summand of a result.
  \<^verbatim>\<open>uint64_t\<close> and the smaller unsigned types are words, and their differences wrap as in C++.

  \<^bold>\<open>Loops.\<close> Loops over data are structural. The sender and the collator loop, which need not end, are
  partial functions to options, where \<^const>\<open>None\<close> is an endless run; the theorems about them show that
  they return a value. The loops of the server and the receiver recurse over the results of their receive
  calls; \<^verbatim>\<open>Blocked\<close> stands for the wait for the next one. No fuel is used.

  \<^bold>\<open>Parameters.\<close> The statistics (qoo-c with t-digest), the command line parser (CLI11), the serialisation of
  JSON (nlohmann), which may throw, and the random number engines are not part of the repository's own code: they are
  arguments of the functions that use them, and so is whether the report's file can be opened. The queries of the statistics return finite numbers; any other condition on
  a parameter is a hypothesis of the theorem that needs it.

  \<^bold>\<open>Not modelled.\<close> The server's destructor (it closes the socket), the server of a build without control messages or
  without some socket options, the help texts of the options (what CLI11 prints before it exits is part of its
  outcome), and the memory model of C++: the accesses of the threads to shared members are atomic in \<^verbatim>\<open>Threads\<close>, and so is a round of a
  thread up to its accesses to the list of entries. A run that pops an empty list has undefined
  behaviour, as has the constructor of a client without hosts, which \<^verbatim>\<open>parse_args\<close> never leads to; \<^verbatim>\<open>Session\<close> gives
  them no outcome. Signed differences of times (\<^verbatim>\<open>computeTimeData\<close>) and the product of \<^verbatim>\<open>get_kernel_timestamp\<close> are
  unbounded integers; they agree with 64-bit arithmetic for times below \<^verbatim>\<open>2^63\<close> nanoseconds.
\<close>

end
